(* ===== verification/Prelude.thy ===== *)
theory Prelude
  imports Main "HOL-Library.Word"
begin

text \<open>
  Shared vocabulary of the development: the machine integer types of
  \<^verbatim>\<open>src/common/types.h\<close>, NUL-terminated C strings, byte-order readers and writers,
  in-place buffer writes, and the generic list and word lemmas the component
  theories rely on.  Two collections carry the automation: \<open>cstr_simps\<close>
  (C strings) and \<open>buf_simps\<close> (buffers and byte order).
\<close>

unbundle bit_operations_syntax

named_theorems cstr_simps \<open>rewriting of C string helpers\<close>
named_theorems buf_simps \<open>rewriting of buffer and byte-order helpers\<close>

section \<open>Machine integers\<close>

type_synonym u8 = "8 word"
type_synonym u16 = "16 word"
type_synonym u32 = "32 word"
type_synonym u64 = "64 word"

lemma unat_zero_iff: "unat x = 0 \<longleftrightarrow> x = (0 :: 'a::len word)"
  by (simp add: word_unat_eq_iff)

lemma unat_u32_less: "unat (x :: u32) < 2 ^ 32"
  using unsigned_less [of x] by simp

definition ALIGN_UP :: "u64 \<Rightarrow> u64 \<Rightarrow> u64" where
  "ALIGN_UP x align = (x + align - 1) AND NOT (align - 1)"

definition ALIGN_DOWN :: "u64 \<Rightarrow> u64 \<Rightarrow> u64" where
  "ALIGN_DOWN x align = x AND NOT (align - 1)"

section \<open>C strings\<close>

text \<open>
  A \<^verbatim>\<open>const char *\<close> that points into a NUL-terminated buffer is the list of the
  characters from there on; \<open>peek p\<close> is \<^verbatim>\<open>*p\<close>, so the end of the list and an
  embedded NUL both read as NUL, and \<open>nz p\<close> is the loop guard \<^verbatim>\<open>*p\<close>.
\<close>

abbreviation NUL :: char where "NUL \<equiv> CHR 0x00"

abbreviation TAB :: char where "TAB \<equiv> CHR 0x09"

abbreviation LF :: char where "LF \<equiv> CHR 0x0A"

abbreviation CR :: char where "CR \<equiv> CHR 0x0D"

abbreviation ord :: "char \<Rightarrow> nat" where "ord c \<equiv> of_char c"

text \<open>A byte as a character.\<close>

definition chr8 :: "u8 \<Rightarrow> char" where "chr8 b = char_of (unat b)"

definition peek :: "string \<Rightarrow> char" where
  "peek p = (case p of [] \<Rightarrow> NUL | c # _ \<Rightarrow> c)"

definition nz :: "string \<Rightarrow> bool" where
  "nz p \<longleftrightarrow> peek p \<noteq> NUL"

text \<open>The characters a C string function sees: those before the first NUL.\<close>

definition cstr :: "string \<Rightarrow> string" where
  "cstr p = takeWhile (\<lambda>c. c \<noteq> NUL) p"

lemma peek_simps [simp]: "peek [] = NUL" "peek (c # p) = c"
  by (simp_all add: peek_def)

lemma nz_simps [simp]: "\<not> nz []" "nz (c # p) \<longleftrightarrow> c \<noteq> NUL"
  by (simp_all add: nz_def)

lemma cstr_simps' [simp]:
  "cstr [] = []" "cstr (c # p) = (if c = NUL then [] else c # cstr p)"
  by (simp_all add: cstr_def)

lemma nz_cstr: "nz p \<longleftrightarrow> cstr p \<noteq> []"
  by (cases p) simp_all

lemma NUL_notin_cstr [simp]: "NUL \<notin> set (cstr p)"
  by (induction p) simp_all

lemma cstr_id [cstr_simps]: "NUL \<notin> set p \<Longrightarrow> cstr p = p"
  by (induction p) auto

lemma cstr_idem [simp]: "cstr (cstr p) = cstr p"
  by (rule cstr_id) simp

lemma length_cstr_le: "length (cstr p) \<le> length p"
  by (simp add: cstr_def length_takeWhile_le)

lemma set_cstr_subset: "set (cstr p) \<subseteq> set p"
  by (auto simp: cstr_def dest: set_takeWhileD)

lemma cstr_append_NUL [simp]: "cstr (p @ NUL # q) = cstr p"
  by (induction p) simp_all

text \<open>Length of a C string: the \<^verbatim>\<open>while (s[n]) n++\<close> loop that every component repeats.\<close>

fun cfg_str_len :: "string \<Rightarrow> nat" where
  "cfg_str_len [] = 0"
| "cfg_str_len (c # s) = (if c = NUL then 0 else Suc (cfg_str_len s))"

lemma cfg_str_len_cstr [cstr_simps]: "cfg_str_len s = length (cstr s)"
  by (induction s) simp_all

text \<open>
  Bounded copy: the loop \<^verbatim>\<open>while (i + 1 < max && src[i]) { dst[i] = src[i]; i++; }\<close>
  followed by \<^verbatim>\<open>dst[i] = 0\<close>, as the C string it leaves in \<^verbatim>\<open>dst\<close>.
\<close>

fun str_copy_loop :: "nat \<Rightarrow> nat \<Rightarrow> string \<Rightarrow> string" where
  "str_copy_loop i mx [] = []"
| "str_copy_loop i mx (c # src) =
     (if i + 1 < mx \<and> c \<noteq> NUL then c # str_copy_loop (Suc i) mx src else [])"

definition str_copy :: "string \<Rightarrow> nat \<Rightarrow> string" where
  "str_copy src mx = str_copy_loop 0 mx src"

lemma str_copy_loop_take: "str_copy_loop i mx src = take (mx - 1 - i) (cstr src)"
proof (induction i mx src rule: str_copy_loop.induct)
  case (2 i mx c src)
  show ?case
  proof (cases "i + 1 < mx \<and> c \<noteq> NUL")
    case True
    then have "mx - 1 - i = Suc (mx - 1 - Suc i)" by arith
    with True "2.IH" show ?thesis by simp
  qed auto
qed simp

lemma str_copy_take [cstr_simps]: "str_copy src mx = take (mx - 1) (cstr src)"
  by (simp add: str_copy_def str_copy_loop_take)

lemma length_str_copy: "0 < mx \<Longrightarrow> length (str_copy src mx) < mx"
  by (simp add: str_copy_take)

lemma NUL_notin_str_copy [simp]: "NUL \<notin> set (str_copy src mx)"
  using NUL_notin_cstr by (auto simp: str_copy_take dest: in_set_takeD)

text \<open>String equality and prefix tests, character by character as in the source.\<close>

fun str_eq :: "string \<Rightarrow> string \<Rightarrow> bool" where
  "str_eq (a # as) (b # bs) =
     (if a \<noteq> NUL \<and> b \<noteq> NUL \<and> a = b then str_eq as bs else a = NUL \<and> b = NUL)"
| "str_eq [] bs = (\<not> nz bs)"
| "str_eq as [] = (\<not> nz as)"

lemma str_eq_cstr [cstr_simps]: "str_eq a b \<longleftrightarrow> cstr a = cstr b"
  by (induction a b rule: str_eq.induct) (auto simp: nz_cstr)

fun str_starts :: "string \<Rightarrow> string \<Rightarrow> bool" where
  "str_starts h [] = True"
| "str_starts h (c # prefix) =
     (if c = NUL then True
      else if peek h \<noteq> c then False else str_starts (tl h) prefix)"

lemma str_starts_take:
  "NUL \<notin> set prefix \<Longrightarrow> str_starts h prefix \<longleftrightarrow> take (length prefix) h = prefix"
proof (induction h prefix rule: str_starts.induct)
  case (2 h c prefix)
  then show ?case by (cases h) auto
qed simp

lemma str_starts_append [simp]:
  "NUL \<notin> set prefix \<Longrightarrow> str_starts (prefix @ rest) prefix"
  by (simp add: str_starts_take)

section \<open>Buffers\<close>

text \<open>\<open>write_at buf i bs\<close> overwrites \<open>length bs\<close> bytes of \<open>buf\<close> from index \<open>i\<close>.\<close>

definition write_at :: "'a list \<Rightarrow> nat \<Rightarrow> 'a list \<Rightarrow> 'a list" where
  "write_at buf i bs = take i buf @ bs @ drop (i + length bs) buf"

lemma length_write_at [buf_simps]:
  "i + length bs \<le> length buf \<Longrightarrow> length (write_at buf i bs) = length buf"
  by (simp add: write_at_def)

lemma take_write_at [buf_simps]: "i \<le> length buf \<Longrightarrow> take i (write_at buf i bs) = take i buf"
  by (simp add: write_at_def)

lemma write_at_Nil [simp]: "write_at buf i [] = buf"
  by (simp add: write_at_def)

lemma nth_write_at:
  assumes "i + length bs \<le> length buf" and "j < length buf"
  shows "write_at buf i bs ! j = (if i \<le> j \<and> j < i + length bs then bs ! (j - i) else buf ! j)"
  using assms by (auto simp: write_at_def nth_append min_def)

text \<open>Bounded sub-range of a buffer, \<^verbatim>\<open>buf[off .. off+n-1]\<close>.\<close>

definition slice :: "'a list \<Rightarrow> nat \<Rightarrow> nat \<Rightarrow> 'a list" where
  "slice buf off n = take n (drop off buf)"

lemma length_slice [buf_simps]: "off + n \<le> length buf \<Longrightarrow> length (slice buf off n) = n"
  by (simp add: slice_def)

lemma nth_slice [buf_simps]:
  "off + n \<le> length buf \<Longrightarrow> i < n \<Longrightarrow> slice buf off n ! i = buf ! (off + i)"
  by (simp add: slice_def)

lemma slice_append_left [buf_simps]:
  "off + n \<le> length a \<Longrightarrow> slice (a @ b) off n = slice a off n"
  by (simp add: slice_def)

section \<open>Byte-wise exclusive or\<close>

definition xor_bytes :: "'a::len word list \<Rightarrow> 'a word list \<Rightarrow> 'a word list" where
  "xor_bytes a b = map2 (XOR) a b"

lemma length_xor_bytes [simp]: "length (xor_bytes a b) = min (length a) (length b)"
  by (simp add: xor_bytes_def)

lemma nth_xor_bytes:
  "i < length a \<Longrightarrow> i < length b \<Longrightarrow> xor_bytes a b ! i = a ! i XOR b ! i"
  by (simp add: xor_bytes_def)

lemma word_xor_cancel: "(x XOR y) XOR y = (x :: 'a::len word)"
  by (simp add: xor.assoc)

lemma xor_bytes_cancel [simp]:
  "length a \<le> length b \<Longrightarrow> xor_bytes (xor_bytes a b) b = a"
  by (rule nth_equalityI) (simp_all add: nth_xor_bytes word_xor_cancel)

section \<open>Byte order\<close>

definition u16_of_le :: "u8 list \<Rightarrow> u16" where
  "u16_of_le p = ucast (p ! 0) OR push_bit 8 (ucast (p ! 1))"

definition u32_of_le :: "u8 list \<Rightarrow> u32" where
  "u32_of_le p = ucast (p ! 0) OR push_bit 8 (ucast (p ! 1))
     OR push_bit 16 (ucast (p ! 2)) OR push_bit 24 (ucast (p ! 3))"

definition u32_of_be :: "u8 list \<Rightarrow> u32" where
  "u32_of_be p = push_bit 24 (ucast (p ! 0)) OR push_bit 16 (ucast (p ! 1))
     OR push_bit 8 (ucast (p ! 2)) OR ucast (p ! 3)"

definition u32_to_be :: "u32 \<Rightarrow> u8 list" where
  "u32_to_be v = [ucast (drop_bit 24 v), ucast (drop_bit 16 v), ucast (drop_bit 8 v), ucast v]"

lemma length_u32_to_be [simp]: "length (u32_to_be v) = 4"
  by (simp add: u32_to_be_def)

section \<open>Folds that can fail\<close>

fun fold_opt :: "('a \<Rightarrow> 's \<Rightarrow> 's option) \<Rightarrow> 'a list \<Rightarrow> 's \<Rightarrow> 's option" where
  "fold_opt f [] s = Some s"
| "fold_opt f (x # xs) s = (case f x s of None \<Rightarrow> None | Some s' \<Rightarrow> fold_opt f xs s')"

lemma fold_opt_inv:
  assumes "\<And>x s. x \<in> set xs \<Longrightarrow> I s \<Longrightarrow> \<exists>s'. f x s = Some s' \<and> I s'" and "I s"
  shows "\<exists>s'. fold_opt f xs s = Some s' \<and> I s'"
  using assms
proof (induction xs arbitrary: s)
  case (Cons x xs)
  obtain s' where "f x s = Some s'" "I s'" using Cons.prems by force
  then show ?case using Cons.IH[of s'] Cons.prems(1) by auto
qed simp

lemma fold_opt_keeps:
  assumes "\<And>x s s'. x \<in> set xs \<Longrightarrow> I s \<Longrightarrow> f x s = Some s' \<Longrightarrow> I s'" and "fold_opt f xs s = Some s'" and "I s"
  shows "I s'"
  using assms by (induction xs arbitrary: s) (auto split: option.splits)

end
