(* ===== verification/Config.thy ===== *)
theory Config
  imports Prelude
begin

text \<open>
  The configuration parser \<^verbatim>\<open>src/common/config.c\<close> with the data model of
  \<^verbatim>\<open>src/common/config.h\<close>: boot entries, the boot configuration, the line parser, the
  section parser, the full and the merging parse, kernel type guessing, display
  names and the entry table that the volume scanners append to.

  A \<^verbatim>\<open>char[256]\<close> field is the C string it holds.  \<open>bc_entries\<close> is the fixed array
  of sixteen slots, \<open>bc_num_entries\<close> the number in use; slots beyond it hold
  whatever the memory held.  \<^verbatim>\<open>int\<close> arithmetic that can overflow (\<open>luks_tries\<close>)
  is reduced to 32-bit two's complement by \<open>c_int\<close>.
\<close>

section \<open>Data model\<close>

abbreviation (input) MAX_ENTRIES :: nat where "MAX_ENTRIES \<equiv> 16"

abbreviation (input) MAX_STR_LEN :: nat where "MAX_STR_LEN \<equiv> 256"

abbreviation (input) DEFAULT_TIMEOUT :: u32 where "DEFAULT_TIMEOUT \<equiv> 5"

datatype OSType =
    OS_TYPE_ELF64 | OS_TYPE_LINUX | OS_TYPE_MULTIBOOT2
  | OS_TYPE_UEFI_SHELL | OS_TYPE_WINDOWS | OS_TYPE_UNKNOWN

record BootEntry =
  be_name :: string
  be_type :: OSType
  be_kernel :: string
  be_initrd :: string
  be_cmdline :: string
  be_encrypted :: int
  be_luks_keyfile :: string
  be_luks_tries :: int

record BootConfig =
  bc_timeout :: u32
  bc_default_entry :: u32
  bc_num_entries :: u32
  bc_theme_color :: u8
  bc_accent_color :: u8
  bc_entries :: "BootEntry list"

text \<open>The all-zero entry that the byte-wise clearing loops leave; enumerator 0 is ELF64.\<close>

definition zero_entry :: BootEntry where
  "zero_entry = \<lparr>be_name = [], be_type = OS_TYPE_ELF64, be_kernel = [], be_initrd = [],
     be_cmdline = [], be_encrypted = 0, be_luks_keyfile = [], be_luks_tries = 0\<rparr>"

text \<open>The entries in use.\<close>

definition live_entries :: "BootConfig \<Rightarrow> BootEntry list" where
  "live_entries cfg = take (unat (bc_num_entries cfg)) (bc_entries cfg)"

definition c_int :: "int \<Rightarrow> int" where
  "c_int x = sint (word_of_int x :: 32 word)"

lemma c_int_id: "0 \<le> x \<Longrightarrow> x < 2 ^ 31 \<Longrightarrow> c_int x = x"
  by (simp add: c_int_def signed_take_bit_int_eq_self sint_sbintrunc')

section \<open>Lexical helpers\<close>

definition is_space :: "char \<Rightarrow> bool" where
  "is_space c \<longleftrightarrow> c = CHR '' '' \<or> c = TAB"

definition is_newline :: "char \<Rightarrow> bool" where
  "is_newline c \<longleftrightarrow> c = LF \<or> c = CR"

definition is_digit :: "char \<Rightarrow> bool" where
  "is_digit c \<longleftrightarrow> ord CHR ''0'' \<le> ord c \<and> ord c \<le> ord CHR ''9''"

definition skip_spaces :: "string \<Rightarrow> string" where
  "skip_spaces p = dropWhile (\<lambda>c. c \<noteq> NUL \<and> is_space c) p"

text \<open>The three scanning loops of the parser: a key, the rest of a line, a section name.\<close>

definition key_char :: "char \<Rightarrow> bool" where
  "key_char c \<longleftrightarrow> c \<noteq> NUL \<and> \<not> is_space c \<and> c \<noteq> CHR ''='' \<and> \<not> is_newline c"

definition line_char :: "char \<Rightarrow> bool" where
  "line_char c \<longleftrightarrow> c \<noteq> NUL \<and> \<not> is_newline c"

definition name_char :: "char \<Rightarrow> bool" where
  "name_char c \<longleftrightarrow> c \<noteq> NUL \<and> c \<noteq> CHR '']'' \<and> \<not> is_newline c"

text \<open>\<^verbatim>\<open>while (vi > 0 && is_space(val[vi - 1])) vi--;\<close>\<close>

definition trim_right :: "string \<Rightarrow> string" where
  "trim_right v = rev (dropWhile is_space (rev v))"

text \<open>
  \<^verbatim>\<open>parse_kv\<close>: \<open>None\<close> is the return value 0.  A key or value longer than its buffer is
  cut to \<open>kmax - 1\<close> or \<open>vmax - 1\<close> characters while the scan goes on to its end.
\<close>

definition parse_kv :: "string \<Rightarrow> nat \<Rightarrow> nat \<Rightarrow> (string \<times> string) option" where
  "parse_kv line kmax vmax =
     (let p = skip_spaces line;
          key = take (kmax - 1) (takeWhile key_char p);
          p = dropWhile key_char p
      in if key = [] then None
         else let p = skip_spaces p
              in if peek p \<noteq> CHR ''='' then None
                 else let p = skip_spaces (tl p);
                          val = take (vmax - 1) (takeWhile line_char p)
                      in Some (key, trim_right val))"

text \<open>Unsigned decimal, wrapping at 32 bits as \<^verbatim>\<open>u32\<close> arithmetic does.\<close>

fun parse_u32 :: "u32 \<Rightarrow> string \<Rightarrow> u32" where
  "parse_u32 t [] = t"
| "parse_u32 t (c # s) =
     (if is_digit c then parse_u32 (t * 10 + of_nat (ord c - ord CHR ''0'')) s else t)"

fun parse_int :: "int \<Rightarrow> string \<Rightarrow> int" where
  "parse_int t [] = t"
| "parse_int t (c # s) =
     (if is_digit c
      then parse_int (c_int (t * 10 + int (ord c - ord CHR ''0''))) s else t)"

section \<open>Names, types and colors\<close>

definition to_lower :: "char \<Rightarrow> char" where
  "to_lower c = (if ord CHR ''A'' \<le> ord c \<and> ord c \<le> ord CHR ''Z''
                 then char_of (ord c + 32) else c)"

fun cfg_str_eq_ci :: "string \<Rightarrow> string \<Rightarrow> bool" where
  "cfg_str_eq_ci (a # as) (b # bs) =
     (if a \<noteq> NUL \<and> b \<noteq> NUL
      then (if to_lower a \<noteq> to_lower b then False else cfg_str_eq_ci as bs)
      else a = NUL \<and> b = NUL)"
| "cfg_str_eq_ci [] bs = (\<not> nz bs)"
| "cfg_str_eq_ci as [] = (\<not> nz as)"

text \<open>The comparison loop of \<^verbatim>\<open>ends_with_ci\<close>, entered with \<open>p\<close> and \<open>suf\<close> of equal length.\<close>

fun suffix_eq_ci :: "string \<Rightarrow> string \<Rightarrow> bool" where
  "suffix_eq_ci p [] = True"
| "suffix_eq_ci p (c # suf) =
     (if c = NUL then True
      else if to_lower (peek p) \<noteq> to_lower c then False else suffix_eq_ci (tl p) suf)"

definition ends_with_ci :: "string \<Rightarrow> string \<Rightarrow> bool" where
  "ends_with_ci s suf =
     (let slen = cfg_str_len s; suflen = cfg_str_len suf
      in if suflen > slen then False else suffix_eq_ci (drop (slen - suflen) s) suf)"

definition config_guess_type :: "string \<Rightarrow> OSType" where
  "config_guess_type filename =
     (if ends_with_ci filename ''.elf'' then OS_TYPE_ELF64
      else if str_starts filename ''vmlinuz'' then OS_TYPE_LINUX
      else if str_starts filename ''bzImage'' then OS_TYPE_LINUX
      else if cfg_str_eq_ci filename ''bootmgfw.efi'' then OS_TYPE_WINDOWS
      else if cfg_str_eq_ci filename ''bootmgr.efi'' then OS_TYPE_WINDOWS
      else OS_TYPE_UNKNOWN)"

definition config_parse_type :: "string \<Rightarrow> OSType" where
  "config_parse_type str =
     (if str_eq str ''elf64'' then OS_TYPE_ELF64
      else if str_eq str ''linux'' then OS_TYPE_LINUX
      else if str_eq str ''multiboot2'' then OS_TYPE_MULTIBOOT2
      else if str_eq str ''windows'' then OS_TYPE_WINDOWS
      else OS_TYPE_UNKNOWN)"

definition config_parse_color :: "string \<Rightarrow> int" where
  "config_parse_color name =
     (if str_eq name ''black'' then 0
      else if str_eq name ''blue'' then 1
      else if str_eq name ''green'' then 2
      else if str_eq name ''cyan'' then 3
      else if str_eq name ''red'' then 4
      else if str_eq name ''magenta'' then 5
      else if str_eq name ''pink'' then 5
      else if str_eq name ''brown'' then 6
      else if str_eq name ''orange'' then 6
      else if str_eq name ''lightgray'' then 7
      else if str_eq name ''darkgray'' then 8
      else if str_eq name ''lightblue'' then 9
      else if str_eq name ''lightgreen'' then 10
      else if str_eq name ''lightcyan'' then 11
      else if str_eq name ''lightred'' then 12
      else if str_eq name ''lightmagenta'' then 13
      else if str_eq name ''yellow'' then 14
      else if str_eq name ''white'' then 15
      else -1)"

subsection \<open>Display names\<close>

text \<open>\<^verbatim>\<open>while (*p) { if (*p == '/') last = p + 1; p++; }\<close>\<close>

fun after_last_slash :: "string \<Rightarrow> string \<Rightarrow> string" where
  "after_last_slash lst [] = lst"
| "after_last_slash lst (c # p) =
     (if c = NUL then lst
      else after_last_slash (if c = CHR ''/'' then p else lst) p)"

definition capitalize :: "char \<Rightarrow> char" where
  "capitalize c = (if ord CHR ''a'' \<le> ord c \<and> ord c \<le> ord CHR ''z''
                   then char_of (ord c - 32) else c)"

text \<open>\<^verbatim>\<open>while (filename[i] && !(filename[i] == '.' && ends_with_ci(filename + i, ".elf")) && i + 1 < max)\<close>\<close>

fun strip_elf :: "nat \<Rightarrow> nat \<Rightarrow> string \<Rightarrow> string" where
  "strip_elf i mx [] = []"
| "strip_elf i mx (c # f) =
     (if c \<noteq> NUL \<and> \<not> (c = CHR ''.'' \<and> ends_with_ci (c # f) ''.elf'') \<and> i + 1 < mx
      then c # strip_elf (Suc i) mx f else [])"

definition make_name_elf :: "string \<Rightarrow> string \<Rightarrow> nat \<Rightarrow> string" where
  "make_name_elf dir filename mx =
     (if cfg_str_eq_ci filename ''kernel.elf'' \<or> cfg_str_eq_ci filename ''kernel''
      then let lst = after_last_slash dir dir;
               lst = (if \<not> nz lst then dir else lst)
           in if nz lst \<and> 0 + 1 < mx
              then capitalize (hd lst) # str_copy_loop 1 mx (tl lst)
              else str_copy_loop 0 mx lst
      else strip_elf 0 mx filename)"

definition make_name_linux :: "string \<Rightarrow> nat \<Rightarrow> string" where
  "make_name_linux filename mx =
     (let skip = (if str_starts filename ''vmlinuz'' then 7
                  else if str_starts filename ''bzImage'' then 7 else 0);
          out = str_copy ''Linux'' mx;
          ver = drop skip filename;
          ver = (if peek ver = CHR ''-'' \<or> peek ver = CHR ''_'' then tl ver else ver)
      in if nz ver
         then let out = (if cfg_str_len out + 1 < mx then out @ '' '' else out)
              in out @ str_copy ver (mx - length out)
         else out)"

definition config_make_name :: "string \<Rightarrow> string \<Rightarrow> OSType \<Rightarrow> nat \<Rightarrow> string" where
  "config_make_name dir filename type mx =
     (if type = OS_TYPE_ELF64 then make_name_elf dir filename mx
      else if type = OS_TYPE_WINDOWS then str_copy ''Windows'' mx
      else if type = OS_TYPE_LINUX then make_name_linux filename mx
      else str_copy filename mx)"

section \<open>The entry table\<close>

definition config_add_kernel ::
    "BootConfig \<Rightarrow> string \<Rightarrow> OSType \<Rightarrow> string \<Rightarrow> string option \<Rightarrow> int \<times> BootConfig" where
  "config_add_kernel cfg name type kernel_path initrd_path =
     (if list_ex (\<lambda>e. str_eq (be_kernel e) kernel_path) (live_entries cfg) then (0, cfg)
      else if unat (bc_num_entries cfg) \<ge> MAX_ENTRIES then (-1, cfg)
      else let e = zero_entry\<lparr>be_type := type,
                     be_name := str_copy name MAX_STR_LEN,
                     be_kernel := str_copy kernel_path MAX_STR_LEN\<rparr>;
               e = (case initrd_path of
                      None \<Rightarrow> e
                    | Some ip \<Rightarrow> if nz ip then e\<lparr>be_initrd := str_copy ip MAX_STR_LEN\<rparr> else e)
           in (0, cfg\<lparr>bc_num_entries := bc_num_entries cfg + 1,
                      bc_entries := (bc_entries cfg)[unat (bc_num_entries cfg) := e]\<rparr>))"

section \<open>The parser\<close>

definition apply_global :: "string \<Rightarrow> string \<Rightarrow> BootConfig \<Rightarrow> BootConfig" where
  "apply_global key val cfg =
     (if str_eq key ''timeout'' then cfg\<lparr>bc_timeout := parse_u32 0 val\<rparr>
      else if str_eq key ''default'' then cfg\<lparr>bc_default_entry := parse_u32 0 val\<rparr>
      else if str_eq key ''accent'' then
        (let c = config_parse_color val
         in if c \<ge> 0 then cfg\<lparr>bc_accent_color := word_of_int c\<rparr> else cfg)
      else if str_eq key ''theme'' then
        (let c = config_parse_color val
         in if c \<ge> 0 \<and> c \<le> 7 then cfg\<lparr>bc_theme_color := word_of_int c\<rparr> else cfg)
      else cfg)"

definition apply_entry :: "string \<Rightarrow> string \<Rightarrow> BootEntry \<Rightarrow> BootEntry" where
  "apply_entry key val e =
     (if str_eq key ''type'' then e\<lparr>be_type := config_parse_type val\<rparr>
      else if str_eq key ''kernel'' then e\<lparr>be_kernel := str_copy val MAX_STR_LEN\<rparr>
      else if str_eq key ''initrd'' then e\<lparr>be_initrd := str_copy val MAX_STR_LEN\<rparr>
      else if str_eq key ''cmdline'' then e\<lparr>be_cmdline := str_copy val MAX_STR_LEN\<rparr>
      else if str_eq key ''encrypted'' then
        e\<lparr>be_encrypted := (if peek val = CHR ''1'' \<or> peek val = CHR ''y'' \<or> peek val = CHR ''t''
                            then 1 else 0)\<rparr>
      else if str_eq key ''luks_keyfile'' then e\<lparr>be_luks_keyfile := str_copy val MAX_STR_LEN\<rparr>
      else if str_eq key ''luks_tries'' then
        (let t = parse_int 0 val in e\<lparr>be_luks_tries := (if t > 0 then t else 3)\<rparr>)
      else e)"

text \<open>
  A section header, entered behind the \<^verbatim>\<open>[\<close>.  The current entry is an index into the
  table; it is left as it is when the header is no entry header or the table is full.
\<close>

definition open_entry :: "string \<Rightarrow> BootEntry" where
  "open_entry name = zero_entry\<lparr>be_type := OS_TYPE_ELF64, be_luks_tries := 3, be_name := name\<rparr>"

definition open_section ::
    "nat option \<Rightarrow> BootConfig \<Rightarrow> string \<Rightarrow> nat option \<times> BootConfig \<times> string" where
  "open_section cur cfg p =
     (if str_starts p ''entry:''
      then let p = drop 6 p
           in if unat (bc_num_entries cfg) < MAX_ENTRIES
              then let i = unat (bc_num_entries cfg);
                       name = take (MAX_STR_LEN - 1) (takeWhile name_char p)
                   in (Some i,
                       cfg\<lparr>bc_num_entries := bc_num_entries cfg + 1,
                           bc_entries := (bc_entries cfg)[i := open_entry name]\<rparr>,
                       dropWhile name_char p)
              else (cur, cfg, p)
      else (cur, cfg, p))"

text \<open>\<^verbatim>\<open>while (*p && *p != ']') p++; if (*p == ']') p++;\<close>\<close>

definition close_section :: "string \<Rightarrow> string" where
  "close_section p =
     (let p = dropWhile (\<lambda>c. c \<noteq> NUL \<and> c \<noteq> CHR '']'') p
      in if peek p = CHR '']'' then tl p else p)"

definition parse_section ::
    "nat option \<Rightarrow> BootConfig \<Rightarrow> string \<Rightarrow> nat option \<times> BootConfig \<times> string" where
  "parse_section cur cfg p =
     (let (cur, cfg, p) = open_section cur cfg p in (cur, cfg, close_section p))"

text \<open>One key-value line, applied to the globals or to the current entry.\<close>

definition apply_kv :: "bool \<Rightarrow> nat option \<Rightarrow> BootConfig \<Rightarrow> string \<times> string \<Rightarrow> BootConfig" where
  "apply_kv merge cur cfg kv =
     (case cur of
        None \<Rightarrow> if merge then cfg else apply_global (fst kv) (snd kv) cfg
      | Some i \<Rightarrow> cfg\<lparr>bc_entries :=
          (bc_entries cfg)[i := apply_entry (fst kv) (snd kv) (bc_entries cfg ! i)]\<rparr>)"

text \<open>\<^verbatim>\<open>while (*p && (is_space(*p) || is_newline(*p))) p++;\<close>\<close>

definition skip_blank :: "string \<Rightarrow> string" where
  "skip_blank p = dropWhile (\<lambda>c. c \<noteq> NUL \<and> (is_space c \<or> is_newline c)) p"

text \<open>One comment, section header or line of at most 511 characters.\<close>

definition parse_item ::
    "bool \<Rightarrow> nat option \<Rightarrow> BootConfig \<Rightarrow> string \<Rightarrow> nat option \<times> BootConfig \<times> string" where
  "parse_item merge cur cfg p =
     (if peek p = CHR ''#'' \<or> peek p = CHR '';'' then (cur, cfg, dropWhile line_char p)
      else if peek p = CHR ''['' then parse_section cur cfg (tl p)
      else let line = take (2 * MAX_STR_LEN - 1) (takeWhile line_char p);
               p = drop (length line) p
           in case parse_kv line 64 MAX_STR_LEN of
                None \<Rightarrow> (cur, cfg, p)
              | Some kv \<Rightarrow> (cur, apply_kv merge cur cfg kv, p))"

lemma length_close_section: "length (close_section p) \<le> length p"
  using length_dropWhile_le [of "\<lambda>c. c \<noteq> NUL \<and> c \<noteq> CHR '']''" p]
  by (auto simp: close_section_def Let_def)

lemma open_section_shorter:
  "open_section cur cfg p = (cur', cfg', q) \<Longrightarrow> length q \<le> length p"
  using length_dropWhile_le [of name_char "drop 6 p"]
  by (auto simp: open_section_def Let_def simp del: str_starts.simps split: if_splits)

lemma parse_section_shorter:
  "parse_section cur cfg p = (cur', cfg', q) \<Longrightarrow> length q \<le> length p"
  by (auto simp: parse_section_def split: prod.splits
      intro: le_trans [OF length_close_section] dest!: open_section_shorter)

lemma skip_blank_Cons:
  assumes "skip_blank p = c # s" and "c \<noteq> NUL"
  shows "line_char c"
  using assms hd_dropWhile [of "\<lambda>c. c \<noteq> NUL \<and> (is_space c \<or> is_newline c)" p]
  by (simp add: skip_blank_def line_char_def)

lemma length_skip_blank: "length (skip_blank p) \<le> length p"
  by (simp add: skip_blank_def length_dropWhile_le)

lemma parse_item_shorter:
  assumes "parse_item merge cur cfg (c # s) = (cur', cfg', q)" and "line_char c"
  shows "length q \<le> length s"
  using assms
  by (auto simp: parse_item_def Let_def length_dropWhile_le split: if_splits option.splits
      dest: parse_section_shorter)

lemma parse_item_skip_shorter:
  assumes "parse_item merge cur cfg (skip_blank p) = (cur', cfg', q)" and "nz (skip_blank p)"
  shows "length q < length p"
proof -
  obtain c s where cs: "skip_blank p = c # s" "c \<noteq> NUL"
    using assms(2) by (cases "skip_blank p") auto
  with assms(1) have "length q \<le> length s"
    by (auto intro: parse_item_shorter skip_blank_Cons)
  with cs length_skip_blank [of p] show ?thesis by simp
qed

text \<open>The main loop of \<^verbatim>\<open>do_parse\<close>; every round consumes at least one character.\<close>

function do_parse_loop :: "bool \<Rightarrow> nat option \<Rightarrow> BootConfig \<Rightarrow> string \<Rightarrow> BootConfig" where
  "do_parse_loop merge cur cfg p =
     (let p = skip_blank p
      in if \<not> nz p then cfg
         else let (cur', cfg', q) = parse_item merge cur cfg p
              in do_parse_loop merge cur' cfg' q)"
  by pat_completeness auto
termination
  by (relation "measure (\<lambda>(merge, cur, cfg, p). length p)")
    (auto dest: parse_item_skip_shorter split: prod.splits)

declare do_parse_loop.simps [simp del]

definition reset_config :: "BootConfig \<Rightarrow> BootConfig" where
  "reset_config cfg = cfg\<lparr>bc_timeout := DEFAULT_TIMEOUT, bc_default_entry := 0,
     bc_num_entries := 0, bc_theme_color := 5, bc_accent_color := 14\<rparr>"

definition clamp_default :: "BootConfig \<Rightarrow> BootConfig" where
  "clamp_default cfg =
     (if bc_default_entry cfg \<ge> bc_num_entries cfg \<and> bc_num_entries cfg > 0
      then cfg\<lparr>bc_default_entry := 0\<rparr> else cfg)"

definition do_parse :: "string \<Rightarrow> BootConfig \<Rightarrow> bool \<Rightarrow> int \<times> BootConfig" where
  "do_parse buf cfg merge =
     (let cfg = (if merge then cfg else reset_config cfg);
          cfg = do_parse_loop merge None cfg buf;
          cfg = clamp_default cfg
      in (if bc_num_entries cfg > 0 then 0 else -1, cfg))"

definition config_parse :: "string \<Rightarrow> BootConfig \<Rightarrow> int \<times> BootConfig" where
  "config_parse buf cfg = do_parse buf cfg False"

definition config_parse_merge :: "string \<Rightarrow> BootConfig \<Rightarrow> int \<times> BootConfig" where
  "config_parse_merge buf cfg = do_parse buf cfg True"

section \<open>Well-formed configurations\<close>

definition field_ok :: "string \<Rightarrow> bool" where
  "field_ok s \<longleftrightarrow> length s < MAX_STR_LEN \<and> NUL \<notin> set s"

definition wf_entry :: "BootEntry \<Rightarrow> bool" where
  "wf_entry e \<longleftrightarrow>
     field_ok (be_name e) \<and> field_ok (be_kernel e) \<and> field_ok (be_initrd e) \<and>
     field_ok (be_cmdline e) \<and> field_ok (be_luks_keyfile e) \<and>
     be_encrypted e \<in> {0, 1} \<and> 0 \<le> be_luks_tries e \<and> be_luks_tries e < 2 ^ 31"

definition wf_table :: "BootConfig \<Rightarrow> bool" where
  "wf_table cfg \<longleftrightarrow> length (bc_entries cfg) = MAX_ENTRIES \<and>
     unat (bc_num_entries cfg) \<le> MAX_ENTRIES \<and> list_all wf_entry (live_entries cfg)"

definition wf_config :: "BootConfig \<Rightarrow> bool" where
  "wf_config cfg \<longleftrightarrow> wf_table cfg \<and> bc_theme_color cfg \<le> 7 \<and> bc_accent_color cfg \<le> 15"

lemma field_ok_str_copy [simp]: "field_ok (str_copy s MAX_STR_LEN)"
  by (simp add: field_ok_def length_str_copy)

lemma field_ok_Nil [simp]: "field_ok []"
  by (simp add: field_ok_def)

lemma field_ok_take_name [simp]: "field_ok (take 255 (takeWhile name_char p))"
  by (auto simp: field_ok_def name_char_def dest!: in_set_takeD set_takeWhileD)

lemma wf_zero_entry [simp]: "wf_entry zero_entry"
  by (simp add: wf_entry_def zero_entry_def)

lemma wf_open_entry [simp]: "field_ok name \<Longrightarrow> wf_entry (open_entry name)"
  by (simp add: wf_entry_def open_entry_def zero_entry_def)

lemma c_int_less: "c_int x < 2 ^ 31"
  using sint_lt [of "word_of_int x :: 32 word"] by (simp add: c_int_def)

lemma parse_int_less: "t < 2 ^ 31 \<Longrightarrow> parse_int t s < 2 ^ 31"
  by (induction t s rule: parse_int.induct) (simp_all add: c_int_less [simplified])

lemma wf_apply_entry: "wf_entry e \<Longrightarrow> wf_entry (apply_entry key val e)"
  using parse_int_less [of 0 val]
  by (simp add: wf_entry_def apply_entry_def Let_def)

lemma config_parse_color_range: "- 1 \<le> config_parse_color s \<and> config_parse_color s \<le> 15"
  by (simp add: config_parse_color_def del: str_eq.simps)

subsection \<open>The entry table\<close>

lemma live_entries_append:
  assumes "length (bc_entries cfg) = MAX_ENTRIES" and "unat (bc_num_entries cfg) < MAX_ENTRIES"
  shows "live_entries (cfg\<lparr>bc_num_entries := bc_num_entries cfg + 1,
           bc_entries := (bc_entries cfg)[unat (bc_num_entries cfg) := e]\<rparr>) = live_entries cfg @ [e]"
proof -
  have "unat (bc_num_entries cfg + 1) = Suc (unat (bc_num_entries cfg))"
    using assms(2) by (simp add: unat_word_ariths)
  with assms show ?thesis
    by (simp add: live_entries_def take_Suc_conv_app_nth)
qed

lemma unat_Suc_entries:
  "unat n < MAX_ENTRIES \<Longrightarrow> unat (n + 1 :: u32) = Suc (unat n)"
  by (simp add: unat_word_ariths)

lemma live_entries_update [simp]:
  "live_entries (cfg\<lparr>bc_entries := (bc_entries cfg)[i := e]\<rparr>) = (live_entries cfg)[i := e]"
  by (simp add: live_entries_def take_update_swap)

lemma live_entries_globals [simp]:
  "live_entries (cfg\<lparr>bc_timeout := t\<rparr>) = live_entries cfg"
  "live_entries (cfg\<lparr>bc_default_entry := d\<rparr>) = live_entries cfg"
  "live_entries (cfg\<lparr>bc_theme_color := c\<rparr>) = live_entries cfg"
  "live_entries (cfg\<lparr>bc_accent_color := c\<rparr>) = live_entries cfg"
  by (simp_all add: live_entries_def)

lemma length_live_entries: "wf_table cfg \<Longrightarrow> length (live_entries cfg) = unat (bc_num_entries cfg)"
  by (simp add: live_entries_def wf_table_def)

lemma wf_table_append:
  assumes "wf_table cfg" and "unat (bc_num_entries cfg) < MAX_ENTRIES" and "wf_entry e"
  shows "wf_table (cfg\<lparr>bc_num_entries := bc_num_entries cfg + 1,
           bc_entries := (bc_entries cfg)[unat (bc_num_entries cfg) := e]\<rparr>)"
  using assms by (simp add: wf_table_def live_entries_append unat_Suc_entries)

subsection \<open>Invariants of the parse loop\<close>

definition cur_ok :: "nat option \<Rightarrow> BootConfig \<Rightarrow> bool" where
  "cur_ok cur cfg \<longleftrightarrow> (case cur of None \<Rightarrow> True | Some i \<Rightarrow> i < unat (bc_num_entries cfg))"

lemma do_parse_loop_end: "\<not> nz (skip_blank p) \<Longrightarrow> do_parse_loop merge cur cfg p = cfg"
  by (subst do_parse_loop.simps) simp

lemma do_parse_loop_step:
  assumes "nz (skip_blank p)" and "parse_item merge cur cfg (skip_blank p) = (cur', cfg', q)"
  shows "do_parse_loop merge cur cfg p = do_parse_loop merge cur' cfg' q"
  using assms by (subst do_parse_loop.simps) simp

lemma do_parse_loop_invariant:
  assumes "I cur cfg"
    and step: "\<And>cur cfg p cur' cfg' q. I cur cfg \<Longrightarrow>
      parse_item merge cur cfg p = (cur', cfg', q) \<Longrightarrow> I cur' cfg'"
  shows "\<exists>cur'. I cur' (do_parse_loop merge cur cfg p)"
  using assms(1)
proof (induction p arbitrary: cur cfg rule: length_induct)
  case (1 p)
  show ?case
  proof (cases "nz (skip_blank p)")
    case False
    with "1.prems" show ?thesis
      by (auto simp: do_parse_loop_end)
  next
    case True
    obtain cur' cfg' q where it: "parse_item merge cur cfg (skip_blank p) = (cur', cfg', q)"
      by (metis prod_cases3)
    have "I cur' cfg'" by (rule step [OF "1.prems" it])
    moreover have "length q < length p" by (rule parse_item_skip_shorter [OF it True])
    ultimately show ?thesis
      using "1.IH" by (simp add: do_parse_loop_step [OF True it])
  qed
qed

lemma parse_item_cases:
  assumes "parse_item merge cur cfg p = (cur', cfg', q)"
  obtains (same) "cur' = cur" "cfg' = cfg"
    | (entry) name where "cur' = Some (unat (bc_num_entries cfg))"
        "cfg' = cfg\<lparr>bc_num_entries := bc_num_entries cfg + 1,
           bc_entries := (bc_entries cfg)[unat (bc_num_entries cfg) := open_entry name]\<rparr>"
        "unat (bc_num_entries cfg) < MAX_ENTRIES" "field_ok name"
    | (kv) kv where "cur' = cur" "cfg' = apply_kv merge cur cfg kv"
proof (cases "peek p = CHR ''#'' \<or> peek p = CHR '';''")
  case True
  with assms show ?thesis by (intro same) (auto simp: parse_item_def)
next
  case no_comment: False
  show ?thesis
  proof (cases "peek p = CHR ''[''")
    case True
    then have "parse_section cur cfg (tl p) = (cur', cfg', q)"
      using assms no_comment by (simp add: parse_item_def)
    then obtain r where op: "open_section cur cfg (tl p) = (cur', cfg', r)"
      by (auto simp: parse_section_def split: prod.splits)
    show ?thesis
    proof (cases "str_starts (tl p) ''entry:'' \<and> unat (bc_num_entries cfg) < MAX_ENTRIES")
      case True
      with op show ?thesis
        by (intro entry [of "take 255 (takeWhile name_char (drop 6 (tl p)))"])
          (simp_all add: open_section_def Let_def del: str_starts.simps drop_drop)
    next
      case False
      with op show ?thesis
        by (intro same) (auto simp: open_section_def simp del: str_starts.simps split: if_splits)
    qed
  next
    case False
    show ?thesis
    proof (cases "parse_kv (take (2 * MAX_STR_LEN - 1) (takeWhile line_char p)) 64 MAX_STR_LEN")
      case None
      with assms no_comment False show ?thesis
        by (intro same) (simp_all add: parse_item_def)
    next
      case (Some x)
      with assms no_comment False show ?thesis
        by (intro kv [of x]) (auto simp: parse_item_def)
    qed
  qed
qed

lemma apply_global_entries [simp]:
  "bc_num_entries (apply_global key val cfg) = bc_num_entries cfg"
  "bc_entries (apply_global key val cfg) = bc_entries cfg"
  by (simp_all add: apply_global_def Let_def del: str_eq.simps)

lemma wf_table_cong:
  "bc_num_entries cfg' = bc_num_entries cfg \<Longrightarrow> bc_entries cfg' = bc_entries cfg \<Longrightarrow>
   wf_table cfg' \<longleftrightarrow> wf_table cfg"
  by (simp add: wf_table_def live_entries_def)

lemma wf_config_apply_global:
  assumes "wf_config cfg" shows "wf_config (apply_global key val cfg)"
proof -
  have "word_of_int c \<le> (7 :: u8)" if "0 \<le> c" "c \<le> 7" for c
    using that by (simp add: word_le_def uint_word_of_int)
  moreover have "word_of_int c \<le> (15 :: u8)" if "0 \<le> c" "c \<le> 15" for c
    using that by (simp add: word_le_def uint_word_of_int)
  moreover have "wf_table (apply_global key val cfg)"
    using assms wf_table_cong [of "apply_global key val cfg" cfg]
    by (simp add: wf_config_def)
  ultimately show ?thesis
    using assms config_parse_color_range [of val]
    by (auto simp: wf_config_def apply_global_def Let_def simp del: str_eq.simps)
qed

lemma nth_live_entries:
  "i < unat (bc_num_entries cfg) \<Longrightarrow> live_entries cfg ! i = bc_entries cfg ! i"
  by (simp add: live_entries_def)

lemma wf_table_update:
  assumes "wf_table cfg" and "i < unat (bc_num_entries cfg)" and "wf_entry e"
  shows "wf_table (cfg\<lparr>bc_entries := (bc_entries cfg)[i := e]\<rparr>)"
  using assms by (simp add: wf_table_def list_all_iff set_update_subsetI subset_eq)
    (metis insertE set_update_subset_insert subsetD)

lemma wf_nth_entry:
  assumes "wf_table cfg" and "i < unat (bc_num_entries cfg)"
  shows "wf_entry (bc_entries cfg ! i)"
  using assms length_live_entries [OF assms(1)] nth_live_entries [OF assms(2)]
  by (metis list_all_length wf_table_def)

lemma wf_config_apply_kv:
  assumes "wf_config cfg" and "cur_ok cur cfg"
  shows "wf_config (apply_kv merge cur cfg kv)"
  using assms wf_table_update wf_nth_entry wf_apply_entry
  by (auto simp: apply_kv_def cur_ok_def wf_config_def wf_config_apply_global [unfolded wf_config_def]
      split: option.splits)

lemma num_entries_apply_kv [simp]:
  "bc_num_entries (apply_kv merge cur cfg kv) = bc_num_entries cfg"
  by (simp add: apply_kv_def split: option.splits)

lemma parse_item_wf:
  assumes "wf_config cfg \<and> cur_ok cur cfg" and "parse_item merge cur cfg p = (cur', cfg', q)"
  shows "wf_config cfg' \<and> cur_ok cur' cfg'"
  using assms(2)
proof (cases rule: parse_item_cases)
  case same
  with assms(1) show ?thesis by simp
next
  case (entry name)
  with assms(1) show ?thesis
    by (simp add: wf_config_def wf_table_append cur_ok_def unat_Suc_entries)
next
  case (kv kv)
  with assms(1) show ?thesis
    using wf_config_apply_kv by (simp add: cur_ok_def split: option.splits)
qed

lemma wf_do_parse_loop:
  "wf_config cfg \<Longrightarrow> wf_config (do_parse_loop merge None cfg p)"
  using do_parse_loop_invariant [where I = "\<lambda>cur cfg. wf_config cfg \<and> cur_ok cur cfg",
      OF _ parse_item_wf, where cur = None and cfg = cfg and merge = merge and p = p]
  by (simp add: cur_ok_def)

lemma wf_clamp_default [simp]: "wf_config (clamp_default cfg) = wf_config cfg"
  by (simp add: clamp_default_def wf_config_def wf_table_def)

lemma wf_reset_config: "length (bc_entries cfg) = MAX_ENTRIES \<Longrightarrow> wf_config (reset_config cfg)"
  by (simp add: reset_config_def wf_config_def wf_table_def live_entries_def)

lemma config_parse_result:
  assumes "length (bc_entries cfg) = MAX_ENTRIES"
    and "config_parse buf cfg = (rc, cfg')"
  shows "wf_config cfg' \<and>
    (bc_num_entries cfg' = 0 \<or> bc_default_entry cfg' < bc_num_entries cfg') \<and>
    rc = (if live_entries cfg' = [] then -1 else 0)"
proof -
  let ?c = "do_parse_loop False None (reset_config cfg) buf"
  have cfg': "cfg' = clamp_default ?c" and rc: "rc = (if bc_num_entries cfg' > 0 then 0 else -1)"
    using assms(2) by (auto simp: config_parse_def do_parse_def Let_def)
  have wf: "wf_config cfg'"
    by (simp add: cfg' wf_do_parse_loop wf_reset_config assms(1))
  then have "length (live_entries cfg') = unat (bc_num_entries cfg')"
    by (simp add: wf_config_def length_live_entries)
  then have "live_entries cfg' = [] \<longleftrightarrow> bc_num_entries cfg' = 0"
    by (simp add: unat_zero_iff flip: length_0_conv)
  moreover have "bc_num_entries cfg' = 0 \<or> bc_default_entry cfg' < bc_num_entries cfg'"
    by (auto simp: cfg' clamp_default_def word_gt_0 not_le)
  ultimately show ?thesis
    using wf by (simp add: rc word_gt_0)
qed

text \<open>
  C3. Parsing any buffer at all leaves a well-formed configuration, whatever the
  configuration record held before: at most sixteen entries, every string field
  shorter than its 256-byte array and free of NUL, \<^verbatim>\<open>theme_color\<close> in 0..7 and
  \<^verbatim>\<open>accent_color\<close> in 0..15, and a default index inside the table unless the table
  is empty; the return value is 0 exactly when at least one entry was found.
\<close>

theorem config_parse_wf:
  assumes "length (bc_entries cfg) = MAX_ENTRIES"
    and "config_parse buf cfg = (rc, cfg')"
  shows "wf_config cfg' \<and>
    (bc_num_entries cfg' = 0 \<or> bc_default_entry cfg' < bc_num_entries cfg') \<and>
    rc = (if live_entries cfg' = [] then -1 else 0)"
  using assms by (rule config_parse_result)

text \<open>A sample configuration file, used by the witnesses.\<close>

definition sample_cfg :: string where
  "sample_cfg = ''timeout = 7'' @ [LF] @ ''default = 9'' @ [LF] @ ''# comment'' @ [LF] @
     ''theme = blue'' @ [LF] @ ''[entry:ViOS]'' @ [LF] @ ''type = elf64'' @ [LF] @
     ''kernel = /k.elf'' @ [LF]"

definition empty_config :: BootConfig where
  "empty_config = \<lparr>bc_timeout = 0, bc_default_entry = 0, bc_num_entries = 0, bc_theme_color = 0,
     bc_accent_color = 0, bc_entries = replicate MAX_ENTRIES zero_entry\<rparr>"

lemma length_empty_config [simp]: "length (bc_entries empty_config) = MAX_ENTRIES"
  by (simp add: empty_config_def)

lemma wf_sample_cfg: "wf_config (snd (config_parse sample_cfg empty_config))"
  using config_parse_result [OF length_empty_config prod.collapse [symmetric]] by blast

theorem config_parse_wf_witness:
  "wf_config (snd (config_parse sample_cfg empty_config)) \<and>
   fst (config_parse sample_cfg empty_config) = 0 \<and>
   map be_kernel (live_entries (snd (config_parse sample_cfg empty_config))) = [''/k.elf'']"
proof -
  have e: "map be_kernel (live_entries (snd (config_parse sample_cfg empty_config))) = [''/k.elf'']"
    by code_simp
  then have "live_entries (snd (config_parse sample_cfg empty_config)) \<noteq> []" by auto
  with e config_parse_wf [OF length_empty_config prod.collapse [symmetric], of sample_cfg]
  show ?thesis by simp
qed

section \<open>Extending a configuration\<close>

text \<open>
  What the volume scanners rely on: an operation that adds entries keeps the table
  well formed, keeps every entry already there in place, and leaves the global
  settings of the primary configuration alone.
\<close>

definition default_ok :: "BootConfig \<Rightarrow> bool" where
  "default_ok cfg \<longleftrightarrow> bc_default_entry cfg = 0 \<or> bc_default_entry cfg < bc_num_entries cfg"

definition same_globals :: "BootConfig \<Rightarrow> BootConfig \<Rightarrow> bool" where
  "same_globals a b \<longleftrightarrow> bc_timeout b = bc_timeout a \<and> bc_default_entry b = bc_default_entry a \<and>
     bc_theme_color b = bc_theme_color a \<and> bc_accent_color b = bc_accent_color a"

definition cfg_extends :: "BootConfig \<Rightarrow> BootConfig \<Rightarrow> bool" where
  "cfg_extends a b \<longleftrightarrow> same_globals a b \<and> (\<exists>es. live_entries b = live_entries a @ es)"

lemma cfg_extends_refl [simp]: "cfg_extends a a"
  by (simp add: cfg_extends_def same_globals_def)

lemma cfg_extends_trans: "cfg_extends a b \<Longrightarrow> cfg_extends b c \<Longrightarrow> cfg_extends a c"
  by (auto simp: cfg_extends_def same_globals_def)

locale config_extender =
  fixes ext :: "'op \<Rightarrow> BootConfig \<Rightarrow> BootConfig"
  assumes ext_wf: "wf_config cfg \<Longrightarrow> default_ok cfg \<Longrightarrow> wf_config (ext x cfg)"
    and ext_extends: "wf_config cfg \<Longrightarrow> default_ok cfg \<Longrightarrow> cfg_extends cfg (ext x cfg)"
begin

lemma ext_default_ok:
  assumes "wf_config cfg" and "default_ok cfg" shows "default_ok (ext x cfg)"
proof -
  obtain es where "live_entries (ext x cfg) = live_entries cfg @ es"
    and d: "bc_default_entry (ext x cfg) = bc_default_entry cfg"
    using ext_extends [OF assms] by (auto simp: cfg_extends_def same_globals_def)
  then have "unat (bc_num_entries cfg) \<le> unat (bc_num_entries (ext x cfg))"
    using length_live_entries ext_wf [OF assms] assms(1)
    by (metis le_add1 length_append wf_config_def)
  with d assms(2) show ?thesis
    by (auto simp: default_ok_def word_less_nat_alt)
qed

lemma ext_all:
  assumes "wf_config cfg" and "default_ok cfg"
  shows "wf_config (fold ext xs cfg) \<and> default_ok (fold ext xs cfg) \<and> cfg_extends cfg (fold ext xs cfg)"
  using assms
proof (induction xs arbitrary: cfg)
  case Nil
  then show ?case by simp
next
  case (Cons x xs)
  have "wf_config (fold ext xs (ext x cfg)) \<and> default_ok (fold ext xs (ext x cfg)) \<and>
      cfg_extends (ext x cfg) (fold ext xs (ext x cfg))"
    by (rule Cons.IH) (use Cons.prems ext_wf ext_default_ok in auto)
  with ext_extends [OF Cons.prems, of x] show ?case
    by (auto intro: cfg_extends_trans)
qed

end

subsection \<open>Adding a kernel\<close>

lemma config_add_kernel_cases:
  obtains (dup) e where "config_add_kernel cfg name type kp ip = (0, cfg)"
      "e \<in> set (live_entries cfg)" "str_eq (be_kernel e) kp"
  | (full) "config_add_kernel cfg name type kp ip = (-1, cfg)"
      "unat (bc_num_entries cfg) \<ge> MAX_ENTRIES"
  | (new) e where "config_add_kernel cfg name type kp ip =
        (0, cfg\<lparr>bc_num_entries := bc_num_entries cfg + 1,
               bc_entries := (bc_entries cfg)[unat (bc_num_entries cfg) := e]\<rparr>)"
      "unat (bc_num_entries cfg) < MAX_ENTRIES" "wf_entry e"
      "be_kernel e = str_copy kp MAX_STR_LEN" "be_name e = str_copy name MAX_STR_LEN"
      "be_type e = type" "\<forall>e \<in> set (live_entries cfg). \<not> str_eq (be_kernel e) kp" "be_encrypted e = 0"
proof (cases "list_ex (\<lambda>e. str_eq (be_kernel e) kp) (live_entries cfg)")
  case True
  then obtain e where "e \<in> set (live_entries cfg)" "str_eq (be_kernel e) kp"
    by (auto simp: list_ex_iff)
  with True show ?thesis
    by (intro dup [of e]) (simp_all add: config_add_kernel_def)
next
  case no_dup: False
  show ?thesis
  proof (cases "unat (bc_num_entries cfg) \<ge> MAX_ENTRIES")
    case True
    with no_dup show ?thesis
      by (intro full) (simp_all add: config_add_kernel_def)
  next
    case False
    define e0 where "e0 = zero_entry\<lparr>be_type := type, be_name := str_copy name MAX_STR_LEN,
        be_kernel := str_copy kp MAX_STR_LEN\<rparr>"
    define e where "e = (case ip of None \<Rightarrow> e0
        | Some p \<Rightarrow> if nz p then e0\<lparr>be_initrd := str_copy p MAX_STR_LEN\<rparr> else e0)"
    have "wf_entry e" "be_kernel e = str_copy kp MAX_STR_LEN"
        "be_name e = str_copy name MAX_STR_LEN" "be_type e = type" "be_encrypted e = 0"
      by (auto simp: e_def e0_def wf_entry_def zero_entry_def split: option.splits)
    moreover have "config_add_kernel cfg name type kp ip =
        (0, cfg\<lparr>bc_num_entries := bc_num_entries cfg + 1,
               bc_entries := (bc_entries cfg)[unat (bc_num_entries cfg) := e]\<rparr>)"
      using no_dup False by (cases ip) (simp_all add: config_add_kernel_def e_def e0_def Let_def)
    ultimately show ?thesis
      using False no_dup by (intro new [of e]) (auto simp: list_ex_iff)
  qed
qed

lemma add_kernel_wf_extends:
  assumes "wf_config cfg"
  shows "wf_config (snd (config_add_kernel cfg name type kp ip)) \<and>
    cfg_extends cfg (snd (config_add_kernel cfg name type kp ip))"
proof (cases rule: config_add_kernel_cases [of cfg name type kp ip])
  case (new e)
  then show ?thesis
    using assms live_entries_append [of cfg e]
    by (simp add: wf_config_def wf_table_append cfg_extends_def same_globals_def)
      (simp add: wf_table_def)
qed (use assms in simp_all)

subsection \<open>Merging a second configuration file\<close>

definition merge_inv :: "BootConfig \<Rightarrow> nat option \<Rightarrow> BootConfig \<Rightarrow> bool" where
  "merge_inv cfg0 cur cfg \<longleftrightarrow> wf_config cfg \<and> cur_ok cur cfg \<and> cfg_extends cfg0 cfg \<and>
     (case cur of None \<Rightarrow> True | Some i \<Rightarrow> length (live_entries cfg0) \<le> i)"

lemma merge_inv_step:
  assumes "merge_inv cfg0 cur cfg" and "parse_item True cur cfg p = (cur', cfg', q)"
  shows "merge_inv cfg0 cur' cfg'"
proof -
  have wf: "wf_config cfg' \<and> cur_ok cur' cfg'"
    by (rule parse_item_wf [OF _ assms(2)]) (use assms(1) in \<open>simp add: merge_inv_def\<close>)
  obtain es where es: "live_entries cfg = live_entries cfg0 @ es" and sg: "same_globals cfg0 cfg"
    using assms(1) by (auto simp: merge_inv_def cfg_extends_def)
  have wt: "wf_table cfg" using assms(1) by (simp add: merge_inv_def wf_config_def)
  from assms(2) show ?thesis
  proof (cases rule: parse_item_cases)
    case same
    with assms(1) show ?thesis by simp
  next
    case (entry name)
    then have "live_entries cfg' = live_entries cfg0 @ es @ [open_entry name]"
      using live_entries_append [of cfg "open_entry name"] wt es by (simp add: wf_table_def)
    with entry wf sg es length_live_entries [OF wt] show ?thesis
      by (simp add: merge_inv_def cfg_extends_def same_globals_def)
  next
    case (kv kv)
    show ?thesis
    proof (cases cur)
      case None
      with kv assms(1) show ?thesis by (simp add: apply_kv_def)
    next
      case (Some i)
      with assms(1) have "length (live_entries cfg0) \<le> i" by (simp add: merge_inv_def)
      with Some kv es have "\<exists>es'. live_entries cfg' = live_entries cfg0 @ es'"
        by (simp add: apply_kv_def list_update_append)
      with Some kv assms(1) wf sg show ?thesis
        by (simp add: merge_inv_def cfg_extends_def same_globals_def apply_kv_def)
    qed
  qed
qed

lemma merge_wf_extends:
  assumes "wf_config cfg" and "default_ok cfg"
  shows "wf_config (snd (config_parse_merge buf cfg)) \<and>
    cfg_extends cfg (snd (config_parse_merge buf cfg))"
proof -
  let ?c = "do_parse_loop True None cfg buf"
  have "merge_inv cfg None cfg"
    using assms(1) by (simp add: merge_inv_def cur_ok_def)
  then have "\<exists>cur. merge_inv cfg cur ?c"
    by (rule do_parse_loop_invariant) (rule merge_inv_step)
  then have inv: "wf_config ?c" "cfg_extends cfg ?c"
    by (auto simp: merge_inv_def)
  then have "length (live_entries cfg) \<le> length (live_entries ?c)"
    and d: "bc_default_entry ?c = bc_default_entry cfg"
    by (auto simp: cfg_extends_def same_globals_def)
  then have "default_ok ?c"
    using assms inv(1) length_live_entries [of cfg] length_live_entries [of ?c]
    by (auto simp: default_ok_def word_less_nat_alt wf_config_def)
  then have "clamp_default ?c = ?c"
    by (auto simp: clamp_default_def default_ok_def not_le [symmetric])
  with inv show ?thesis
    by (simp add: config_parse_merge_def do_parse_def Let_def)
qed

subsection \<open>Sequences of scans\<close>

text \<open>The two ways entries are added after the primary parse, as operations on the table.\<close>

datatype scan_op =
    AddKernel string OSType string "string option"
  | MergeFile string

fun run_scan :: "scan_op \<Rightarrow> BootConfig \<Rightarrow> BootConfig" where
  "run_scan (AddKernel name type kp ip) cfg = snd (config_add_kernel cfg name type kp ip)"
| "run_scan (MergeFile buf) cfg = snd (config_parse_merge buf cfg)"

interpretation scan: config_extender run_scan
proof
  fix cfg x assume "wf_config cfg" "default_ok cfg"
  then show "wf_config (run_scan x cfg)" "cfg_extends cfg (run_scan x cfg)"
    by (cases x; simp add: add_kernel_wf_extends merge_wf_extends)+
qed

text \<open>
  Discovery never disturbs the primary configuration: after the first file has been
  parsed with at least one entry, any sequence of further files and discovered
  kernels, in any order, keeps the table well formed, keeps every earlier entry at its
  index, and preserves timeout, default entry, theme and accent.
\<close>

theorem discovery_extends_primary:
  assumes "length (bc_entries cfg0) = MAX_ENTRIES"
    and "config_parse buf cfg0 = (0, cfg)"
  shows "wf_config (fold run_scan ops cfg) \<and> cfg_extends cfg (fold run_scan ops cfg) \<and>
    bc_default_entry (fold run_scan ops cfg) < bc_num_entries (fold run_scan ops cfg)"
proof -
  have wf: "wf_config cfg" and d: "bc_num_entries cfg = 0 \<or> bc_default_entry cfg < bc_num_entries cfg"
    and ne: "live_entries cfg \<noteq> []"
    using config_parse_result [OF assms] by (auto split: if_splits)
  have n: "0 < length (live_entries cfg)" using ne by simp
  then have "bc_num_entries cfg \<noteq> 0"
    using length_live_entries [of cfg] wf by (auto simp: wf_config_def)
  with d have "default_ok cfg" by (simp add: default_ok_def)
  from scan.ext_all [OF wf this, of ops]
  have *: "wf_config (fold run_scan ops cfg)" "default_ok (fold run_scan ops cfg)"
      "cfg_extends cfg (fold run_scan ops cfg)" by simp_all
  then have "0 < length (live_entries (fold run_scan ops cfg))"
    using n by (auto simp: cfg_extends_def)
  then have "bc_num_entries (fold run_scan ops cfg) \<noteq> 0"
    using length_live_entries [of "fold run_scan ops cfg"] *(1) by (auto simp: wf_config_def)
  with * show ?thesis
    by (auto simp: default_ok_def word_gt_0)
qed

theorem discovery_extends_primary_witness:
  "fst (config_parse sample_cfg empty_config) = 0 \<and>
   cfg_extends (snd (config_parse sample_cfg empty_config))
     (fold run_scan [AddKernel ''Linux'' OS_TYPE_LINUX ''/boot/vmlinuz'' None, MergeFile sample_cfg]
        (snd (config_parse sample_cfg empty_config)))"
proof -
  have rc: "fst (config_parse sample_cfg empty_config) = 0" by code_simp
  then have "config_parse sample_cfg empty_config =
      (0, snd (config_parse sample_cfg empty_config))"
    by (metis prod.collapse)
  from discovery_extends_primary [OF length_empty_config this] rc show ?thesis
    by blast
qed

text \<open>
  \<^verbatim>\<open>config_add_kernel\<close> never lists a kernel twice: if the paths of the listed kernels are
  distinct they stay distinct, for every path that fits its field.
\<close>

theorem config_add_kernel_distinct:
  assumes "wf_config cfg" and "distinct (map be_kernel (live_entries cfg))"
    and "length (cstr kp) < MAX_STR_LEN"
  shows "distinct (map be_kernel (live_entries (snd (config_add_kernel cfg name type kp ip))))"
proof (cases rule: config_add_kernel_cases [of cfg name type kp ip])
  case (new e)
  have "be_kernel x \<noteq> cstr kp" if "x \<in> set (live_entries cfg)" for x
    using new(7) that assms(1)
    by (auto simp: str_eq_cstr wf_config_def wf_table_def list_all_iff)
  moreover have "be_kernel e = cstr kp"
    using new(4) assms(3) by (simp add: str_copy_take)
  ultimately have "be_kernel e \<notin> be_kernel ` set (live_entries cfg)"
    by (metis image_iff)
  then show ?thesis
    using new(1,2) assms(1,2) live_entries_append [of cfg e]
    by (simp add: wf_config_def wf_table_def)
qed (use assms in simp_all)

theorem config_add_kernel_distinct_witness:
  "map be_kernel (live_entries (snd (config_add_kernel
     (snd (config_add_kernel empty_config ''A'' OS_TYPE_ELF64 ''/a.elf'' None))
     ''B'' OS_TYPE_ELF64 ''/a.elf'' None))) = [''/a.elf''] \<and>
   distinct (map be_kernel (live_entries (snd (config_add_kernel
     (snd (config_parse sample_cfg empty_config)) ''B'' OS_TYPE_ELF64 ''/k.elf'' None))))"
proof
  note wf_sample_cfg
  moreover have "distinct (map be_kernel (live_entries (snd (config_parse sample_cfg empty_config))))"
    by code_simp
  ultimately show "distinct (map be_kernel (live_entries (snd (config_add_kernel
      (snd (config_parse sample_cfg empty_config)) ''B'' OS_TYPE_ELF64 ''/k.elf'' None))))"
    by (rule config_add_kernel_distinct) simp
qed code_simp

section \<open>Behaviour that departs from the documentation\<close>

text \<open>
  A file that sets \<^verbatim>\<open>default\<close> but lists no entries leaves the index unclamped, so that
  after auto-discovery the default entry lies outside the table: the clamp in
  \<^verbatim>\<open>do_parse\<close> only runs when the table is not empty.
\<close>

theorem default_unclamped_after_discovery:
  "\<exists>buf cfg. length (bc_entries cfg) = MAX_ENTRIES \<and>
     (let cfg1 = snd (config_parse buf cfg);
          cfg2 = run_scan (AddKernel ''Linux'' OS_TYPE_LINUX ''/boot/vmlinuz'' None) cfg1
      in bc_num_entries cfg2 = 1 \<and> bc_default_entry cfg2 = 5)"
  by (rule exI [of _ "''default = 5'' @ [LF]"], rule exI [of _ empty_config]) code_simp

definition seventeen_cfg :: string where
  "seventeen_cfg = concat (replicate 16 (''[entry:a]'' @ [LF] @ ''kernel = /ok'' @ [LF])) @
     ''[entry:b]'' @ [LF] @ ''kernel = /bad'' @ [LF]"

text \<open>
  A seventeenth section does not open an entry and does not close the sixteenth one:
  its settings overwrite those of the last entry that fitted.
\<close>

theorem full_table_overwrites_last:
  "map be_kernel (live_entries (snd (config_parse seventeen_cfg empty_config)))
     = replicate 15 ''/ok'' @ [''/bad'']"
  by code_simp

text \<open>
  The display name of an ELF kernel is cut at its first dot whenever the file name ends
  in \<^verbatim>\<open>.elf\<close>, not at the extension: every suffix of such a name that starts with a dot ends
  in \<^verbatim>\<open>.elf\<close> as well.
\<close>

theorem make_name_cuts_at_first_dot:
  "config_make_name ''/boot'' ''my.os.elf'' OS_TYPE_ELF64 256 = ''my''"
  by code_simp

end
