(* ===== verification/Config_Print.thy ===== *)
theory Config_Print
  imports Config
begin

text \<open>
  A printer for \<^verbatim>\<open>sakuru.cfg\<close> in the format that the header comment of
  \<^verbatim>\<open>src/common/config.c\<close> gives, and the round trip through the parser: every
  configuration that the format can express is read back exactly.
\<close>

section \<open>Printing\<close>

fun decimal :: "nat \<Rightarrow> string" where
  "decimal n = (if n < 10 then [char_of (48 + n)] else decimal (n div 10) @ [char_of (48 + n mod 10)])"

declare decimal.simps [simp del]

definition print_kv :: "string \<Rightarrow> string \<Rightarrow> string" where
  "print_kv key val = key @ '' = '' @ val @ [LF]"

fun print_type :: "OSType \<Rightarrow> string" where
  "print_type OS_TYPE_ELF64 = ''elf64''"
| "print_type OS_TYPE_LINUX = ''linux''"
| "print_type OS_TYPE_MULTIBOOT2 = ''multiboot2''"
| "print_type OS_TYPE_WINDOWS = ''windows''"
| "print_type _ = ''unknown''"

definition color_names :: "string list" where
  "color_names = [''black'', ''blue'', ''green'', ''cyan'', ''red'', ''magenta'', ''brown'',
     ''lightgray'', ''darkgray'', ''lightblue'', ''lightgreen'', ''lightcyan'', ''lightred'',
     ''lightmagenta'', ''yellow'', ''white'']"

definition print_entry :: "BootEntry \<Rightarrow> string" where
  "print_entry e = ''[entry:'' @ be_name e @ '']'' @
     LF # print_kv ''type'' (print_type (be_type e)) @
     print_kv ''kernel'' (be_kernel e) @
     print_kv ''initrd'' (be_initrd e) @
     print_kv ''cmdline'' (be_cmdline e) @
     print_kv ''encrypted'' (if be_encrypted e = 1 then ''yes'' else ''no'') @
     print_kv ''luks_keyfile'' (be_luks_keyfile e) @
     print_kv ''luks_tries'' (decimal (nat (be_luks_tries e)))"

definition print_config :: "BootConfig \<Rightarrow> string" where
  "print_config cfg =
     print_kv ''timeout'' (decimal (unat (bc_timeout cfg))) @
     print_kv ''default'' (decimal (unat (bc_default_entry cfg))) @
     print_kv ''theme'' (color_names ! unat (bc_theme_color cfg)) @
     print_kv ''accent'' (color_names ! unat (bc_accent_color cfg)) @
     concat (map print_entry (live_entries cfg))"

text \<open>What the format can express: no line breaks in values, no blanks at their ends.\<close>

definition printable :: "string \<Rightarrow> bool" where
  "printable v \<longleftrightarrow> length v < MAX_STR_LEN \<and> list_all line_char v \<and>
     (v \<noteq> [] \<longrightarrow> \<not> is_space (hd v) \<and> \<not> is_space (last v))"

definition printable_entry :: "BootEntry \<Rightarrow> bool" where
  "printable_entry e \<longleftrightarrow> list_all name_char (be_name e) \<and> length (be_name e) < MAX_STR_LEN \<and>
     printable (be_kernel e) \<and> printable (be_initrd e) \<and> printable (be_cmdline e) \<and>
     printable (be_luks_keyfile e) \<and> be_type e \<noteq> OS_TYPE_UEFI_SHELL \<and>
     be_encrypted e \<in> {0, 1} \<and> 0 < be_luks_tries e \<and> be_luks_tries e < 2 ^ 31"

section \<open>Numbers\<close>

lemma ord_char_digit: "k < (10 :: nat) \<Longrightarrow> ord (char_of (48 + k)) = 48 + k"
  by simp

lemma is_digit_char [simp]: "k < (10 :: nat) \<Longrightarrow> is_digit (char_of (48 + k))"
  by (simp add: is_digit_def)

lemma decimal_digits: "list_all is_digit (decimal n)"
  by (induction n rule: decimal.induct) (subst decimal.simps, simp add: list_all_append)

lemma parse_u32_append:
  "list_all is_digit s \<Longrightarrow> parse_u32 t (s @ r) = parse_u32 (parse_u32 t s) r"
  by (induction t s rule: parse_u32.induct) simp_all

lemma parse_int_append:
  "list_all is_digit s \<Longrightarrow> parse_int t (s @ r) = parse_int (parse_int t s) r"
  by (induction t s rule: parse_int.induct) simp_all

lemma parse_u32_decimal: "parse_u32 0 (decimal n) = of_nat n"
proof (induction n rule: decimal.induct)
  case (1 n)
  show ?case
  proof (cases "n < 10")
    case True
    then show ?thesis by (subst decimal.simps) simp
  next
    case False
    have n: "n = n div 10 * 10 + n mod 10" by simp
    have "parse_u32 0 (decimal n) = of_nat (n div 10) * 10 + of_nat (n mod 10)"
      using False "1.IH" decimal_digits
      by (subst decimal.simps) (simp add: parse_u32_append)
    also have "\<dots> = of_nat (n div 10 * 10 + n mod 10)"
      by (simp only: of_nat_add of_nat_mult of_nat_numeral)
    finally show ?thesis using n by simp
  qed
qed

lemma parse_int_decimal: "n < 2 ^ 31 \<Longrightarrow> parse_int 0 (decimal n) = int n"
proof (induction n rule: decimal.induct)
  case (1 n)
  show ?case
  proof (cases "n < 10")
    case True
    then show ?thesis by (subst decimal.simps) (simp add: c_int_id)
  next
    case False
    have "int n = int (n div 10 * 10 + n mod 10)" by (simp only: div_mult_mod_eq)
    then have n: "int (n div 10) * 10 + int (n mod 10) = int n"
      by (simp only: of_nat_add of_nat_mult of_nat_numeral)
    have IH: "parse_int 0 (decimal (n div 10)) = int (n div 10)"
      using "1.IH" False "1.prems" by simp
    have "parse_int 0 (decimal n) = c_int (int (n div 10) * 10 + int (n mod 10))"
      using False decimal_digits
      by (subst decimal.simps) (simp add: parse_int_append IH)
    then show ?thesis
      using "1.prems" by (simp only: n) (simp add: c_int_id)
  qed
qed

section \<open>Reading a printed line back\<close>

lemma printable_decimal: "length (decimal n) < MAX_STR_LEN \<Longrightarrow> printable (decimal n)"
proof -
  assume len: "length (decimal n) < MAX_STR_LEN"
  have dig: "line_char c \<and> \<not> is_space c" if "is_digit c" for c
    using that by (auto simp: is_digit_def line_char_def is_newline_def is_space_def)
  have ne: "decimal n \<noteq> []" by (subst decimal.simps) simp
  have "list_all (\<lambda>c. line_char c \<and> \<not> is_space c) (decimal n)"
    using decimal_digits [of n] dig by (auto simp: list_all_iff)
  with ne len show ?thesis
    by (auto simp: printable_def list_all_iff)
qed

lemma takeWhile_append_stop: "list_all P xs \<Longrightarrow> \<not> P y \<Longrightarrow> takeWhile P (xs @ y # ys) = xs"
  by (induction xs) simp_all

lemma dropWhile_append_stop: "list_all P xs \<Longrightarrow> \<not> P y \<Longrightarrow> dropWhile P (xs @ y # ys) = y # ys"
  by (induction xs) simp_all

lemma takeWhile_all: "list_all P xs \<Longrightarrow> takeWhile P xs = xs"
  by (induction xs) simp_all

lemma skip_spaces_stop: "\<not> is_space c \<Longrightarrow> skip_spaces (c # s) = c # s"
  by (simp add: skip_spaces_def)

lemma trim_right_id: "v = [] \<or> \<not> is_space (last v) \<Longrightarrow> trim_right v = v"
  by (cases v rule: rev_cases) (auto simp: trim_right_def)

lemma skip_spaces_printable: "printable v \<Longrightarrow> skip_spaces v = v"
  by (cases v) (auto simp: printable_def skip_spaces_def)

definition good_key :: "string \<Rightarrow> bool" where
  "good_key k \<longleftrightarrow> k \<noteq> [] \<and> length k < 64 \<and> list_all key_char k \<and>
     hd k \<notin> {CHR ''#'', CHR '';'', CHR ''[''}"

lemma parse_kv_printed:
  assumes "good_key k" and "printable v"
  shows "parse_kv (k @ '' = '' @ v) 64 MAX_STR_LEN = Some (k, v)"
proof -
  obtain c s where k: "k = c # s" using assms(1) by (cases k) (auto simp: good_key_def)
  then have "\<not> is_space c" using assms(1) by (simp add: good_key_def key_char_def)
  then have "skip_spaces (k @ '' = '' @ v) = k @ '' = '' @ v"
    by (simp add: k skip_spaces_stop)
  moreover have "\<not> key_char CHR '' ''" by (simp add: key_char_def is_space_def)
  then have "takeWhile key_char (k @ '' = '' @ v) = k"
      "dropWhile key_char (k @ '' = '' @ v) = '' = '' @ v"
    using assms(1) by (simp_all add: good_key_def takeWhile_append_stop dropWhile_append_stop)
  moreover have "skip_spaces ('' = '' @ v) = ''= '' @ v"
    by (simp add: skip_spaces_def is_space_def)
  moreover have "skip_spaces ('' '' @ v) = v"
    using skip_spaces_printable [OF assms(2)] by (simp add: skip_spaces_def is_space_def)
  moreover have "trim_right (take 255 (takeWhile line_char v)) = v"
    using assms(2) trim_right_id [of v]
    by (auto simp: printable_def takeWhile_all simp del: takeWhile_eq_all_conv)
  ultimately show ?thesis
    using assms(1) by (simp add: parse_kv_def good_key_def Let_def)
qed

lemma do_parse_loop_LF [simp]: "do_parse_loop m cur cfg (LF # p) = do_parse_loop m cur cfg p"
proof -
  have "skip_blank (LF # p) = skip_blank p"
    by (simp add: skip_blank_def is_newline_def)
  then show ?thesis
    by (subst (1 2) do_parse_loop.simps) simp
qed

lemma do_parse_loop_kv:
  assumes "good_key k" and "printable v"
  shows "do_parse_loop m cur cfg (print_kv k v @ rest) =
    do_parse_loop m cur (apply_kv m cur cfg (k, v)) rest"
proof -
  obtain c s where k: "k = c # s" using assms(1) by (cases k) (auto simp: good_key_def)
  have c: "key_char c" "c \<notin> {CHR ''#'', CHR '';'', CHR ''[''}"
    using assms(1) k by (simp_all add: good_key_def)
  define l where "l = k @ '' = '' @ v"
  have pl: "peek (l @ LF # rest) = c" by (simp add: l_def k)
  have sb: "skip_blank (print_kv k v @ rest) = l @ LF # rest"
    using c(1) by (auto simp: k l_def skip_blank_def print_kv_def key_char_def)
  have "list_all line_char l"
    using assms by (auto simp: l_def good_key_def printable_def list_all_iff key_char_def
        line_char_def is_newline_def)
  moreover have "\<not> line_char LF" by (simp add: line_char_def is_newline_def)
  ultimately have "takeWhile line_char (l @ LF # rest) = l"
    by (rule takeWhile_append_stop)
  moreover have "length l \<le> 511"
    using assms by (simp add: l_def good_key_def printable_def)
  moreover have "parse_kv l 64 MAX_STR_LEN = Some (k, v)"
    using parse_kv_printed [OF assms] by (simp add: l_def)
  ultimately have it: "parse_item m cur cfg (l @ LF # rest) =
      (cur, apply_kv m cur cfg (k, v), LF # rest)"
    using pl c(2) by (simp add: parse_item_def)
  have "nz (l @ LF # rest)"
    using c(1) pl by (simp add: nz_def key_char_def)
  then show ?thesis
    using do_parse_loop_step [of "print_kv k v @ rest"] sb it by simp
qed

lemma do_parse_loop_section:
  assumes "list_all name_char name" and "length name < MAX_STR_LEN"
    and "unat (bc_num_entries cfg) < MAX_ENTRIES"
  shows "do_parse_loop m cur cfg (''[entry:'' @ name @ '']'' @ rest) =
    do_parse_loop m (Some (unat (bc_num_entries cfg)))
      (cfg\<lparr>bc_num_entries := bc_num_entries cfg + 1,
           bc_entries := (bc_entries cfg)[unat (bc_num_entries cfg) := open_entry name]\<rparr>) rest"
proof -
  let ?p = "''[entry:'' @ name @ '']'' @ rest"
  have sb: "skip_blank ?p = ?p"
    by (simp add: skip_blank_def is_space_def is_newline_def)
  have "\<not> name_char CHR '']''" by (simp add: name_char_def)
  then have "takeWhile name_char (name @ '']'' @ rest) = name"
      "dropWhile name_char (name @ '']'' @ rest) = '']'' @ rest"
    using assms(1) by (simp_all add: takeWhile_append_stop dropWhile_append_stop)
  then have "open_section cur cfg (''entry:'' @ name @ '']'' @ rest) =
     (Some (unat (bc_num_entries cfg)),
      cfg\<lparr>bc_num_entries := bc_num_entries cfg + 1,
          bc_entries := (bc_entries cfg)[unat (bc_num_entries cfg) := open_entry name]\<rparr>,
      '']'' @ rest)"
    using assms(2,3) by (simp add: open_section_def Let_def)
  then have "parse_item m cur cfg ?p =
     (Some (unat (bc_num_entries cfg)),
      cfg\<lparr>bc_num_entries := bc_num_entries cfg + 1,
          bc_entries := (bc_entries cfg)[unat (bc_num_entries cfg) := open_entry name]\<rparr>,
      rest)"
    by (simp add: parse_item_def parse_section_def close_section_def)
  then show ?thesis
    using do_parse_loop_step [of ?p] sb by simp
qed

section \<open>The round trip\<close>

lemma good_keys [simp]:
  "good_key ''timeout''" "good_key ''default''" "good_key ''theme''" "good_key ''accent''"
  "good_key ''type''" "good_key ''kernel''" "good_key ''initrd''" "good_key ''cmdline''"
  "good_key ''encrypted''" "good_key ''luks_keyfile''" "good_key ''luks_tries''"
  by code_simp+

lemma length_decimal_pow: "n < 10 ^ d \<Longrightarrow> 0 < d \<Longrightarrow> length (decimal n) \<le> d"
proof (induction d arbitrary: n)
  case (Suc d)
  show ?case
  proof (cases "n < 10")
    case False
    then have "0 < d" using Suc.prems by (cases d) auto
    moreover have "n div 10 < 10 ^ d" using Suc.prems by (simp add: less_mult_imp_div_less)
    ultimately have "length (decimal (n div 10)) \<le> d" using Suc.IH by blast
    with False show ?thesis by (subst decimal.simps) simp
  qed (subst decimal.simps, simp)
qed simp

lemma printable_decimal32: "n < 2 ^ 32 \<Longrightarrow> printable (decimal n)"
  using length_decimal_pow [of n 10] printable_decimal [of n]
  by simp

lemma printable_type [simp]: "printable (print_type t)"
  by (cases t) (simp_all add: printable_def line_char_def is_newline_def is_space_def)

lemma parse_print_type: "t \<noteq> OS_TYPE_UEFI_SHELL \<Longrightarrow> config_parse_type (print_type t) = t"
  by (cases t) (simp_all add: config_parse_type_def)

lemma color_names_ok:
  "list_all (\<lambda>n. printable (color_names ! n) \<and> config_parse_color (color_names ! n) = int n) [0..<16]"
  by code_simp

lemma color_name:
  assumes "n < 16"
  shows "printable (color_names ! n)" and "config_parse_color (color_names ! n) = int n"
  using color_names_ok assms by (simp_all add: list_all_iff del: upt_rec_numeral)

lemma do_parse_loop_entry:
  assumes "printable_entry e" and "wf_table cfg" and "unat (bc_num_entries cfg) < MAX_ENTRIES"
  shows "do_parse_loop m cur cfg (print_entry e @ rest) =
    do_parse_loop m (Some (unat (bc_num_entries cfg)))
      (cfg\<lparr>bc_num_entries := bc_num_entries cfg + 1,
           bc_entries := (bc_entries cfg)[unat (bc_num_entries cfg) := e]\<rparr>) rest"
proof -
  let ?n = "unat (bc_num_entries cfg)"
  have len: "?n < length (bc_entries cfg)" using assms(2,3) by (simp add: wf_table_def)
  have pd: "printable (decimal (nat (be_luks_tries e)))"
    by (rule printable_decimal32) (use assms(1) in \<open>auto simp: printable_entry_def\<close>)
  have pi: "parse_int 0 (decimal (nat (be_luks_tries e))) = be_luks_tries e"
    using assms(1) parse_int_decimal [of "nat (be_luks_tries e)"]
    by (auto simp: printable_entry_def)
  have py: "printable ''yes''" "printable ''no''" by code_simp+
  have fields: "str_copy v MAX_STR_LEN = v" if "printable v" for v
  proof -
    have "NUL \<notin> set v" using that by (auto simp: printable_def list_all_iff line_char_def)
    with that show ?thesis by (simp add: str_copy_take cstr_id printable_def)
  qed
  have upd: "apply_kv m (Some ?n) (cfg\<lparr>bc_num_entries := x, bc_entries := (bc_entries cfg)[?n := e']\<rparr>) (k, v)
      = cfg\<lparr>bc_num_entries := x, bc_entries := (bc_entries cfg)[?n := apply_entry k v e']\<rparr>" for x e' k v
    using len by (simp add: apply_kv_def)
  have "apply_entry ''luks_tries'' (decimal (nat (be_luks_tries e)))
     (apply_entry ''luks_keyfile'' (be_luks_keyfile e)
     (apply_entry ''encrypted'' (if be_encrypted e = 1 then ''yes'' else ''no'')
     (apply_entry ''cmdline'' (be_cmdline e)
     (apply_entry ''initrd'' (be_initrd e)
     (apply_entry ''kernel'' (be_kernel e)
     (apply_entry ''type'' (print_type (be_type e)) (open_entry (be_name e)))))))) = e"
    using assms(1) pi
    by (auto simp: apply_entry_def printable_entry_def open_entry_def zero_entry_def fields
        parse_print_type)
  then show ?thesis
    using assms(1,3) pd py
    by (simp add: print_entry_def do_parse_loop_section [simplified] do_parse_loop_kv
        printable_entry_def upd)
qed

lemma printable_field_ok: "printable v \<Longrightarrow> field_ok v"
  by (auto simp: field_ok_def printable_def list_all_iff line_char_def)

lemma name_field_ok: "list_all name_char v \<Longrightarrow> length v < MAX_STR_LEN \<Longrightarrow> field_ok v"
  by (auto simp: field_ok_def list_all_iff name_char_def)

lemma printable_wf_entry: "printable_entry e \<Longrightarrow> wf_entry e"
  by (simp add: printable_entry_def wf_entry_def printable_field_ok name_field_ok)

lemma do_parse_loop_entries:
  assumes "list_all printable_entry es" and "wf_table cfg"
    and "unat (bc_num_entries cfg) + length es \<le> MAX_ENTRIES"
  shows "\<exists>c. do_parse_loop m cur cfg (concat (map print_entry es)) = c \<and>
    same_globals cfg c \<and> live_entries c = live_entries cfg @ es \<and>
    unat (bc_num_entries c) = unat (bc_num_entries cfg) + length es"
  using assms
proof (induction es arbitrary: cur cfg)
  case Nil
  then show ?case by (simp add: do_parse_loop_end skip_blank_def same_globals_def)
next
  case (Cons e es)
  let ?c = "cfg\<lparr>bc_num_entries := bc_num_entries cfg + 1,
      bc_entries := (bc_entries cfg)[unat (bc_num_entries cfg) := e]\<rparr>"
  have n: "unat (bc_num_entries cfg) < MAX_ENTRIES" using Cons.prems(3) by simp
  have "\<exists>c. do_parse_loop m (Some (unat (bc_num_entries cfg))) ?c (concat (map print_entry es)) = c \<and>
      same_globals ?c c \<and> live_entries c = live_entries ?c @ es \<and>
      unat (bc_num_entries c) = unat (bc_num_entries ?c) + length es"
    by (rule Cons.IH)
      (use Cons.prems n in \<open>simp_all add: wf_table_append printable_wf_entry unat_Suc_entries\<close>)
  with Cons.prems n live_entries_append [of cfg e] show ?case
    by (simp add: do_parse_loop_entry same_globals_def wf_table_def unat_Suc_entries)
qed

lemma apply_kv_global: "apply_kv False None cfg (k, v) = apply_global k v cfg"
  by (simp add: apply_kv_def)

lemma parse_printed_globals:
  assumes "unat (bc_theme_color cfg) \<le> 7" and "unat (bc_accent_color cfg) \<le> 15"
  shows "do_parse_loop False None c0 (print_config cfg) =
    do_parse_loop False None (c0\<lparr>bc_timeout := bc_timeout cfg, bc_default_entry := bc_default_entry cfg,
      bc_theme_color := bc_theme_color cfg, bc_accent_color := bc_accent_color cfg\<rparr>)
     (concat (map print_entry (live_entries cfg)))"
proof -
  have p: "printable (decimal (unat x))" for x :: u32
    by (rule printable_decimal32) (rule unat_u32_less)
  have "int (unat (bc_theme_color cfg)) \<le> 7"
    using assms(1) by linarith
  then have "uint (bc_theme_color cfg) \<le> 7" by simp
  show ?thesis
    using assms \<open>uint (bc_theme_color cfg) \<le> 7\<close>
    by (simp add: print_config_def do_parse_loop_kv p color_name apply_kv_global apply_global_def
        parse_u32_decimal Let_def)
qed

text \<open>
  C13. Round trip: for every configuration the file format can express (names without
  \<^verbatim>\<open>]\<close> or line breaks, values without line breaks or outer blanks, a positive
  \<^verbatim>\<open>luks_tries\<close>, at most sixteen entries and a default index inside the table), parsing
  its printed form succeeds and gives back the same global settings and exactly the
  same entries, whatever the record held before.
\<close>

theorem config_print_parse:
  assumes "wf_config cfg" and "list_all printable_entry (live_entries cfg)"
    and "bc_default_entry cfg < bc_num_entries cfg"
    and "length (bc_entries c0) = MAX_ENTRIES"
  shows "\<exists>c. config_parse (print_config cfg) c0 = (0, c) \<and> same_globals cfg c \<and>
    live_entries c = live_entries cfg"
proof -
  let ?c1 = "(reset_config c0)\<lparr>bc_timeout := bc_timeout cfg, bc_default_entry := bc_default_entry cfg,
      bc_theme_color := bc_theme_color cfg, bc_accent_color := bc_accent_color cfg\<rparr>"
  have wt: "wf_table ?c1"
    using assms(4) by (simp add: wf_table_def reset_config_def live_entries_def)
  have l0: "live_entries ?c1 = []" "unat (bc_num_entries ?c1) = 0"
    by (simp_all add: live_entries_def reset_config_def)
  have len: "length (live_entries cfg) = unat (bc_num_entries cfg)"
    using assms(1) by (simp add: wf_config_def length_live_entries)
  define c where "c = do_parse_loop False None ?c1 (concat (map print_entry (live_entries cfg)))"
  have c: "same_globals ?c1 c" "live_entries c = live_entries cfg"
      "unat (bc_num_entries c) = unat (bc_num_entries cfg)"
    using do_parse_loop_entries [OF assms(2) wt, of False None] l0 len assms(1)
    by (auto simp: c_def wf_config_def wf_table_def)
  have "same_globals cfg c"
    using c(1) by (simp add: same_globals_def)
  moreover have n: "bc_num_entries c = bc_num_entries cfg"
    using c(3) by (simp add: word_unat_eq_iff)
  ultimately have "clamp_default c = c"
    using assms(3) by (auto simp: clamp_default_def same_globals_def)
  moreover have "do_parse_loop False None (reset_config c0) (print_config cfg) = c"
    unfolding c_def
    by (rule parse_printed_globals)
      (use assms(1) in \<open>simp_all add: wf_config_def word_le_nat_alt\<close>)
  moreover have "bc_num_entries c > 0" using n assms(3) by (auto simp: word_gt_0)
  ultimately show ?thesis
    using \<open>same_globals cfg c\<close> c(2)
    by (simp add: config_parse_def do_parse_def Let_def)
qed

theorem config_print_parse_witness:
  "live_entries (snd (config_parse (print_config (snd (config_parse sample_cfg empty_config))) empty_config))
     = live_entries (snd (config_parse sample_cfg empty_config))"
proof -
  let ?c = "snd (config_parse sample_cfg empty_config)"
  have "list_all printable_entry (live_entries ?c)" by code_simp
  moreover have "bc_default_entry ?c < bc_num_entries ?c" by code_simp
  ultimately show ?thesis
    using config_print_parse [OF wf_sample_cfg _ _ length_empty_config] by force
qed

end
