(* ===== verification/Menu.thy ===== *)
theory Menu
  imports Config
begin

text \<open>
  The boot menu of \<^verbatim>\<open>src/common/menu.c\<close>.  The callbacks of the \<^verbatim>\<open>MenuOps\<close> table have no
  result apart from \<^verbatim>\<open>read_key\<close>, so drawing is the list of the calls made, in order
  (\<open>event\<close>); a null callback makes no call.  \<^verbatim>\<open>menu_run\<close> consumes the list of the values
  that successive \<^verbatim>\<open>read_key\<close> calls return; it gives \<open>None\<close> while it is still waiting after
  the last of them.  The selection is proved to be the default index moved by the
  arrow keys modulo the number of entries; the loop is proved to return on Enter and when
  the countdown ends; the drawn box is proved rectangular.
\<close>

section \<open>Output\<close>

datatype event =
  EvPrint string | EvColor nat | EvCursor int int | EvClear | EvShow bool

record MenuOps =
  mo_has_clear :: bool
  mo_has_set_color :: bool
  mo_has_set_cursor :: bool
  mo_has_show_cursor :: bool
  mo_cols :: int

abbreviation (input) MENU_COLOR_NORMAL :: nat where "MENU_COLOR_NORMAL \<equiv> 0"
abbreviation (input) MENU_COLOR_HIGHLIGHT :: nat where "MENU_COLOR_HIGHLIGHT \<equiv> 1"
abbreviation (input) MENU_COLOR_TITLE :: nat where "MENU_COLOR_TITLE \<equiv> 2"
abbreviation (input) MENU_COLOR_BORDER :: nat where "MENU_COLOR_BORDER \<equiv> 4"
abbreviation (input) MENU_COLOR_ACCENT :: nat where "MENU_COLOR_ACCENT \<equiv> 5"
abbreviation (input) MENU_COLOR_HINT :: nat where "MENU_COLOR_HINT \<equiv> 6"

definition BOX_SEL :: string where "BOX_SEL = [CHR 0xC2, CHR 0xBB]"
definition BOX_DTL :: string where "BOX_DTL = [CHR 0xE2, CHR 0x95, CHR 0x94]"
definition BOX_DTR :: string where "BOX_DTR = [CHR 0xE2, CHR 0x95, CHR 0x97]"
definition BOX_DBL :: string where "BOX_DBL = [CHR 0xE2, CHR 0x95, CHR 0x9A]"
definition BOX_DBR :: string where "BOX_DBR = [CHR 0xE2, CHR 0x95, CHR 0x9D]"
definition BOX_DH :: string where "BOX_DH = [CHR 0xE2, CHR 0x95, CHR 0x90]"
definition BOX_DV :: string where "BOX_DV = [CHR 0xE2, CHR 0x95, CHR 0x91]"
definition BOX_LT :: string where "BOX_LT = [CHR 0xE2, CHR 0x95, CHR 0xA0]"
definition BOX_RT :: string where "BOX_RT = [CHR 0xE2, CHR 0x95, CHR 0xA3]"

lemmas box_defs = BOX_SEL_def BOX_DTL_def BOX_DTR_def BOX_DBL_def BOX_DBR_def BOX_DH_def
  BOX_DV_def BOX_LT_def BOX_RT_def

function print_chunks :: "nat \<Rightarrow> string \<Rightarrow> nat \<Rightarrow> event list" where
  "print_chunks mx s n =
     (if 0 < n \<and> 0 < mx then
        let chunk = (if n > mx then mx else n)
        in EvPrint (concat (replicate chunk s)) # print_chunks mx s (n - chunk)
      else [])"
  by pat_completeness auto
termination
  by (relation "measure (\<lambda>(_, _, n). n)") auto

declare print_chunks.simps [simp del]

definition print_n :: "string \<Rightarrow> int \<Rightarrow> event list" where
  "print_n s n =
     (if n \<le> 0 \<or> \<not> nz s then []
      else if \<not> nz (tl s) then print_chunks 160 [peek s] (nat n)
      else print_chunks 40 (cstr s) (nat n))"

definition set_color :: "MenuOps \<Rightarrow> nat \<Rightarrow> event list" where
  "set_color ops c = (if mo_has_set_color ops then [EvColor c] else [])"

definition show_cursor :: "MenuOps \<Rightarrow> bool \<Rightarrow> event list" where
  "show_cursor ops on = (if mo_has_show_cursor ops then [EvShow on] else [])"

section \<open>Layout\<close>

text \<open>C's division by two, which truncates towards zero.\<close>

definition half :: "int \<Rightarrow> int" where
  "half x = (if x < 0 then - ((- x) div 2) else x div 2)"

definition menu_cols :: "MenuOps \<Rightarrow> int" where
  "menu_cols ops = (if mo_cols ops > 0 then mo_cols ops else 80)"

definition box_width :: "int \<Rightarrow> int" where
  "box_width cols =
     (let bw = cols - 10; bw = (if bw < 40 then 40 else bw) in if bw > 78 then 78 else bw)"

definition box_lpad :: "int \<Rightarrow> int" where
  "box_lpad cols = (let lpad = half (cols - box_width cols) in if lpad < 0 then 0 else lpad)"

definition LMARGIN :: "MenuOps \<Rightarrow> int \<Rightarrow> event list" where
  "LMARGIN ops lpad = set_color ops MENU_COLOR_NORMAL @ print_n '' '' lpad"

definition ENDLINE :: "event list" where
  "ENDLINE = [EvPrint [LF]]"

definition WALL :: "MenuOps \<Rightarrow> event list" where
  "WALL ops = set_color ops MENU_COLOR_BORDER @ [EvPrint BOX_DV]"

definition border_row :: "MenuOps \<Rightarrow> int \<Rightarrow> int \<Rightarrow> string \<Rightarrow> string \<Rightarrow> event list" where
  "border_row ops lpad inner l r =
     LMARGIN ops lpad @ set_color ops MENU_COLOR_BORDER
     @ [EvPrint l] @ print_n BOX_DH inner @ [EvPrint r] @ ENDLINE"

definition menu_title :: string where
  "menu_title = ''SakuruBoot  v'' @ ''0.1''"

definition title_row :: "MenuOps \<Rightarrow> int \<Rightarrow> int \<Rightarrow> event list" where
  "title_row ops lpad inner =
     (let tlen = int (length menu_title);
          tlpad = half (inner - tlen);
          trpad = inner - tlen - tlpad
      in LMARGIN ops lpad @ WALL ops
         @ set_color ops MENU_COLOR_NORMAL @ print_n '' '' tlpad
         @ set_color ops MENU_COLOR_TITLE @ [EvPrint menu_title]
         @ set_color ops MENU_COLOR_NORMAL @ print_n '' '' trpad
         @ WALL ops @ ENDLINE)"

definition entry_row :: "MenuOps \<Rightarrow> int \<Rightarrow> int \<Rightarrow> bool \<Rightarrow> string \<Rightarrow> event list" where
  "entry_row ops lpad inner sel name =
     (let nlen = int (cfg_str_len name);
          rpad = inner - 5 - nlen;
          rpad = (if rpad < 0 then 0 else rpad)
      in LMARGIN ops lpad @ WALL ops
         @ (if sel then
              set_color ops MENU_COLOR_NORMAL @ [EvPrint '' '']
              @ set_color ops MENU_COLOR_HIGHLIGHT @ [EvPrint '' '']
              @ set_color ops MENU_COLOR_ACCENT @ [EvPrint BOX_SEL]
              @ set_color ops MENU_COLOR_HIGHLIGHT @ [EvPrint '' '', EvPrint name]
              @ print_n '' '' rpad
              @ set_color ops MENU_COLOR_NORMAL @ [EvPrint '' '']
            else
              set_color ops MENU_COLOR_NORMAL @ [EvPrint ''    '', EvPrint name]
              @ print_n '' '' rpad @ [EvPrint '' ''])
         @ WALL ops @ ENDLINE)"

definition hint_line :: "int \<Rightarrow> string" where
  "hint_line countdown =
     (if countdown > 0 then
        ''Booting in ''
        @ (if countdown \<ge> 10 then [char_of (48 + nat (countdown div 10))] else [])
        @ [char_of (48 + nat (countdown mod 10))] @ ''s...''
      else ''UP/DOWN  Move    ENTER  Boot'')"

definition hint_row :: "MenuOps \<Rightarrow> int \<Rightarrow> int \<Rightarrow> event list" where
  "hint_row ops cols countdown =
     (let line = hint_line countdown;
          hpad = half (cols - int (length line));
          hpad = (if hpad < 0 then 0 else hpad)
      in set_color ops MENU_COLOR_HINT @ print_n '' '' hpad @ [EvPrint line, EvPrint [LF]])"

definition render_menu :: "BootConfig \<Rightarrow> int \<Rightarrow> int \<Rightarrow> MenuOps \<Rightarrow> int \<Rightarrow> event list" where
  "render_menu cfg selected countdown ops start_row =
     (let cols = menu_cols ops;
          lpad = box_lpad cols;
          inner = box_width cols - 2
      in (if start_row \<ge> 0 \<and> mo_has_set_cursor ops then [EvCursor start_row 0]
          else if mo_has_clear ops then [EvClear] else [])
         @ border_row ops lpad inner BOX_DTL BOX_DTR
         @ title_row ops lpad inner
         @ border_row ops lpad inner BOX_LT BOX_RT
         @ concat (map (\<lambda>i. entry_row ops lpad inner (of_nat i = (word_of_int selected :: u32))
               (be_name (bc_entries cfg ! i))) [0..<unat (bc_num_entries cfg)])
         @ border_row ops lpad inner BOX_DBL BOX_DBR
         @ hint_row ops cols countdown)"

section \<open>The menu loop\<close>

abbreviation (input) KEY_UP :: int where "KEY_UP \<equiv> 0x100"
abbreviation (input) KEY_DOWN :: int where "KEY_DOWN \<equiv> 0x101"
abbreviation (input) KEY_ENTER :: int where "KEY_ENTER \<equiv> 13"

record menu_state =
  ms_selected :: int
  ms_countdown :: int
  ms_counting :: bool

datatype menu_action = Wait | Return int

text \<open>The arrow keys.\<close>

definition move_selection :: "BootConfig \<Rightarrow> int \<Rightarrow> int \<Rightarrow> int" where
  "move_selection cfg key selected =
     (if key = KEY_UP then
        (if selected > 0 then selected - 1 else c_int (uint (bc_num_entries cfg)) - 1)
      else if key = KEY_DOWN then
        (if (word_of_int selected :: u32) + 1 < bc_num_entries cfg then selected + 1 else 0)
      else selected)"

text \<open>One pass of the \<^verbatim>\<open>while (1)\<close> body, with the value that \<^verbatim>\<open>read_key\<close> returned.\<close>

definition menu_tick :: "BootConfig \<Rightarrow> MenuOps \<Rightarrow> menu_state \<Rightarrow> event list \<times> menu_action \<times> menu_state" where
  "menu_tick cfg ops st =
     (if ms_counting st then
        let countdown = ms_countdown st - 1; st = st\<lparr> ms_countdown := countdown \<rparr>
        in if countdown \<le> 0 then (show_cursor ops True, Return (ms_selected st), st)
           else (render_menu cfg (ms_selected st) countdown ops 0, Wait, st)
      else ([], Wait, st))"

definition menu_step ::
    "BootConfig \<Rightarrow> MenuOps \<Rightarrow> int \<Rightarrow> menu_state \<Rightarrow> event list \<times> menu_action \<times> menu_state" where
  "menu_step cfg ops key st =
     (if key \<ge> 0 then
        let st = st\<lparr> ms_counting := False \<rparr>
        in if key \<noteq> KEY_UP \<and> key \<noteq> KEY_DOWN \<and> (key = KEY_ENTER \<or> key = 10)
           then (show_cursor ops True, Return (ms_selected st), st)
           else
             let st = st\<lparr> ms_selected := move_selection cfg key (ms_selected st) \<rparr>;
                 (ev, act, st') = menu_tick cfg ops st
             in (render_menu cfg (ms_selected st) 0 ops 0 @ ev, act, st')
      else menu_tick cfg ops st)"

fun menu_loop :: "BootConfig \<Rightarrow> MenuOps \<Rightarrow> int list \<Rightarrow> menu_state \<Rightarrow> event list \<times> int option" where
  "menu_loop cfg ops [] st = ([], None)"
| "menu_loop cfg ops (key # keys) st =
     (case menu_step cfg ops key st of
        (ev, Return r, _) \<Rightarrow> (ev, Some r)
      | (ev, Wait, st') \<Rightarrow> (let (ev', r) = menu_loop cfg ops keys st' in (ev @ ev', r)))"

definition menu_start :: "BootConfig \<Rightarrow> menu_state" where
  "menu_start cfg =
     \<lparr> ms_selected = c_int (uint (bc_default_entry cfg)),
       ms_countdown = c_int (uint (bc_timeout cfg)),
       ms_counting = c_int (uint (bc_timeout cfg)) > 0 \<rparr>"

definition menu_run :: "BootConfig \<Rightarrow> MenuOps \<Rightarrow> int list \<Rightarrow> event list \<times> int option" where
  "menu_run cfg ops keys =
     (if bc_num_entries cfg = 0 then ([], Some 0)
      else
        let st = menu_start cfg;
            first = show_cursor ops False
              @ render_menu cfg (ms_selected st) (if ms_counting st then ms_countdown st else 0) ops (-1);
            (ev, r) = menu_loop cfg ops keys st
        in (first @ ev, r))"

section \<open>Selection\<close>

text \<open>
  A table that the menu can show: between 1 and 16 entries and a default among them
  (\<^verbatim>\<open>config_parse\<close> establishes both).
\<close>

definition menu_ready :: "BootConfig \<Rightarrow> bool" where
  "menu_ready cfg \<longleftrightarrow> 0 < bc_num_entries cfg \<and> bc_num_entries cfg \<le> 16 \<and>
     bc_default_entry cfg < bc_num_entries cfg"

definition enter_key :: "int \<Rightarrow> bool" where
  "enter_key key \<longleftrightarrow> key = KEY_ENTER \<or> key = 10"

definition key_delta :: "int \<Rightarrow> int" where
  "key_delta key = (if key = KEY_UP then -1 else if key = KEY_DOWN then 1 else 0)"

abbreviation entries_n :: "BootConfig \<Rightarrow> int" where
  "entries_n cfg \<equiv> uint (bc_num_entries cfg)"

definition sel_ok :: "BootConfig \<Rightarrow> int \<Rightarrow> bool" where
  "sel_ok cfg s \<longleftrightarrow> 0 \<le> s \<and> s < entries_n cfg \<and> entries_n cfg \<le> 16"

lemma menu_ready_sel: "menu_ready cfg \<Longrightarrow> sel_ok cfg (ms_selected (menu_start cfg))"
  by (auto simp: menu_ready_def sel_ok_def menu_start_def word_less_def word_le_def c_int_id)

lemma move_selection_mod:
  assumes "sel_ok cfg s"
  shows "move_selection cfg key s = (s + key_delta key) mod entries_n cfg"
proof -
  have b: "0 \<le> s" "s < entries_n cfg" "entries_n cfg \<le> 16" using assms by (auto simp: sel_ok_def)
  have "uint ((word_of_int s :: u32) + 1) = s + 1"
    using b by (simp add: uint_word_ariths uint_word_of_int)
  then have down: "(word_of_int s :: u32) + 1 < bc_num_entries cfg \<longleftrightarrow> s + 1 < entries_n cfg"
    by (simp add: word_less_def)
  have wrap: "(s + 1) mod entries_n cfg = 0" if "\<not> s + 1 < entries_n cfg"
  proof -
    have "s + 1 = entries_n cfg" using that b by simp
    then show ?thesis by simp
  qed
  show ?thesis
    using b wrap by (auto simp: move_selection_def key_delta_def down c_int_id
        mod_pos_pos_trivial zmod_minus1)
qed

lemma sel_ok_move:
  assumes "sel_ok cfg s"
  shows "sel_ok cfg (move_selection cfg key s)"
  using assms by (simp add: move_selection_mod) (simp add: sel_ok_def)

definition idle :: "int list \<Rightarrow> nat" where
  "idle keys = length (takeWhile (\<lambda>k. k < 0) keys)"

text \<open>A pass that neither sees Enter nor ends the countdown.\<close>

lemma menu_step_wait:
  assumes "\<not> enter_key key" and "sel_ok cfg (ms_selected st)"
    and "key < 0 \<Longrightarrow> ms_counting st \<Longrightarrow> 1 < ms_countdown st"
  shows "\<exists>ev st'. menu_step cfg ops key st = (ev, Wait, st') \<and>
    ms_selected st' = (ms_selected st + key_delta key) mod entries_n cfg \<and>
    (if key < 0 then ms_counting st' = ms_counting st \<and>
       (ms_counting st \<longrightarrow> ms_countdown st' = ms_countdown st - 1)
     else \<not> ms_counting st')"
proof (cases "key < 0")
  case True
  then have "key_delta key = 0" by (simp add: key_delta_def)
  then have "(ms_selected st + key_delta key) mod entries_n cfg = ms_selected st"
    using assms(2) by (simp add: sel_ok_def)
  then show ?thesis
    using True assms(3) by (auto simp: menu_step_def menu_tick_def Let_def)
next
  case False
  then show ?thesis
    using assms(1) move_selection_mod[OF assms(2), of key]
    by (auto simp: menu_step_def menu_tick_def Let_def enter_key_def)
qed

lemma menu_step_enter:
  "enter_key key \<Longrightarrow> \<exists>ev st'. menu_step cfg ops key st = (ev, Return (ms_selected st), st')"
  by (auto simp: menu_step_def enter_key_def Let_def)

lemma menu_loop_Wait:
  "menu_step cfg ops key st = (ev, Wait, st') \<Longrightarrow>
     snd (menu_loop cfg ops (key # keys) st) = snd (menu_loop cfg ops keys st')"
  by (simp add: case_prod_unfold Let_def)

lemma menu_loop_selects:
  assumes "sel_ok cfg (ms_selected st)" and "\<forall>k\<in>set keys. \<not> enter_key k" and "enter_key e"
    and "ms_counting st \<Longrightarrow> int (idle keys) < ms_countdown st"
  shows "snd (menu_loop cfg ops (keys @ [e]) st) =
    Some ((ms_selected st + sum_list (map key_delta keys)) mod entries_n cfg)"
  using assms(1,2,4)
proof (induction keys arbitrary: st)
  case Nil
  obtain ev st' where "menu_step cfg ops e st = (ev, Return (ms_selected st), st')"
    using menu_step_enter[OF assms(3)] by blast
  then show ?case using Nil by (simp add: sel_ok_def)
next
  case (Cons key keys)
  have pre: "\<not> enter_key key" "key < 0 \<Longrightarrow> ms_counting st \<Longrightarrow> 1 < ms_countdown st"
    using Cons.prems by (auto simp: idle_def)
  obtain ev st' where st': "menu_step cfg ops key st = (ev, Wait, st')"
      "ms_selected st' = (ms_selected st + key_delta key) mod entries_n cfg"
      "if key < 0 then ms_counting st' = ms_counting st \<and>
         (ms_counting st \<longrightarrow> ms_countdown st' = ms_countdown st - 1) else \<not> ms_counting st'"
    using menu_step_wait[OF pre(1) Cons.prems(1) pre(2)] by blast
  have ok: "sel_ok cfg (ms_selected st')"
    using Cons.prems(1) by (simp add: st'(2) sel_ok_def)
  have idle: "int (idle keys) < ms_countdown st'" if "ms_counting st'"
    using Cons.prems(3) st'(3) that by (auto simp: idle_def split: if_splits)
  have "snd (menu_loop cfg ops (keys @ [e]) st') =
      Some ((ms_selected st' + sum_list (map key_delta keys)) mod entries_n cfg)"
    using Cons.IH[OF ok _ idle] Cons.prems(2) by simp
  then show ?case
    by (simp add: menu_loop_Wait[OF st'(1)] st'(2) mod_add_left_eq add.assoc del: menu_loop.simps)
qed

text \<open>Whatever the keys, a returned index is in range.\<close>

lemma menu_tick_sel: "menu_tick cfg ops st = (ev, act, st') \<Longrightarrow>
    ms_selected st' = ms_selected st \<and> (act = Wait \<or> act = Return (ms_selected st))"
  by (auto simp: menu_tick_def Let_def split: if_splits)

lemma menu_step_sel:
  assumes "menu_step cfg ops key st = (ev, act, st')" and "sel_ok cfg (ms_selected st)"
  shows "sel_ok cfg (ms_selected st') \<and> (act = Wait \<or> (\<exists>r. act = Return r \<and> sel_ok cfg r))"
  using assms
  by (auto simp: menu_step_def Let_def sel_ok_move dest!: menu_tick_sel split: if_splits prod.splits)

lemma menu_loop_range:
  assumes "sel_ok cfg (ms_selected st)" and "snd (menu_loop cfg ops keys st) = Some r"
  shows "sel_ok cfg r"
  using assms
proof (induction keys arbitrary: st)
  case (Cons key keys)
  obtain ev act st' where s: "menu_step cfg ops key st = (ev, act, st')" by (metis prod_cases3)
  show ?case
    using Cons menu_step_sel[OF s Cons.prems(1)] s
    by (auto split: menu_action.splits prod.splits)
qed simp

lemma menu_loop_countdown:
  assumes "ms_counting st" and "ms_countdown st = int (Suc n)"
  shows "snd (menu_loop cfg ops (replicate k (-1)) st) =
    (if n < k then Some (ms_selected st) else None)"
  using assms
proof (induction k arbitrary: n st)
  case (Suc k)
  show ?case
  proof (cases n)
    case 0
    then show ?thesis using Suc.prems by (simp add: menu_step_def menu_tick_def Let_def)
  next
    case (Suc m)
    let ?st = "st\<lparr> ms_countdown := int (Suc m) \<rparr>"
    have "menu_step cfg ops (-1) st = (render_menu cfg (ms_selected st) (int (Suc m)) ops 0, Wait, ?st)"
      using Suc.prems Suc by (simp add: menu_step_def menu_tick_def Let_def)
    moreover have "snd (menu_loop cfg ops (replicate k (-1)) ?st) =
        (if m < k then Some (ms_selected ?st) else None)"
      using Suc.IH[of ?st m] Suc.prems by simp
    ultimately show ?thesis using Suc by (simp add: menu_loop_Wait del: menu_loop.simps)
  qed
qed simp

lemma menu_loop_waits:
  assumes "\<not> ms_counting st" and "\<forall>k\<in>set keys. \<not> enter_key k"
  shows "snd (menu_loop cfg ops keys st) = None"
  using assms
proof (induction keys arbitrary: st)
  case (Cons key keys)
  have "\<exists>ev st'. menu_step cfg ops key st = (ev, Wait, st') \<and> \<not> ms_counting st'"
    using Cons.prems by (auto simp: menu_step_def menu_tick_def Let_def enter_key_def)
  then obtain ev st' where st': "menu_step cfg ops key st = (ev, Wait, st')" "\<not> ms_counting st'"
    by blast
  then show ?case using Cons.IH[OF st'(2)] Cons.prems
    by (simp add: menu_loop_Wait[OF st'(1)] del: menu_loop.simps)
qed simp

lemma snd_menu_run:
  "0 < bc_num_entries cfg \<Longrightarrow> snd (menu_run cfg ops keys) = snd (menu_loop cfg ops keys (menu_start cfg))"
  by (auto simp: menu_run_def Let_def word_gt_0 split: prod.splits)

section \<open>Properties of the loop\<close>

text \<open>
  C22. The entry that the menu returns on Enter is the default entry moved down by the
  number of Down keys and up by the number of Up keys, modulo the number of entries,
  provided a key is pressed before the countdown (if any) has run out.
\<close>

theorem menu_run_selects:
  assumes "menu_ready cfg" and "\<forall>k\<in>set keys. \<not> enter_key k" and "enter_key e"
    and "0 < c_int (uint (bc_timeout cfg)) \<Longrightarrow> int (idle keys) < c_int (uint (bc_timeout cfg))"
  shows "snd (menu_run cfg ops (keys @ [e])) =
    Some ((uint (bc_default_entry cfg) + sum_list (map key_delta keys)) mod entries_n cfg)"
proof -
  have "ms_selected (menu_start cfg) = uint (bc_default_entry cfg)"
    using assms(1) by (auto simp: menu_ready_def menu_start_def word_less_def word_le_def c_int_id)
  then show ?thesis
    using menu_loop_selects[OF menu_ready_sel[OF assms(1)] assms(2,3)] assms(1,4)
    by (simp add: snd_menu_run menu_ready_def menu_start_def)
qed

definition menu_sample :: BootConfig where
  "menu_sample = snd (config_parse (''timeout = 3'' @ [LF] @ ''default = 1'' @ [LF] @ ''[entry:A]''
     @ [LF] @ ''[entry:B]'' @ [LF] @ ''[entry:C]'' @ [LF]) empty_config)"

definition menu_ops :: MenuOps where
  "menu_ops = \<lparr> mo_has_clear = True, mo_has_set_color = True, mo_has_set_cursor = True,
     mo_has_show_cursor = True, mo_cols = 80 \<rparr>"

lemma menu_sample: "bc_num_entries menu_sample = 3" "bc_default_entry menu_sample = 1"
  "bc_timeout menu_sample = 3"
  by code_simp+

lemma menu_sample_ready: "menu_ready menu_sample"
  by (simp add: menu_ready_def menu_sample)

theorem menu_run_selects_witness:
  "snd (menu_run menu_sample menu_ops ([-1, KEY_DOWN, KEY_DOWN] @ [KEY_ENTER])) = Some 0"
  using menu_run_selects[OF menu_sample_ready, of "[-1, KEY_DOWN, KEY_DOWN]" KEY_ENTER menu_ops]
  by (simp add: menu_sample enter_key_def key_delta_def idle_def c_int_def)

lemma menu_run_range:
  assumes "menu_ready cfg" and "snd (menu_run cfg ops keys) = Some r"
  shows "0 \<le> r \<and> r < entries_n cfg"
  using menu_loop_range[OF menu_ready_sel[OF assms(1)], of ops keys r] assms
  by (simp add: snd_menu_run menu_ready_def sel_ok_def)

text \<open>
  Whatever the keys, an index that the menu returns for a table with a valid default
  lies inside the table.
\<close>

theorem menu_run_in_range:
  assumes "menu_ready cfg" and "snd (menu_run cfg ops keys) = Some r"
  shows "0 \<le> r \<and> r < entries_n cfg"
  using assms by (rule menu_run_range)

theorem menu_run_in_range_witness:
  "\<exists>r. snd (menu_run menu_sample menu_ops [KEY_UP, KEY_ENTER]) = Some r \<and> 0 \<le> r \<and> r < 3"
proof -
  have "snd (menu_run menu_sample menu_ops [KEY_UP, KEY_ENTER]) = Some 0"
    using menu_loop_selects[OF menu_ready_sel[OF menu_sample_ready], of "[KEY_UP]" KEY_ENTER menu_ops]
    by (simp add: snd_menu_run menu_sample enter_key_def key_delta_def idle_def menu_start_def c_int_def)
  from menu_run_in_range[OF menu_sample_ready this] this show ?thesis by (simp add: menu_sample)
qed

text \<open>
  C23. With a timeout of \<open>t\<close> seconds and no key pressed, the menu returns the default entry
  after exactly \<open>t\<close> reads that timed out, and not before.
\<close>

theorem menu_countdown_boots_default:
  assumes "menu_ready cfg" and "bc_timeout cfg = of_nat t" and "0 < t" and "t < 2 ^ 31"
  shows "snd (menu_run cfg ops (replicate k (-1))) =
    (if t \<le> k then Some (uint (bc_default_entry cfg)) else None)"
proof -
  have "uint (bc_timeout cfg) = int t"
    using assms(2,4) by (simp add: uint_nat unat_of_nat)
  then have t: "c_int (uint (bc_timeout cfg)) = int (Suc (t - 1))"
    using assms(3,4) by (simp add: c_int_id)
  have sel: "ms_selected (menu_start cfg) = uint (bc_default_entry cfg)"
    using assms(1) by (auto simp: menu_ready_def menu_start_def word_less_def word_le_def c_int_id)
  have "t - 1 < k \<longleftrightarrow> t \<le> k" using assms(3) by auto
  then show ?thesis
    using menu_loop_countdown[of "menu_start cfg" "t - 1" cfg ops k] t sel assms(1)
    by (simp add: snd_menu_run menu_ready_def menu_start_def)
qed

theorem menu_countdown_boots_default_witness:
  "snd (menu_run menu_sample menu_ops (replicate 3 (-1))) = Some 1 \<and>
   snd (menu_run menu_sample menu_ops (replicate 2 (-1))) = None"
  using menu_countdown_boots_default[OF menu_sample_ready, of 3 menu_ops 3]
    menu_countdown_boots_default[OF menu_sample_ready, of 3 menu_ops 2]
  by (simp add: menu_sample)

text \<open>
  With a timeout of 0 the menu does not boot at once: it never returns until Enter is
  pressed.
\<close>

theorem menu_timeout_zero_waits:
  assumes "0 < bc_num_entries cfg" and "bc_timeout cfg = 0" and "\<forall>k\<in>set keys. \<not> enter_key k"
  shows "snd (menu_run cfg ops keys) = None"
  using menu_loop_waits[of "menu_start cfg" keys cfg ops] assms
  by (simp add: snd_menu_run menu_start_def c_int_def)

theorem menu_timeout_zero_waits_witness:
  "snd (menu_run (menu_sample\<lparr> bc_timeout := 0 \<rparr>) menu_ops (replicate 100 (-1))) = None"
  by (rule menu_timeout_zero_waits) (simp_all add: menu_sample enter_key_def)

section \<open>The drawn box\<close>

definition text_of :: "event list \<Rightarrow> string" where
  "text_of evs = concat (map (\<lambda>e. case e of EvPrint s \<Rightarrow> s | _ \<Rightarrow> []) evs)"

text \<open>Columns a UTF-8 string takes: the bytes that are not continuation bytes.\<close>

definition width :: "string \<Rightarrow> nat" where
  "width s = length (filter (\<lambda>c. \<not> (128 \<le> ord c \<and> ord c < 192)) s)"

lemma text_of_simps [simp]:
  "text_of [] = []" "text_of (a @ b) = text_of a @ text_of b"
  "text_of (EvPrint s # evs) = s @ text_of evs" "text_of (EvColor c # evs) = text_of evs"
  "text_of (EvClear # evs) = text_of evs" "text_of (EvCursor r cc # evs) = text_of evs"
  "text_of (set_color ops col) = []"
  by (simp_all add: text_of_def set_color_def)

lemma width_append [simp]: "width (a @ b) = width a + width b"
  by (simp add: width_def)

lemma width_replicate: "width (concat (replicate n s)) = n * width s"
  by (induction n) (simp_all add: width_def)

lemma text_print_chunks: "0 < mx \<Longrightarrow> text_of (print_chunks mx s n) = concat (replicate n s)"
proof (induction mx s n rule: print_chunks.induct)
  case (1 mx s n)
  show ?case
  proof (cases "mx < n")
    case True
    have "concat (replicate n s) = concat (replicate mx s @ replicate (n - mx) s)"
      using True by (simp add: replicate_add[symmetric])
    then show ?thesis
      using 1 True by (subst print_chunks.simps) simp
  next
    case False
    have "print_chunks mx s 0 = []" by (simp add: print_chunks.simps)
    then show ?thesis using 1 False by (subst print_chunks.simps) simp
  qed
qed

text \<open>\<^verbatim>\<open>print_n\<close> prints exactly \<open>n\<close> copies of a string.\<close>

lemma text_print_n:
  assumes "NUL \<notin> set s" and "s \<noteq> []"
  shows "text_of (print_n s n) = concat (replicate (nat n) s)"
proof -
  have "nz s" "cstr s = s"
    using assms by (cases s; simp add: nz_def cstr_def takeWhile_eq_all_conv; blast)+
  moreover have "\<not> nz (tl s) \<Longrightarrow> s = [peek s]"
    using assms by (cases s; cases "tl s") (auto simp: nz_def)
  ultimately show ?thesis
    using text_print_chunks[of 160 s "nat n"] text_print_chunks[of 40 s "nat n"]
    by (cases "nz (tl s)") (auto simp: print_n_def)
qed

definition row_ok :: "nat \<Rightarrow> string \<Rightarrow> bool" where
  "row_ok w t \<longleftrightarrow> (\<exists>r. t = r @ [LF] \<and> LF \<notin> set r \<and> width r = w)"

text \<open>One-column glyphs, and names of printable ASCII characters.\<close>

definition glyph :: "string \<Rightarrow> bool" where
  "glyph s \<longleftrightarrow> s \<noteq> [] \<and> LF \<notin> set s \<and> NUL \<notin> set s \<and> width s = 1"

definition ascii_name :: "string \<Rightarrow> bool" where
  "ascii_name s \<longleftrightarrow> list_all (\<lambda>c. 32 \<le> ord c \<and> ord c < 127) s"

lemma glyphs:
  "glyph BOX_SEL" "glyph BOX_DTL" "glyph BOX_DTR" "glyph BOX_DBL" "glyph BOX_DBR"
  "glyph BOX_DH" "glyph BOX_DV" "glyph BOX_LT" "glyph BOX_RT" "glyph '' ''"
  by code_simp+

lemma glyph_row:
  assumes "glyph s"
  shows "LF \<notin> set (text_of (print_n s n))" "width (text_of (print_n s n)) = nat n"
  using assms by (auto simp: glyph_def text_print_n width_replicate)

lemma glyphD: "glyph s \<Longrightarrow> LF \<notin> set s" "glyph s \<Longrightarrow> width s = 1"
  by (simp_all add: glyph_def)

lemma ascii_nameD:
  assumes "ascii_name s"
  shows "LF \<notin> set s" "width s = length s" "cfg_str_len s = length s"
proof -
  have c: "32 \<le> ord c \<and> ord c < 127" if "c \<in> set s" for c
    using assms that by (simp add: ascii_name_def list_all_iff)
  then show "LF \<notin> set s" by fastforce
  have "filter (\<lambda>c. \<not> (128 \<le> ord c \<and> ord c < 192)) s = s"
    using c by (force simp: filter_id_conv)
  then show "width s = length s" by (simp add: width_def)
  have "NUL \<notin> set s" using c by fastforce
  then show "cfg_str_len s = length s"
    by (induction s) auto
qed

lemma width_space [simp]: "width [] = 0" "width (CHR '' '' # s) = Suc (width s)"
  by (simp_all add: width_def)

lemma width_spaces: "width '' '' = 1" "width ''    '' = 4" "width menu_title = 16"
  "LF \<notin> set menu_title" "length menu_title = 16"
  by code_simp+

lemmas row_simps = LMARGIN_def WALL_def ENDLINE_def glyph_row glyphs glyphD width_spaces

lemma border_row_ok:
  assumes "glyph l" "glyph r" "0 \<le> lpad" "0 \<le> inner"
  shows "row_ok (nat (lpad + inner + 2)) (text_of (border_row ops lpad inner l r))"
  unfolding row_ok_def
  by (rule exI[of _ "text_of (print_n '' '' lpad) @ l @ text_of (print_n BOX_DH inner) @ r"])
    (use assms in \<open>simp add: border_row_def row_simps nat_add_distrib\<close>)

lemma title_row_ok:
  assumes "0 \<le> lpad" "16 \<le> inner"
  shows "row_ok (nat (lpad + inner + 2)) (text_of (title_row ops lpad inner))"
proof -
  let ?l = "half (inner - 16)"
  have l: "0 \<le> ?l" "?l \<le> inner - 16" using assms(2) by (simp_all add: half_def)
  show ?thesis
    unfolding row_ok_def
    by (rule exI[of _ "text_of (print_n '' '' lpad) @ BOX_DV @ text_of (print_n '' '' ?l) @ menu_title
        @ text_of (print_n '' '' (inner - 16 - ?l)) @ BOX_DV"])
      (use assms l in \<open>simp add: title_row_def row_simps Let_def\<close>)
qed

lemma entry_row_ok:
  assumes "0 \<le> lpad" "ascii_name name" "int (length name) \<le> inner - 5"
  shows "row_ok (nat (lpad + inner + 2)) (text_of (entry_row ops lpad inner sel name))"
proof -
  let ?r = "text_of (print_n '' '' (inner - 5 - int (length name)))"
  let ?body = "if sel then '' '' @ '' '' @ BOX_SEL @ '' '' @ name @ ?r @ '' ''
    else ''    '' @ name @ ?r @ '' ''"
  have "width ?body = nat inner" "LF \<notin> set ?body"
    using assms ascii_nameD[OF assms(2)] by (auto simp: row_simps)
  then show ?thesis
    unfolding row_ok_def
    by (intro exI[of _ "text_of (print_n '' '' lpad) @ BOX_DV @ ?body @ BOX_DV"])
      (use assms ascii_nameD[OF assms(2)] in \<open>simp add: entry_row_def row_simps Let_def\<close>)
qed

lemma row_oks:
  "\<forall>t\<in>set ts. row_ok w t \<Longrightarrow> \<exists>rows. concat ts = concat (map (\<lambda>r. r @ [LF]) rows) \<and>
     length rows = length ts \<and> (\<forall>r\<in>set rows. LF \<notin> set r \<and> width r = w)"
proof (induction ts)
  case (Cons t ts)
  then obtain r rows where "t = r @ [LF]" "LF \<notin> set r" "width r = w"
      "concat ts = concat (map (\<lambda>r. r @ [LF]) rows)" "length rows = length ts"
      "\<forall>r\<in>set rows. LF \<notin> set r \<and> width r = w"
    by (auto simp: row_ok_def)
  then show ?case by (intro exI[of _ "r # rows"]) simp
qed simp

text \<open>
  The menu is drawn as a rectangle: when every name is printable ASCII and fits the
  box, the text printed consists of the top border, the title, the divider, one row per
  entry and the bottom border, all of the same width, followed by the hint line; the
  rows do not exceed the screen when it has at least 40 columns.
\<close>

theorem menu_box_rectangular:
  assumes "\<forall>i<unat (bc_num_entries cfg). ascii_name (be_name (bc_entries cfg ! i)) \<and>
      int (length (be_name (bc_entries cfg ! i))) \<le> box_width (menu_cols ops) - 7"
  shows "\<exists>rows hint. text_of (render_menu cfg selected countdown ops start_row) =
      concat (map (\<lambda>r. r @ [LF]) rows) @ hint @ [LF] \<and>
    length rows = unat (bc_num_entries cfg) + 4 \<and>
    (\<forall>r\<in>set rows. LF \<notin> set r \<and>
       width r = nat (box_lpad (menu_cols ops) + box_width (menu_cols ops))) \<and>
    (40 \<le> menu_cols ops \<longrightarrow>
       box_lpad (menu_cols ops) + box_width (menu_cols ops) \<le> menu_cols ops)"
proof -
  define lpad inner where "lpad = box_lpad (menu_cols ops)" and "inner = box_width (menu_cols ops) - 2"
  have b: "0 \<le> lpad" "38 \<le> inner"
    by (simp_all add: lpad_def inner_def box_lpad_def box_width_def Let_def)
  have fits: "40 \<le> menu_cols ops \<longrightarrow> lpad + (inner + 2) \<le> menu_cols ops"
    by (auto simp: lpad_def inner_def box_lpad_def box_width_def half_def Let_def)
  define ers where "ers = map (\<lambda>i. text_of (entry_row ops lpad inner
      (of_nat i = (word_of_int selected :: u32)) (be_name (bc_entries cfg ! i)))) [0..<unat (bc_num_entries cfg)]"
  define ts where "ts = [text_of (border_row ops lpad inner BOX_DTL BOX_DTR),
      text_of (title_row ops lpad inner), text_of (border_row ops lpad inner BOX_LT BOX_RT)] @ ers
      @ [text_of (border_row ops lpad inner BOX_DBL BOX_DBR)]"
  have "\<forall>t\<in>set ts. row_ok (nat (lpad + inner + 2)) t"
    using b assms
    by (auto simp: ts_def ers_def inner_def[symmetric] intro!: border_row_ok title_row_ok
        entry_row_ok glyphs) (use assms in \<open>auto simp: inner_def\<close>)
  from row_oks[OF this] obtain rows where rows: "concat ts = concat (map (\<lambda>r. r @ [LF]) rows)"
      "length rows = length ts" "\<forall>r\<in>set rows. LF \<notin> set r \<and> width r = nat (lpad + inner + 2)"
    by blast
  have ent: "text_of (concat (map f is)) = concat (map (\<lambda>i. text_of (f i)) is)"
    for f :: "nat \<Rightarrow> event list" and "is"
    by (induction "is") simp_all
  obtain hint where hint: "text_of (hint_row ops (menu_cols ops) countdown) = hint @ [LF]"
    by (simp add: hint_row_def Let_def)
  have "text_of (render_menu cfg selected countdown ops start_row) = concat ts @ hint @ [LF]"
    by (simp add: render_menu_def Let_def ts_def ers_def ent hint lpad_def inner_def)
  then show ?thesis
    using rows fits
    by (intro exI[of _ rows] exI[of _ hint])
      (simp add: ts_def ers_def lpad_def inner_def algebra_simps)
qed

theorem menu_box_rectangular_witness:
  "\<exists>rows hint. text_of (render_menu menu_sample 1 3 menu_ops (-1)) =
      concat (map (\<lambda>r. r @ [LF]) rows) @ hint @ [LF] \<and> length rows = 7 \<and>
      (\<forall>r\<in>set rows. width r = 75)"
proof -
  have "\<forall>i<3. ascii_name (be_name (bc_entries menu_sample ! i)) \<and>
      int (length (be_name (bc_entries menu_sample ! i))) \<le> 63"
  proof -
    have "list_all (\<lambda>i. ascii_name (be_name (bc_entries menu_sample ! i)) \<and>
        int (length (be_name (bc_entries menu_sample ! i))) \<le> 63) [0, 1, 2]"
      by code_simp
    moreover have "(i::nat) < 3 \<Longrightarrow> i \<in> {0, 1, 2}" for i by auto
    ultimately show ?thesis by (fastforce simp: list_all_iff)
  qed
  then show ?thesis
    using menu_box_rectangular[of menu_sample menu_ops 1 3 "-1"]
    by (simp add: menu_sample menu_ops_def menu_cols_def box_width_def box_lpad_def half_def Let_def)
      blast
qed

end
