(* ===== verification/Vga.thy ===== *)
theory Vga
  imports Menu
begin

text \<open>
  The text console and the keyboard of \<^verbatim>\<open>src/bios/stage2/main.c\<close>.  The frame buffer at
  \<^verbatim>\<open>0xB8000\<close> is a list of 2000 cells; a write outside it is the result \<open>None\<close>.  The keyboard
  controller is a parameter: \<open>ports t\<close> gives the status and the scan code that poll \<open>t\<close> reads.
\<close>

section \<open>Console\<close>

definition VGA_COLS :: int where "VGA_COLS = 80"
definition VGA_ROWS :: int where "VGA_ROWS = 25"

definition VGA_ATTR :: "nat \<Rightarrow> nat \<Rightarrow> u8" where
  "VGA_ATTR fg bg = push_bit 4 (of_nat bg) OR of_nat fg"

record vga =
  vga_cells :: "u16 list"
  vga_col :: int
  vga_row :: int
  vga_attr :: u8

definition vga_cell :: "u8 \<Rightarrow> char \<Rightarrow> u16" where
  "vga_cell attr c = push_bit 8 (ucast attr) OR of_nat (ord c)"

text \<open>The scroll at the label \<^verbatim>\<open>scroll_check\<close>.\<close>

definition vga_scroll :: "vga \<Rightarrow> vga" where
  "vga_scroll v =
     (if vga_row v \<ge> VGA_ROWS then
        v\<lparr> vga_cells := drop 80 (vga_cells v) @ replicate 80 (vga_cell (vga_attr v) (CHR '' '')),
           vga_row := VGA_ROWS - 1 \<rparr>
      else v)"

definition vga_putc :: "char \<Rightarrow> vga \<Rightarrow> vga option" where
  "vga_putc c v =
     (if c = CR then Some (v\<lparr> vga_col := 0 \<rparr>)
      else if c = LF then Some (vga_scroll (v\<lparr> vga_col := 0, vga_row := vga_row v + 1 \<rparr>))
      else
        let i = vga_row v * VGA_COLS + vga_col v
        in if i < 0 \<or> i \<ge> int (length (vga_cells v)) then None
           else
             let v = v\<lparr> vga_cells := (vga_cells v)[nat i := vga_cell (vga_attr v) c], vga_col := vga_col v + 1 \<rparr>;
                 v = (if vga_col v \<ge> VGA_COLS then v\<lparr> vga_col := 0, vga_row := vga_row v + 1 \<rparr> else v)
             in Some (vga_scroll v))"

definition vga_puts :: "string \<Rightarrow> vga \<Rightarrow> vga option" where
  "vga_puts s v = fold_opt vga_putc (cstr s) v"

text \<open>Decimal digits, most significant first; nothing is printed for a negative number.\<close>

function int_digits :: "int \<Rightarrow> string \<Rightarrow> string" where
  "int_digits n acc =
     (if n > 0 then int_digits (n div 10) (char_of (48 + nat (n mod 10)) # acc) else acc)"
  by pat_completeness auto
termination
  by (relation "measure (\<lambda>(n, _). nat n)") auto

declare int_digits.simps [simp del]

definition vga_puts_int :: "int \<Rightarrow> vga \<Rightarrow> vga option" where
  "vga_puts_int n v = vga_puts (if n = 0 then ''0'' else int_digits n []) v"

definition vga_clear :: "vga \<Rightarrow> vga" where
  "vga_clear v = v\<lparr> vga_attr := VGA_ATTR 13 0,
     vga_cells := replicate 2000 (vga_cell (VGA_ATTR 13 0) (CHR '' '')), vga_col := 0, vga_row := 0 \<rparr>"

definition vga_set_color :: "nat \<Rightarrow> vga \<Rightarrow> vga" where
  "vga_set_color fg v =
     v\<lparr> vga_attr := (if fg = MENU_COLOR_HIGHLIGHT then VGA_ATTR 0 5
                     else if fg = MENU_COLOR_ACCENT then VGA_ATTR 14 0 else VGA_ATTR 13 0) \<rparr>"

text \<open>The menu's calls on this console, which has no cursor functions.\<close>

definition vga_ops :: MenuOps where
  "vga_ops = \<lparr> mo_has_clear = True, mo_has_set_color = True, mo_has_set_cursor = False,
     mo_has_show_cursor = False, mo_cols = VGA_COLS \<rparr>"

fun vga_event :: "event \<Rightarrow> vga \<Rightarrow> vga option" where
  "vga_event (EvPrint s) v = vga_puts s v"
| "vga_event (EvColor c) v = Some (vga_set_color c v)"
| "vga_event EvClear v = Some (vga_clear v)"
| "vga_event (EvCursor _ _) v = None"
| "vga_event (EvShow _) v = None"

section \<open>Keyboard\<close>

definition sc_to_ascii :: string where
  "sc_to_ascii = [NUL, NUL] @ ''1234567890-='' @ [CHR 0x08, TAB] @ ''qwertyuiop[]'' @ [CR, NUL] @
     ''asdfghjkl;'' @ [CHR 0x27, CHR 0x60, NUL, CHR 0x5C] @ ''zxcvbnm,./'' @ [NUL] @ ''*'' @ [NUL] @ '' '' @
     replicate 70 NUL"

definition KEY_UP_SCAN :: u8 where "KEY_UP_SCAN = 0x48"
definition KEY_DOWN_SCAN :: u8 where "KEY_DOWN_SCAN = 0x50"
definition KBD_POLLS :: nat where "KBD_POLLS = 100000000"

definition scan_key :: "u8 \<Rightarrow> u8 \<Rightarrow> int option" where
  "scan_key status scan =
     (if status AND 1 = 0 then None
      else if scan AND 0x80 \<noteq> 0 then None
      else if scan = KEY_UP_SCAN then Some 0x100
      else if scan = KEY_DOWN_SCAN then Some 0x101
      else if scan < 128 \<and> sc_to_ascii ! unat scan \<noteq> NUL then Some (int (ord (sc_to_ascii ! unat scan)))
      else None)"

function kbd_loop :: "(nat \<Rightarrow> u8 \<times> u8) \<Rightarrow> nat \<Rightarrow> int" where
  "kbd_loop ports timeout =
     (if timeout < KBD_POLLS then
        case scan_key (fst (ports timeout)) (snd (ports timeout)) of
          Some k \<Rightarrow> k
        | None \<Rightarrow> kbd_loop ports (timeout + 1)
      else -1)"
  by pat_completeness auto
termination
  by (relation "measure (\<lambda>(_, t). KBD_POLLS - t)") auto

declare kbd_loop.simps [simp del]

definition kbd_read_key :: "(nat \<Rightarrow> u8 \<times> u8) \<Rightarrow> int" where
  "kbd_read_key ports = kbd_loop ports 0"

section \<open>The console stays inside the screen\<close>

definition vga_ok :: "vga \<Rightarrow> bool" where
  "vga_ok v \<longleftrightarrow> length (vga_cells v) = 2000 \<and> 0 \<le> vga_col v \<and> vga_col v < VGA_COLS \<and>
     0 \<le> vga_row v \<and> vga_row v < VGA_ROWS"

lemma vga_scroll_ok:
  assumes "length (vga_cells v) = 2000" "0 \<le> vga_col v" "vga_col v < VGA_COLS" "0 \<le> vga_row v" "vga_row v \<le> VGA_ROWS"
  shows "vga_ok (vga_scroll v)"
  using assms by (auto simp: vga_ok_def vga_scroll_def VGA_ROWS_def VGA_COLS_def)

lemma vga_putc_ok:
  assumes "vga_ok v"
  shows "\<exists>v'. vga_putc c v = Some v' \<and> vga_ok v'"
proof -
  have v: "length (vga_cells v) = 2000" "0 \<le> vga_col v" "vga_col v < 80" "0 \<le> vga_row v" "vga_row v < 25"
    using assms by (simp_all add: vga_ok_def VGA_ROWS_def VGA_COLS_def)
  define w where "w = v\<lparr> vga_cells := (vga_cells v)[nat (vga_row v * 80 + vga_col v) := vga_cell (vga_attr v) c],
    vga_col := vga_col v + 1 \<rparr>"
  have i: "\<not> (vga_row v * 80 + vga_col v < 0 \<or> vga_row v * 80 + vga_col v \<ge> int (length (vga_cells v)))"
    using v by linarith
  have put: "c \<noteq> CR \<Longrightarrow> c \<noteq> LF \<Longrightarrow> vga_putc c v =
      Some (vga_scroll (if vga_col w \<ge> 80 then w\<lparr> vga_col := 0, vga_row := vga_row w + 1 \<rparr> else w))"
    using i by (simp add: vga_putc_def VGA_COLS_def w_def[symmetric] Let_def)
  have w: "length (vga_cells w) = 2000" "0 \<le> vga_col w" "0 \<le> vga_row w" "vga_row w < 25"
    using v by (simp_all add: w_def)
  have "vga_ok (vga_scroll (if vga_col w \<ge> 80 then w\<lparr> vga_col := 0, vga_row := vga_row w + 1 \<rparr> else w))"
    by (rule vga_scroll_ok) (use w in \<open>simp_all add: VGA_ROWS_def VGA_COLS_def\<close>)
  moreover have "vga_ok (vga_scroll (v\<lparr> vga_col := 0, vga_row := vga_row v + 1 \<rparr>))"
    by (rule vga_scroll_ok) (use v in \<open>simp_all add: VGA_ROWS_def VGA_COLS_def\<close>)
  moreover have "vga_ok (v\<lparr> vga_col := 0 \<rparr>)" using v by (simp add: vga_ok_def VGA_ROWS_def VGA_COLS_def)
  ultimately show ?thesis using put by (cases "c = CR"; cases "c = LF") (simp_all add: vga_putc_def)
qed

lemma vga_puts_ok: "vga_ok v \<Longrightarrow> \<exists>v'. vga_puts s v = Some v' \<and> vga_ok v'"
  unfolding vga_puts_def by (rule fold_opt_inv) (auto intro: vga_putc_ok)

lemma vga_clear_ok: "vga_ok (vga_clear v)"
  by (simp add: vga_clear_def vga_ok_def VGA_ROWS_def VGA_COLS_def)

lemma vga_set_color_ok: "vga_ok (vga_set_color c v) = vga_ok v"
  by (simp add: vga_set_color_def vga_ok_def)


lemma in_set_concat_map: "(\<forall>x\<in>set (concat (map f xs)). P x) \<longleftrightarrow> (\<forall>x\<in>set xs. \<forall>y\<in>set (f x). P y)"
  by auto

text \<open>The menu makes no cursor calls on this console.\<close>

definition shown :: "event \<Rightarrow> bool" where
  "shown ev \<longleftrightarrow> (case ev of EvCursor _ _ \<Rightarrow> False | EvShow _ \<Rightarrow> False | _ \<Rightarrow> True)"

lemma shown_simps [simp]: "shown (EvPrint s)" "shown (EvColor c)" "shown EvClear"
  "\<not> shown (EvCursor r c')" "\<not> shown (EvShow b)"
  by (simp_all add: shown_def)

lemma vga_event_ok: "vga_ok v \<Longrightarrow> shown ev \<Longrightarrow> \<exists>v'. vga_event ev v = Some v' \<and> vga_ok v'"
  by (cases ev) (auto simp: vga_puts_ok vga_clear_ok vga_set_color_ok)

lemma print_chunks_shown: "\<forall>ev\<in>set (print_chunks mx s n). shown ev"
proof (induction mx s n rule: print_chunks.induct)
  case (1 mx s n)
  then show ?case by (subst print_chunks.simps) (auto simp: Let_def)
qed

lemma print_n_shown: "\<forall>ev\<in>set (print_n s n). shown ev"
  using print_chunks_shown by (simp add: print_n_def)

lemma rows_shown:
  "\<forall>ev\<in>set (set_color ops c). shown ev" "\<forall>ev\<in>set (border_row ops lpad inner l r). shown ev"
  "\<forall>ev\<in>set (title_row ops lpad inner). shown ev" "\<forall>ev\<in>set (entry_row ops lpad inner sel name). shown ev"
  "\<forall>ev\<in>set (hint_row ops cols countdown). shown ev"
  using print_n_shown
  by (auto simp: set_color_def border_row_def title_row_def entry_row_def hint_row_def LMARGIN_def WALL_def ENDLINE_def
      Let_def split: if_splits)

lemma render_shown: "\<forall>ev\<in>set (render_menu cfg sel cd vga_ops row). shown ev"
  using rows_shown by (auto simp: render_menu_def Let_def vga_ops_def)

lemma menu_step_shown:
  "menu_step cfg vga_ops key st = (evs, act, st') \<Longrightarrow> \<forall>ev\<in>set evs. shown ev"
proof -
  assume s: "menu_step cfg vga_ops key st = (evs, act, st')"
  have sc: "show_cursor vga_ops b = []" for b by (simp add: show_cursor_def vga_ops_def)
  have tick: "\<forall>ev\<in>set (fst (menu_tick cfg vga_ops st)). shown ev" for st
    using render_shown by (simp add: menu_tick_def Let_def sc)
  show ?thesis
    using s render_shown tick
    by (auto simp: menu_step_def Let_def sc split: if_splits prod.splits) (metis fst_conv)+
qed

lemma menu_loop_shown: "\<forall>ev\<in>set (fst (menu_loop cfg vga_ops keys st)). shown ev"
proof (induction keys arbitrary: st)
  case (Cons key keys)
  obtain evs act st' where s: "menu_step cfg vga_ops key st = (evs, act, st')" by (metis prod_cases3)
  then show ?case using menu_step_shown[OF s] Cons[of st'] by (cases act) (auto split: prod.splits)
qed simp

section \<open>Properties\<close>

lemma vga_menu_ok:
  assumes "vga_ok v"
  shows "\<exists>v'. fold_opt vga_event (fst (menu_run cfg vga_ops keys)) v = Some v' \<and> vga_ok v'"
proof (rule fold_opt_inv)
  show "vga_ok v" by (rule assms)
  fix ev v
  assume "ev \<in> set (fst (menu_run cfg vga_ops keys))" "vga_ok v"
  moreover have "\<forall>ev\<in>set (fst (menu_run cfg vga_ops keys)). shown ev"
    using menu_loop_shown[of cfg keys "menu_start cfg"] render_shown
    by (auto simp: menu_run_def Let_def show_cursor_def vga_ops_def[symmetric] split: prod.splits if_splits)
      (auto simp: vga_ops_def)
  ultimately show "\<exists>v'. vga_event ev v = Some v' \<and> vga_ok v'" using vga_event_ok by blast
qed

text \<open>
  C31. Whatever the configuration and the keys, everything the menu prints on the text console is
  written inside the 80 by 25 cells of the frame buffer, lines wrap and scroll, and the cursor
  stays on the screen.
\<close>

theorem vga_menu_in_screen:
  assumes "vga_ok v"
  shows "\<exists>v'. fold_opt vga_event (fst (menu_run cfg vga_ops keys)) v = Some v' \<and> vga_ok v'"
  using assms by (rule vga_menu_ok)

theorem vga_menu_in_screen_witness:
  "\<exists>v'. fold_opt vga_event (fst (menu_run menu_sample vga_ops [0x101, 13]))
     (vga_clear \<lparr> vga_cells = [], vga_col = 0, vga_row = 0, vga_attr = 0 \<rparr>) = Some v' \<and> vga_ok v'"
  using vga_menu_in_screen[OF vga_clear_ok] by blast

text \<open>
  The keyboard routine always returns: a key the menu understands or a character of the
  table, or \<open>-1\<close> exactly when no poll within the limit delivers a key.
\<close>

theorem kbd_read_key_first:
  "kbd_read_key ports = (case List.find (\<lambda>k. k \<noteq> None)
      (map (\<lambda>t. scan_key (fst (ports t)) (snd (ports t))) [0..<KBD_POLLS]) of
     Some (Some k) \<Rightarrow> k | _ \<Rightarrow> -1)"
proof -
  have "kbd_loop ports t = (case List.find (\<lambda>k. k \<noteq> None)
      (map (\<lambda>t. scan_key (fst (ports t)) (snd (ports t))) [t..<KBD_POLLS]) of
     Some (Some k) \<Rightarrow> k | _ \<Rightarrow> -1)" for t
  proof (induction ports t rule: kbd_loop.induct)
    case (1 ports t)
    then show ?case by (subst kbd_loop.simps) (auto simp: upt_conv_Cons split: option.splits)
  qed
  then show ?thesis by (simp add: kbd_read_key_def)
qed

end
