(* ===== verification/Mem.thy ===== *)
theory Mem
  imports Prelude
begin

text \<open>
  The freestanding \<^verbatim>\<open>memset\<close>, \<^verbatim>\<open>memcpy\<close>, \<^verbatim>\<open>memmove\<close> and \<^verbatim>\<open>memcmp\<close> of
  \<^verbatim>\<open>src/common/mem.c\<close> over a flat byte memory.  Memory is a total function from
  64-bit addresses to bytes; a pointer increment is word addition, so it wraps at
  the end of the address space as on the machine.  The loops run \<^verbatim>\<open>while (n--)\<close>,
  which is structural recursion on \<open>n\<close>.
\<close>

type_synonym mem = "u64 \<Rightarrow> u8"

section \<open>Operations\<close>

text \<open>\<^verbatim>\<open>while (n--) *d++ = (u8)c;\<close>\<close>

fun mem_memset :: "mem \<Rightarrow> u64 \<Rightarrow> u8 \<Rightarrow> nat \<Rightarrow> mem" where
  "mem_memset m d c 0 = m"
| "mem_memset m d c (Suc n) = mem_memset (m(d := c)) (d + 1) c n"

text \<open>\<^verbatim>\<open>while (n--) *d++ = *s++;\<close>\<close>

fun mem_memcpy :: "mem \<Rightarrow> u64 \<Rightarrow> u64 \<Rightarrow> nat \<Rightarrow> mem" where
  "mem_memcpy m d s 0 = m"
| "mem_memcpy m d s (Suc n) = mem_memcpy (m(d := m s)) (d + 1) (s + 1) n"

text \<open>\<^verbatim>\<open>while (n--) *--d = *--s;\<close>\<close>

fun mem_copy_down :: "mem \<Rightarrow> u64 \<Rightarrow> u64 \<Rightarrow> nat \<Rightarrow> mem" where
  "mem_copy_down m d s 0 = m"
| "mem_copy_down m d s (Suc n) =
     mem_copy_down (m(d - 1 := m (s - 1))) (d - 1) (s - 1) n"

definition mem_memmove :: "mem \<Rightarrow> u64 \<Rightarrow> u64 \<Rightarrow> nat \<Rightarrow> mem" where
  "mem_memmove m d s n =
     (if d < s then mem_memcpy m d s n
      else mem_copy_down m (d + of_nat n) (s + of_nat n) n)"

fun mem_memcmp :: "mem \<Rightarrow> u64 \<Rightarrow> u64 \<Rightarrow> nat \<Rightarrow> int" where
  "mem_memcmp m p q 0 = 0"
| "mem_memcmp m p q (Suc n) =
     (if m p \<noteq> m q then uint (m p) - uint (m q) else mem_memcmp m (p + 1) (q + 1) n)"

section \<open>Specification\<close>

text \<open>
  The bytes of an object that does not wrap around the end of memory, and the memory
  after replacing such an object's bytes by those another object had before.
\<close>

definition no_wrap :: "u64 \<Rightarrow> nat \<Rightarrow> bool" where
  "no_wrap a n \<longleftrightarrow> unat a + n < 2 ^ 64"

definition in_range :: "u64 \<Rightarrow> nat \<Rightarrow> u64 \<Rightarrow> bool" where
  "in_range a n x \<longleftrightarrow> unat a \<le> unat x \<and> unat x < unat a + n"

definition block_copy :: "mem \<Rightarrow> u64 \<Rightarrow> u64 \<Rightarrow> nat \<Rightarrow> mem" where
  "block_copy m d s n = (\<lambda>x. if in_range d n x then m (x - d + s) else m x)"

definition mem_bytes :: "mem \<Rightarrow> u64 \<Rightarrow> nat \<Rightarrow> u8 list" where
  "mem_bytes m a n = map (\<lambda>i. m (a + of_nat i)) [0..<n]"

subsection \<open>Address arithmetic\<close>

lemma no_wrap_Suc:
  assumes "no_wrap a (Suc n)"
  shows "unat (a + 1) = Suc (unat a)" and "no_wrap (a + 1) n"
proof -
  from assms have lt: "Suc (unat a) < 2 ^ 64"
    by (simp add: no_wrap_def)
  then show *: "unat (a + 1) = Suc (unat a)"
    by (simp add: unat_word_ariths)
  with assms show "no_wrap (a + 1) n"
    by (simp add: no_wrap_def)
qed

lemma in_range_Suc:
  assumes "no_wrap a (Suc n)"
  shows "in_range a (Suc n) x \<longleftrightarrow> x = a \<or> in_range (a + 1) n x"
  using no_wrap_Suc [OF assms]
  by (auto simp: in_range_def word_unat_eq_iff)

lemma in_range_Suc_top:
  assumes "no_wrap a (Suc n)"
  shows "in_range a (Suc n) x \<longleftrightarrow> x = a + of_nat n \<or> in_range a n x"
proof -
  from assms have "unat (a + of_nat n) = unat a + n"
    by (simp add: no_wrap_def unat_word_ariths unat_of_nat)
  then show ?thesis
    by (auto simp: in_range_def word_unat_eq_iff)
qed

lemma in_range_0 [simp]: "\<not> in_range a 0 x"
  by (simp add: in_range_def)

lemma unat_diff_in_range:
  assumes "in_range d n x" shows "unat (x - d) = unat x - unat d"
  using assms by (simp add: in_range_def unat_sub word_le_nat_alt)

lemma unat_shift_in_range:
  assumes "in_range d n x" and "no_wrap s n"
  shows "unat (x - d + s) = (unat x - unat d) + unat s"
proof -
  have "(unat x - unat d) + unat s < 2 ^ 64"
    using assms by (auto simp: no_wrap_def in_range_def)
  then show ?thesis
    by (simp add: unat_word_ariths(1) unat_diff_in_range [OF assms(1)] del: diff_add_assoc2)
qed

section \<open>Correctness\<close>

lemma memset_range:
  "no_wrap d n \<Longrightarrow> mem_memset m d c n x = (if in_range d n x then c else m x)"
proof (induction m d c n rule: mem_memset.induct)
  case (1 m d c)
  then show ?case by simp
next
  case (2 m d c n)
  have "mem_memset (m(d := c)) (d + 1) c n x
      = (if in_range (d + 1) n x then c else (m(d := c)) x)"
    by (rule "2.IH") (rule no_wrap_Suc(2) [OF "2.prems"])
  then show ?case
    by (auto simp: in_range_Suc [OF "2.prems"])
qed

text \<open>
  Copying upwards is a block copy whenever the destination does not start inside the
  source: the byte read in round \<open>i\<close> has not been written in an earlier round.
\<close>

lemma memcpy_block:
  assumes "no_wrap d n" and "no_wrap s n" and "\<not> (in_range s n d \<and> d \<noteq> s)"
  shows "mem_memcpy m d s n = block_copy m d s n"
  using assms
proof (induction m d s n rule: mem_memcpy.induct)
  case (1 m d s)
  then show ?case by (simp add: block_copy_def)
next
  case (2 m d s n)
  note d1 = no_wrap_Suc [OF "2.prems"(1)] and s1 = no_wrap_Suc [OF "2.prems"(2)]
  have sep: "\<not> (in_range (s + 1) n (d + 1) \<and> d + 1 \<noteq> s + 1)"
    using "2.prems"(3) d1(1) s1(1) by (auto simp: in_range_def)
  have IH: "mem_memcpy (m(d := m s)) (d + 1) (s + 1) n
      = block_copy (m(d := m s)) (d + 1) (s + 1) n"
    by (rule "2.IH") (use d1 s1 sep in auto)
  show ?case
  proof
    fix x
    have fresh: "x - d + s \<noteq> d" if x: "in_range (d + 1) n x"
    proof
      assume eq: "x - d + s = d"
      have x': "in_range d (Suc n) x"
        using x in_range_Suc [OF "2.prems"(1)] by blast
      have lt: "unat x - unat d < Suc n" "0 < unat x - unat d"
        using x d1(1) by (auto simp: in_range_def)
      have "unat d = (unat x - unat d) + unat s"
        using unat_shift_in_range [OF x' "2.prems"(2)] eq by simp
      with lt "2.prems"(3) show False
        by (auto simp: in_range_def)
    qed
    have low: "\<not> in_range (d + 1) n d"
      using d1(1) by (simp add: in_range_def)
    have shift: "m (x - (d + 1) + (s + 1)) = m (x - d + s)"
      by (simp add: algebra_simps)
    show "mem_memcpy m d s (Suc n) x = block_copy m d s (Suc n) x"
    proof (cases "in_range (d + 1) n x")
      case True
      then have "x - (d + 1) + (s + 1) \<noteq> d"
        using fresh by (simp add: algebra_simps)
      with True shift show ?thesis
        unfolding mem_memcpy.simps IH block_copy_def in_range_Suc [OF "2.prems"(1)]
        by (simp only: fun_upd_other if_True simp_thms)
    next
      case False
      then show ?thesis
        by (simp add: IH block_copy_def in_range_Suc [OF "2.prems"(1)] low)
    qed
  qed
qed

text \<open>Copying downwards, from the last byte, is a block copy whenever the destination
  starts at or above the source.\<close>

lemma copy_down_block:
  assumes "no_wrap d n" and "no_wrap s n" and "s \<le> d"
  shows "mem_copy_down m (d + of_nat n) (s + of_nat n) n = block_copy m d s n"
  using assms(1,2)
proof (induction n arbitrary: m)
  case 0
  then show ?case by (simp add: block_copy_def)
next
  case (Suc n)
  have nw: "no_wrap d n" "no_wrap s n"
    using Suc.prems by (simp_all add: no_wrap_def)
  let ?m = "m(d + of_nat n := m (s + of_nat n))"
  have "mem_copy_down m (d + of_nat (Suc n)) (s + of_nat (Suc n)) (Suc n)
      = mem_copy_down ?m (d + of_nat n) (s + of_nat n) n"
    by (simp add: algebra_simps)
  also have "\<dots> = block_copy ?m d s n"
    by (rule Suc.IH) (fact nw)+
  also have "\<dots> = block_copy m d s (Suc n)"
  proof
    fix x
    have top: "unat (d + of_nat n) = unat d + n"
      using Suc.prems by (simp add: no_wrap_def unat_word_ariths unat_of_nat)
    have fresh: "x - d + s \<noteq> d + of_nat n" if x: "in_range d n x"
    proof
      assume eq: "x - d + s = d + of_nat n"
      have "unat d + n = unat x - unat d + unat s"
        using unat_shift_in_range [OF x nw(2)] top unfolding eq by simp
      with x assms(3) show False
        by (auto simp: in_range_def word_le_nat_alt)
    qed
    show "block_copy ?m d s n x = block_copy m d s (Suc n) x"
    proof (cases "in_range d n x")
      case True
      with fresh show ?thesis
        unfolding block_copy_def in_range_Suc_top [OF Suc.prems(1)]
        by (simp only: fun_upd_other if_True simp_thms)
    next
      case False
      then show ?thesis
        by (simp add: block_copy_def in_range_Suc_top [OF Suc.prems(1)] add.commute)
    qed
  qed
  finally show ?case .
qed

text \<open>
  \<^verbatim>\<open>memmove\<close> copies correctly however the two objects overlap: afterwards the
  destination holds the bytes the source had before the call, and every other
  byte of memory is unchanged.  The only hypothesis is that neither object runs
  over the end of the address space.
\<close>

theorem memmove_block_copy:
  assumes "no_wrap d n" and "no_wrap s n"
  shows "mem_memmove m d s n = block_copy m d s n"
proof (cases "d < s")
  case True
  then have "\<not> (in_range s n d \<and> d \<noteq> s)"
    by (auto simp: in_range_def word_less_nat_alt)
  with assms True show ?thesis
    by (simp add: mem_memmove_def memcpy_block)
next
  case False
  with assms show ?thesis
    by (simp add: mem_memmove_def copy_down_block)
qed

theorem memmove_block_copy_witness:
  "no_wrap 0x1002 5 \<and> no_wrap 0x1000 5 \<and>
   mem_memmove (\<lambda>a. ucast a) 0x1002 0x1000 5 0x1005 = 3"
proof -
  have h: "no_wrap 0x1002 5" "no_wrap 0x1000 5"
    by (simp_all add: no_wrap_def)
  show ?thesis
    using h by (simp add: memmove_block_copy [OF h] block_copy_def in_range_def)
qed

lemma block_copy_bytes:
  assumes "no_wrap d n"
  shows "mem_bytes (block_copy m d s n) d n = mem_bytes m s n"
proof (rule nth_equalityI)
  fix i assume "i < length (mem_bytes (block_copy m d s n) d n)"
  then have i: "i < n" by (simp add: mem_bytes_def)
  then have "unat (d + of_nat i) = unat d + i"
    using assms by (simp add: no_wrap_def unat_word_ariths unat_of_nat)
  with i have "in_range d n (d + of_nat i)"
    by (simp add: in_range_def)
  with i show "mem_bytes (block_copy m d s n) d n ! i = mem_bytes m s n ! i"
    by (simp add: mem_bytes_def block_copy_def add.commute)
qed (simp add: mem_bytes_def)

text \<open>
  \<^verbatim>\<open>memcmp\<close> returns zero exactly when the two objects hold the same bytes, and
  otherwise the signed difference of the first pair of bytes that differ.
\<close>

theorem memcmp_zero_iff: "mem_memcmp m p q n = 0 \<longleftrightarrow> mem_bytes m p n = mem_bytes m q n"
proof (induction m p q n rule: mem_memcmp.induct)
  case (1 m p q)
  then show ?case by (simp add: mem_bytes_def)
next
  case (2 m p q n)
  have split: "mem_bytes m a (Suc n) = m a # mem_bytes m (a + 1) n" for a
    by (simp add: mem_bytes_def upt_conv_Cons map_Suc_upt [symmetric] comp_def
        algebra_simps del: upt_Suc)
  show ?case
    using "2.IH" by (auto simp: split word_uint_eq_iff)
qed

end
