(* ===== verification/Elf.thy ===== *)
theory Elf
  imports Mem
begin

text \<open>
  The ELF64 loader of \<^verbatim>\<open>src/os/elf_loader.c\<close> on the flat memory of \<open>Mem\<close>: the file lies
  in memory at the address \<open>buf\<close>, and segments are copied to their physical addresses in
  that same memory.  As in the code the headers are read again in every round, so a segment
  that is loaded over the file would change what follows; \<open>image_ok\<close> excludes that.
\<close>

section \<open>Headers\<close>

definition u64_of_le :: "u8 list \<Rightarrow> u64" where
  "u64_of_le p = ucast (u32_of_le p) OR push_bit 32 (ucast (u32_of_le (drop 4 p)))"

definition rd16 :: "mem \<Rightarrow> u64 \<Rightarrow> u16" where "rd16 m a = u16_of_le (mem_bytes m a 2)"
definition rd32 :: "mem \<Rightarrow> u64 \<Rightarrow> u32" where "rd32 m a = u32_of_le (mem_bytes m a 4)"
definition rd64 :: "mem \<Rightarrow> u64 \<Rightarrow> u64" where "rd64 m a = u64_of_le (mem_bytes m a 8)"

text \<open>Fields of the packed \<^verbatim>\<open>Elf64_Ehdr\<close> (64 bytes) and \<^verbatim>\<open>Elf64_Phdr\<close> (56 bytes).\<close>

definition e_type :: "mem \<Rightarrow> u64 \<Rightarrow> u16" where "e_type m eh = rd16 m (eh + 16)"
definition e_machine :: "mem \<Rightarrow> u64 \<Rightarrow> u16" where "e_machine m eh = rd16 m (eh + 18)"
definition e_entry :: "mem \<Rightarrow> u64 \<Rightarrow> u64" where "e_entry m eh = rd64 m (eh + 24)"
definition e_phoff :: "mem \<Rightarrow> u64 \<Rightarrow> u64" where "e_phoff m eh = rd64 m (eh + 32)"
definition e_phentsize :: "mem \<Rightarrow> u64 \<Rightarrow> u16" where "e_phentsize m eh = rd16 m (eh + 54)"
definition e_phnum :: "mem \<Rightarrow> u64 \<Rightarrow> u16" where "e_phnum m eh = rd16 m (eh + 56)"

record Elf64_Phdr =
  p_type :: u32
  p_offset :: u64
  p_paddr :: u64
  p_filesz :: u64
  p_memsz :: u64

definition read_phdr :: "mem \<Rightarrow> u64 \<Rightarrow> Elf64_Phdr" where
  "read_phdr m a = \<lparr> p_type = rd32 m a, p_offset = rd64 m (a + 8), p_paddr = rd64 m (a + 24),
     p_filesz = rd64 m (a + 32), p_memsz = rd64 m (a + 40) \<rparr>"

definition PT_LOAD :: u32 where "PT_LOAD = 1"
definition ET_EXEC :: u16 where "ET_EXEC = 2"
definition ET_DYN :: u16 where "ET_DYN = 3"
definition EM_X86_64 :: u16 where "EM_X86_64 = 62"
definition EM_AARCH64 :: u16 where "EM_AARCH64 = 183"

section \<open>Operations\<close>

definition mem_set :: "mem \<Rightarrow> u64 \<Rightarrow> u8 \<Rightarrow> u64 \<Rightarrow> mem" where
  "mem_set m dst val len = fold (\<lambda>i m. m(dst + of_nat i := val)) [0..<unat len] m"

definition mem_copy :: "mem \<Rightarrow> u64 \<Rightarrow> u64 \<Rightarrow> u64 \<Rightarrow> mem" where
  "mem_copy m dst src len = fold (\<lambda>i m. m(dst + of_nat i := m (src + of_nat i))) [0..<unat len] m"

text \<open>\<open>arch\<close> is the machine number the build requires, if any.\<close>

definition elf64_valid :: "u16 option \<Rightarrow> mem \<Rightarrow> u64 \<Rightarrow> u64 \<Rightarrow> bool" where
  "elf64_valid arch m buf sz =
     (if sz < 64 then False
      else if m buf \<noteq> 0x7F \<or> m (buf + 1) \<noteq> 0x45 \<or> m (buf + 2) \<noteq> 0x4C \<or> m (buf + 3) \<noteq> 0x46 then False
      else if m (buf + 4) \<noteq> 2 then False
      else if m (buf + 5) \<noteq> 1 then False
      else if e_type m buf \<noteq> ET_EXEC \<and> e_type m buf \<noteq> ET_DYN then False
      else case arch of None \<Rightarrow> True | Some mach \<Rightarrow> e_machine m buf = mach)"

definition phdr_addr :: "mem \<Rightarrow> u64 \<Rightarrow> nat \<Rightarrow> u64" where
  "phdr_addr m buf i = buf + e_phoff m buf + of_nat i * ucast (e_phentsize m buf)"

definition loadable :: "Elf64_Phdr \<Rightarrow> bool" where
  "loadable ph \<longleftrightarrow> p_type ph = PT_LOAD \<and> p_memsz ph \<noteq> 0"

definition load_segment :: "u64 \<Rightarrow> Elf64_Phdr \<Rightarrow> mem \<Rightarrow> mem" where
  "load_segment buf ph m =
     (if \<not> loadable ph then m
      else
        let dest = p_paddr ph;
            m = (if p_filesz ph \<noteq> 0 then mem_copy m dest (buf + p_offset ph) (p_filesz ph) else m)
        in if p_memsz ph > p_filesz ph
           then mem_set m (dest + p_filesz ph) 0 (p_memsz ph - p_filesz ph) else m)"

text \<open>The loop counter is a \<^verbatim>\<open>u16\<close>; it stays below the bound, which is one too.\<close>

function elf64_loop :: "u64 \<Rightarrow> nat \<Rightarrow> mem \<Rightarrow> mem" where
  "elf64_loop buf i m =
     (if i < unat (e_phnum m buf)
      then elf64_loop buf (i + 1) (load_segment buf (read_phdr m (phdr_addr m buf i)) m)
      else m)"
  by pat_completeness auto
termination
proof (relation "measure (\<lambda>(_, i, _). 65536 - i)", goal_cases)
  case (2 buf i m)
  moreover have "unat (e_phnum m buf) < 65536" using unsigned_less[of "e_phnum m buf"] by simp
  ultimately show ?case by simp
qed simp

declare elf64_loop.simps [simp del]

definition elf64_load :: "u16 option \<Rightarrow> mem \<Rightarrow> u64 \<Rightarrow> u64 \<Rightarrow> u64 \<times> mem" where
  "elf64_load arch m buf sz =
     (if \<not> elf64_valid arch m buf sz then (0, m)
      else let m = elf64_loop buf 0 m in (e_entry m buf, m))"

section \<open>Loading one segment\<close>

lemma mem_set_memset: "mem_set m d c n = mem_memset m d c (unat n)"
proof -
  have "fold (\<lambda>i m. m(d + of_nat i := c)) [0..<k] m = mem_memset m d c k" for k d m
  proof (induction k arbitrary: d m)
    case (Suc k)
    have "fold (\<lambda>i m. m(d + of_nat i := c)) [0..<Suc k] m
        = fold (\<lambda>i m. m(d + of_nat i := c)) (map Suc [0..<k]) (m(d := c))"
      by (simp add: upt_conv_Cons map_Suc_upt del: upt_Suc)
    also have "\<dots> = fold (\<lambda>i m. m(d + 1 + of_nat i := c)) [0..<k] (m(d := c))"
      by (simp add: fold_map comp_def algebra_simps)
    also have "\<dots> = mem_memset (m(d := c)) (d + 1) c k" by (rule Suc)
    finally show ?case by (simp only: mem_memset.simps)
  qed simp
  then show ?thesis by (simp add: mem_set_def)
qed

lemma mem_copy_memcpy: "mem_copy m d s n = mem_memcpy m d s (unat n)"
proof -
  have "fold (\<lambda>i m. m(d + of_nat i := m (s + of_nat i))) [0..<k] m = mem_memcpy m d s k" for k d s m
  proof (induction k arbitrary: d s m)
    case (Suc k)
    have "fold (\<lambda>i m. m(d + of_nat i := m (s + of_nat i))) [0..<Suc k] m
        = fold (\<lambda>i m. m(d + of_nat i := m (s + of_nat i))) (map Suc [0..<k]) (m(d := m s))"
      by (simp add: upt_conv_Cons map_Suc_upt del: upt_Suc)
    also have "\<dots> = fold (\<lambda>i m. m(d + 1 + of_nat i := m (s + 1 + of_nat i))) [0..<k] (m(d := m s))"
      by (simp add: fold_map comp_def algebra_simps)
    also have "\<dots> = mem_memcpy (m(d := m s)) (d + 1) (s + 1) k" by (rule Suc)
    finally show ?case by (simp only: mem_memcpy.simps)
  qed simp
  then show ?thesis by (simp add: mem_copy_def)
qed

text \<open>The addresses a segment occupies, and what the memory holds there afterwards.\<close>

definition seg_size :: "Elf64_Phdr \<Rightarrow> nat" where
  "seg_size ph = max (unat (p_filesz ph)) (unat (p_memsz ph))"

definition in_seg :: "Elf64_Phdr \<Rightarrow> u64 \<Rightarrow> bool" where
  "in_seg ph x \<longleftrightarrow> loadable ph \<and> in_range (p_paddr ph) (seg_size ph) x"

definition seg_byte :: "mem \<Rightarrow> u64 \<Rightarrow> Elf64_Phdr \<Rightarrow> u64 \<Rightarrow> u8" where
  "seg_byte m buf ph x =
     (if in_range (p_paddr ph) (unat (p_filesz ph)) x then m (x - p_paddr ph + (buf + p_offset ph)) else 0)"

definition seg_ok :: "u64 \<Rightarrow> nat \<Rightarrow> Elf64_Phdr \<Rightarrow> bool" where
  "seg_ok buf sz ph \<longleftrightarrow> loadable ph \<longrightarrow>
     no_wrap (p_paddr ph) (seg_size ph) \<and> unat (p_offset ph) + unat (p_filesz ph) \<le> sz \<and>
     (\<forall>x. in_range buf sz x \<longrightarrow> \<not> in_seg ph x)"

lemma load_segment_at:
  assumes "no_wrap buf sz" and "seg_ok buf sz ph"
  shows "load_segment buf ph m x = (if in_seg ph x then seg_byte m buf ph x else m x)"
proof (cases "loadable ph")
  case True
  let ?d = "p_paddr ph" and ?s = "buf + p_offset ph" and ?f = "unat (p_filesz ph)" and ?mm = "unat (p_memsz ph)"
  have ok: "no_wrap ?d (seg_size ph)" "unat (p_offset ph) + ?f \<le> sz"
    using assms(2) True by (simp_all add: seg_ok_def)
  have us: "unat ?s = unat buf + unat (p_offset ph)"
    using assms(1) ok(2) by (simp add: no_wrap_def unat_word_ariths)
  have nw: "no_wrap ?d ?f" "no_wrap ?s ?f"
    using ok assms(1) us by (simp_all add: no_wrap_def seg_size_def)
  have sep: "\<not> (in_range ?s ?f ?d \<and> ?d \<noteq> ?s)"
  proof
    assume a: "in_range ?s ?f ?d \<and> ?d \<noteq> ?s"
    then have "in_range buf sz ?d" using us ok(2) by (auto simp: in_range_def)
    moreover have "in_seg ph ?d"
      using a True by (auto simp: in_seg_def in_range_def seg_size_def)
    ultimately show False using assms(2) True by (auto simp: seg_ok_def)
  qed
  define m1 where "m1 = (if p_filesz ph \<noteq> 0 then mem_copy m ?d ?s (p_filesz ph) else m)"
  have m1: "m1 = block_copy m ?d ?s ?f"
    by (auto simp: m1_def mem_copy_memcpy memcpy_block[OF nw sep] block_copy_def)
  show ?thesis
  proof (cases "p_memsz ph > p_filesz ph")
    case bss: True
    have ud: "unat (?d + p_filesz ph) = unat ?d + ?f" using nw(1) by (simp add: no_wrap_def unat_word_ariths)
    have n: "unat (p_memsz ph - p_filesz ph) = ?mm - ?f" using bss by (simp add: unat_sub)
    have lt: "?f < ?mm" using bss by (simp add: word_less_nat_alt)
    have "no_wrap (?d + p_filesz ph) (?mm - ?f)" using ok(1) ud lt by (simp add: no_wrap_def seg_size_def)
    then have "load_segment buf ph m x = (if in_range (?d + p_filesz ph) (?mm - ?f) x then 0 else m1 x)"
      using True bss by (simp add: load_segment_def m1_def[symmetric] mem_set_memset memset_range n)
    then show ?thesis
      using True lt ud by (auto simp: m1 block_copy_def in_seg_def seg_byte_def seg_size_def in_range_def)
  next
    case False
    then have "load_segment buf ph m x = m1 x" using True by (simp add: load_segment_def m1_def Let_def)
    then show ?thesis
      using True False by (auto simp: m1 block_copy_def in_seg_def seg_byte_def seg_size_def word_less_nat_alt max_def)
  qed
qed (simp add: load_segment_def in_seg_def)

section \<open>Loading the image\<close>

definition phdr_no :: "mem \<Rightarrow> u64 \<Rightarrow> nat \<Rightarrow> Elf64_Phdr" where
  "phdr_no m buf i = read_phdr m (phdr_addr m buf i)"

text \<open>
  An image within its file: the headers and the file part of every segment lie inside the
  \<open>sz\<close> bytes of the buffer, no segment is loaded over the buffer, and segments do not overlap.
\<close>

definition image_ok :: "mem \<Rightarrow> u64 \<Rightarrow> nat \<Rightarrow> bool" where
  "image_ok m buf sz \<longleftrightarrow> no_wrap buf sz \<and> 64 \<le> sz \<and>
     (\<forall>i<unat (e_phnum m buf). unat (e_phoff m buf) + i * unat (e_phentsize m buf) + 56 \<le> sz \<and>
        seg_ok buf sz (phdr_no m buf i) \<and>
        (\<forall>j<i. \<forall>x. in_seg (phdr_no m buf i) x \<longrightarrow> \<not> in_seg (phdr_no m buf j) x))"

definition same_file :: "mem \<Rightarrow> mem \<Rightarrow> u64 \<Rightarrow> nat \<Rightarrow> bool" where
  "same_file m m' buf sz \<longleftrightarrow> (\<forall>x. in_range buf sz x \<longrightarrow> m' x = m x)"

lemma same_bytes:
  assumes "same_file m m' buf sz" and "no_wrap buf sz" and "a = buf + of_nat k" and "k + n \<le> sz"
  shows "mem_bytes m' a n = mem_bytes m a n"
proof -
  have "m' (a + of_nat i) = m (a + of_nat i)" if "i < n" for i
  proof -
    have "unat (buf + of_nat (k + i)) = unat buf + (k + i)"
      using assms(2,4) that by (simp add: no_wrap_def unat_word_ariths unat_of_nat)
    then have "in_range buf sz (buf + of_nat (k + i))" using assms(4) that by (simp add: in_range_def)
    then show ?thesis using assms(1,3) by (simp add: same_file_def add.assoc)
  qed
  then show ?thesis by (simp add: mem_bytes_def)
qed

lemma same_header:
  assumes "same_file m m' buf sz" and "no_wrap buf sz" and "64 \<le> sz"
  shows "e_phnum m' buf = e_phnum m buf" "e_phoff m' buf = e_phoff m buf"
    "e_phentsize m' buf = e_phentsize m buf" "e_entry m' buf = e_entry m buf"
  using assms(3) same_bytes[OF assms(1,2), of _ 56 2] same_bytes[OF assms(1,2), of _ 32 8]
    same_bytes[OF assms(1,2), of _ 54 2] same_bytes[OF assms(1,2), of _ 24 8]
  by (simp_all add: e_phnum_def e_phoff_def e_phentsize_def e_entry_def rd16_def rd64_def)

lemma same_phdr:
  assumes "same_file m m' buf sz" and "no_wrap buf sz" and "64 \<le> sz"
    and "unat (e_phoff m buf) + i * unat (e_phentsize m buf) + 56 \<le> sz"
  shows "phdr_no m' buf i = phdr_no m buf i"
proof -
  let ?k = "unat (e_phoff m buf) + i * unat (e_phentsize m buf)"
  have a: "phdr_addr m buf i = buf + of_nat ?k" "phdr_addr m' buf i = buf + of_nat ?k"
    using same_header[OF assms(1-3)] by (simp_all add: phdr_addr_def add.assoc)
  have "mem_bytes m' (buf + of_nat ?k + of_nat d) n = mem_bytes m (buf + of_nat ?k + of_nat d) n" if "d + n \<le> 56" for d n
    using same_bytes[OF assms(1,2), of "buf + of_nat ?k + of_nat d" "?k + d" n] assms(4) that by (simp add: add.assoc)
  from this[of 0 4] this[of 8 8] this[of 24 8] this[of 32 8] this[of 40 8] show ?thesis
    unfolding phdr_no_def a by (simp add: read_phdr_def rd32_def rd64_def)
qed

text \<open>The memory after the first \<open>i\<close> program headers.\<close>

definition loaded :: "mem \<Rightarrow> u64 \<Rightarrow> nat \<Rightarrow> mem \<Rightarrow> bool" where
  "loaded m buf i m' \<longleftrightarrow>
     (\<forall>j<i. \<forall>x. in_seg (phdr_no m buf j) x \<longrightarrow> m' x = seg_byte m buf (phdr_no m buf j) x) \<and>
     (\<forall>x. (\<forall>j<i. \<not> in_seg (phdr_no m buf j) x) \<longrightarrow> m' x = m x)"

lemma loaded_same_file:
  assumes "loaded m buf i m'" and "image_ok m buf sz" and "i \<le> unat (e_phnum m buf)"
  shows "same_file m m' buf sz"
  using assms unfolding same_file_def loaded_def image_ok_def seg_ok_def in_seg_def
  by (meson order.strict_trans2)

lemma seg_byte_same:
  assumes "same_file m m' buf sz" and "no_wrap buf sz" and "seg_ok buf sz ph" and "in_seg ph x"
  shows "seg_byte m' buf ph x = seg_byte m buf ph x"
proof (cases "in_range (p_paddr ph) (unat (p_filesz ph)) x")
  case True
  have off: "unat (p_offset ph) + unat (p_filesz ph) \<le> sz"
    using assms(3,4) by (auto simp: seg_ok_def in_seg_def)
  have us: "unat (buf + p_offset ph) = unat buf + unat (p_offset ph)"
    using assms(2) off by (simp add: no_wrap_def unat_word_ariths)
  have "no_wrap (buf + p_offset ph) (unat (p_filesz ph))"
    using assms(2) off us by (simp add: no_wrap_def)
  then have "unat (x - p_paddr ph + (buf + p_offset ph)) = unat x - unat (p_paddr ph) + unat (buf + p_offset ph)"
    by (rule unat_shift_in_range[OF True])
  then have "in_range buf sz (x - p_paddr ph + (buf + p_offset ph))"
    using True off us unfolding in_range_def by linarith
  then show ?thesis using assms(1) True by (simp add: seg_byte_def same_file_def)
qed (simp add: seg_byte_def)

lemma elf64_loop_loaded:
  assumes "image_ok m buf sz" and "loaded m buf i m'" and "i \<le> unat (e_phnum m buf)"
  shows "loaded m buf (unat (e_phnum m buf)) (elf64_loop buf i m')"
  using assms(2,3)
proof (induction "unat (e_phnum m buf) - i" arbitrary: i m')
  case 0
  then have i: "i = unat (e_phnum m buf)" by simp
  have "same_file m m' buf sz" by (rule loaded_same_file[OF 0(2) assms(1) 0(3)])
  then have "e_phnum m' buf = e_phnum m buf" using same_header(1) assms(1) by (auto simp: image_ok_def)
  then show ?case using 0(2) i by (subst elf64_loop.simps) simp
next
  case (Suc k)
  then have lt: "i < unat (e_phnum m buf)" by linarith
  let ?ph = "phdr_no m buf i"
  have im: "no_wrap buf sz" "64 \<le> sz" "seg_ok buf sz ?ph"
      "unat (e_phoff m buf) + i * unat (e_phentsize m buf) + 56 \<le> sz"
      "\<And>j x. j < i \<Longrightarrow> in_seg ?ph x \<Longrightarrow> \<not> in_seg (phdr_no m buf j) x"
    using assms(1) lt unfolding image_ok_def by blast+
  have same: "same_file m m' buf sz" by (rule loaded_same_file[OF Suc(3) assms(1)]) (use lt in simp)
  note h = same_header[OF same im(1,2)] and p = same_phdr[OF same im(1,2,4)]
  let ?m = "load_segment buf ?ph m'"
  have "loaded m buf (Suc i) ?m"
    unfolding loaded_def load_segment_at[OF im(1,3)]
    using Suc(3) im(5) seg_byte_same[OF same im(1,3)] by (auto simp: loaded_def less_Suc_eq)
  then have "loaded m buf (unat (e_phnum m buf)) (elf64_loop buf (Suc i) ?m)"
    using Suc(1)[of "Suc i" ?m] Suc(2) lt by simp
  then show ?case using lt by (subst elf64_loop.simps) (simp add: h p[unfolded phdr_no_def] phdr_no_def)
qed

lemma elf64_load_loaded:
  assumes "elf64_valid arch m buf sz" and "image_ok m buf (unat sz)"
  shows "fst (elf64_load arch m buf sz) = e_entry m buf"
    and "loaded m buf (unat (e_phnum m buf)) (snd (elf64_load arch m buf sz))"
proof -
  have "loaded m buf 0 m" by (simp add: loaded_def)
  then have l: "loaded m buf (unat (e_phnum m buf)) (elf64_loop buf 0 m)"
    using elf64_loop_loaded[OF assms(2)] by blast
  have "same_file m (elf64_loop buf 0 m) buf (unat sz)" by (rule loaded_same_file[OF l assms(2) order.refl])
  then have "e_entry (elf64_loop buf 0 m) buf = e_entry m buf"
    using same_header(4) assms(2) by (auto simp: image_ok_def)
  then show "fst (elf64_load arch m buf sz) = e_entry m buf"
    and "loaded m buf (unat (e_phnum m buf)) (snd (elf64_load arch m buf sz))"
    using l assms(1) by (simp_all add: elf64_load_def Let_def)
qed

section \<open>Properties\<close>

text \<open>
  C10. Loading a valid image whose parts lie inside its file and do not overlap: the entry
  point returned is the one in the header; every loadable segment holds its bytes of the file
  followed by zeros; and no other byte of memory, the file included, has changed.
\<close>

theorem elf64_load_image:
  assumes "elf64_valid arch m buf sz" and "image_ok m buf (unat sz)"
  shows "fst (elf64_load arch m buf sz) = e_entry m buf \<and>
    (\<forall>i<unat (e_phnum m buf). \<forall>x. in_seg (phdr_no m buf i) x \<longrightarrow>
       snd (elf64_load arch m buf sz) x = seg_byte m buf (phdr_no m buf i) x) \<and>
    (\<forall>x. (\<forall>i<unat (e_phnum m buf). \<not> in_seg (phdr_no m buf i) x) \<longrightarrow>
       snd (elf64_load arch m buf sz) x = m x)"
  using elf64_load_loaded[OF assms] by (auto simp: loaded_def)

text \<open>A file of 124 bytes at \<open>0x1000\<close> with one segment of four bytes and four zeros.\<close>

definition sample_elf :: "u8 list" where
  "sample_elf = [0x7F, 0x45, 0x4C, 0x46, 2, 1, 1, 0, 0, 0, 0, 0, 0, 0, 0, 0] @ [2, 0, 62, 0, 1, 0, 0, 0] @
     [0, 0, 0x10, 0, 0, 0, 0, 0] @ [64, 0, 0, 0, 0, 0, 0, 0] @ replicate 14 0 @ [56, 0, 1, 0, 0, 0, 0, 0, 0, 0] @
     [1, 0, 0, 0, 5, 0, 0, 0] @ [120, 0, 0, 0, 0, 0, 0, 0] @ replicate 8 0 @ [0, 0, 0x10, 0, 0, 0, 0, 0] @
     [4, 0, 0, 0, 0, 0, 0, 0] @ [8, 0, 0, 0, 0, 0, 0, 0] @ replicate 8 0 @ [1, 2, 3, 4]"

definition sample_mem :: mem where
  "sample_mem x = (if 0x1000 \<le> x \<and> x < 0x107C then sample_elf ! unat (x - 0x1000) else 0xAA)"

lemma sample_elf_fields:
  "e_phnum sample_mem 0x1000 = 1" "e_phoff sample_mem 0x1000 = 64" "e_phentsize sample_mem 0x1000 = 56"
  "e_entry sample_mem 0x1000 = 0x100000" "elf64_valid (Some EM_X86_64) sample_mem 0x1000 124"
  "phdr_no sample_mem 0x1000 0 = \<lparr> p_type = 1, p_offset = 120, p_paddr = 0x100000, p_filesz = 4, p_memsz = 8 \<rparr>"
  by code_simp+

lemma sample_image_ok: "image_ok sample_mem 0x1000 124"
proof -
  have "in_range 0x1000 124 x \<longrightarrow> \<not> in_range (0x100000 :: u64) 8 x" for x
    by (auto simp: in_range_def)
  then have "seg_ok 0x1000 124 (phdr_no sample_mem 0x1000 0)"
    by (simp add: seg_ok_def sample_elf_fields(6) in_seg_def seg_size_def no_wrap_def)
  then show ?thesis
    by (simp add: image_ok_def sample_elf_fields(1-3) no_wrap_def)
qed

theorem elf64_load_image_witness:
  "fst (elf64_load (Some EM_X86_64) sample_mem 0x1000 124) = 0x100000 \<and>
   mem_bytes (snd (elf64_load (Some EM_X86_64) sample_mem 0x1000 124)) 0x100000 9 = [1, 2, 3, 4, 0, 0, 0, 0, 0xAA]"
proof -
  have ok: "image_ok sample_mem 0x1000 (unat (124 :: u64))" using sample_image_ok by simp
  let ?m = "snd (elf64_load (Some EM_X86_64) sample_mem 0x1000 124)" and ?ph = "phdr_no sample_mem 0x1000 0"
  note l = elf64_load_image[OF sample_elf_fields(5) ok]
  have seg: "in_seg ?ph x = in_range 0x100000 8 x" for x
    by (simp add: in_seg_def sample_elf_fields loadable_def PT_LOAD_def seg_size_def)
  have at: "?m (0x100000 + of_nat i) = seg_byte sample_mem 0x1000 ?ph (0x100000 + of_nat i)" if "i < 8" for i
    using l that seg by (simp add: sample_elf_fields(1) in_range_def unat_word_ariths unat_of_nat)
  have "sample_mem 0x1078 = 1" "sample_mem 0x1079 = 2" "sample_mem 0x107A = 3" "sample_mem 0x107B = 4"
      "sample_mem 0x100008 = 0xAA"
    by code_simp+
  moreover have "?m 0x100008 = sample_mem 0x100008"
    using l seg by (simp add: sample_elf_fields(1) in_range_def)
  moreover have "mem_bytes ?m 0x100000 9 = map (\<lambda>i. ?m (0x100000 + of_nat i)) [0..<8] @ [?m 0x100008]"
    by (simp add: mem_bytes_def upt_conv_Cons)
  moreover have "map (\<lambda>i. ?m (0x100000 + of_nat i)) [0..<8]
      = map (\<lambda>i. seg_byte sample_mem 0x1000 ?ph (0x100000 + of_nat i)) [0..<8]"
    by (rule map_cong[OF refl], rule at) simp
  ultimately have "mem_bytes ?m 0x100000 9 = [1, 2, 3, 4, 0, 0, 0, 0, 0xAA]"
    by (simp add: sample_elf_fields(6) seg_byte_def in_range_def upt_conv_Cons)
  then show ?thesis using l by (simp add: sample_elf_fields(4))
qed

end
