(* ===== verification/Disk.thy ===== *)
theory Disk
  imports Prelude
begin

text \<open>
  The BIOS disk driver of \<^verbatim>\<open>src/bios/stage2/disk.c\<close>.  The firmware's INT 13h extended read is
  the parameter \<open>dk_int13\<close>: given the drive and the disk address packet it gives the bytes of
  the bounce buffer, or \<open>None\<close> when it sets the carry flag.  The driver has two builds; in the
  64-bit one no interrupt can be made and \<^verbatim>\<open>disk_read\<close> returns success without reading.

  \<open>sector_dev\<close> is what the file system relies on: a read delivers the sectors of an image.
\<close>

section \<open>Operations\<close>

datatype build = RealMode | LongMode

record DAP =
  dap_size :: u8
  dap_reserved :: u8
  dap_sectors :: u16
  dap_offset :: u16
  dap_segment :: u16
  dap_lba :: u64

record disk =
  dk_build :: build
  dk_int13 :: "u8 \<Rightarrow> DAP \<Rightarrow> u8 list option"
  g_drive :: u8

definition DISK_BOUNCE_ADDR :: u64 where "DISK_BOUNCE_ADDR = 0x8000"

definition disk_init :: "u8 \<Rightarrow> disk \<Rightarrow> disk" where
  "disk_init drive dk = dk\<lparr> g_drive := drive \<rparr>"

definition disk_drive :: "disk \<Rightarrow> u8" where
  "disk_drive dk = g_drive dk"

definition make_dap :: "u64 \<Rightarrow> u32 \<Rightarrow> DAP" where
  "make_dap lba count = \<lparr> dap_size = 16, dap_reserved = 0,
     dap_sectors = ucast (if count > 127 then 127 else count),
     dap_offset = ucast (DISK_BOUNCE_ADDR AND 0xFFFF),
     dap_segment = ucast (drop_bit 4 DISK_BOUNCE_ADDR AND 0xF000),
     dap_lba = lba \<rparr>"

text \<open>
  The result holds the return code and the caller's buffer; \<open>None\<close> is a copy beyond its end.
\<close>

definition disk_read :: "disk \<Rightarrow> u64 \<Rightarrow> u32 \<Rightarrow> u8 list \<Rightarrow> (int \<times> u8 list) option" where
  "disk_read dk lba count buf =
     (let dap = make_dap lba count
      in case dk_build dk of
           LongMode \<Rightarrow> Some (0, buf)
         | RealMode \<Rightarrow>
             (case dk_int13 dk (g_drive dk) dap of
                None \<Rightarrow> Some (-1, buf)
              | Some bounce \<Rightarrow>
                  let bytes = take (unat (dap_sectors dap) * 512) bounce
                  in if length bytes \<le> length buf then Some (0, write_at buf 0 bytes) else None))"

section \<open>The interface to the file system\<close>

text \<open>The \<open>n\<close> sectors of an image from \<open>lba\<close> on.\<close>

definition sectors :: "(u64 \<Rightarrow> u8 list) \<Rightarrow> u64 \<Rightarrow> nat \<Rightarrow> u8 list" where
  "sectors img lba n = concat (map (\<lambda>i. img (lba + of_nat i)) [0..<n])"

lemma length_sectors: "(\<And>l. length (img l) = 512) \<Longrightarrow> length (sectors img lba n) = 512 * n"
  by (induction n) (simp_all add: sectors_def)

locale sector_dev =
  fixes dk :: disk and img :: "u64 \<Rightarrow> u8 list"
  assumes length_img: "length (img lba) = 512"
    and read_sectors: "unat count \<le> 127 \<Longrightarrow> 512 * unat count \<le> length buf \<Longrightarrow>
      disk_read dk lba count buf = Some (0, write_at buf 0 (sectors img lba (unat count)))"
begin

lemma read_prefix:
  assumes "unat count \<le> 127" and "512 * unat count \<le> length buf"
  shows "\<exists>buf'. disk_read dk lba count buf = Some (0, buf') \<and> length buf' = length buf \<and>
    take (512 * unat count) buf' = sectors img lba (unat count)"
  using assms by (simp add: read_sectors length_write_at length_sectors[OF length_img])
    (simp add: write_at_def length_sectors[OF length_img])

end

text \<open>A drive that serves an image.\<close>

definition image_disk :: "(u64 \<Rightarrow> u8 list) \<Rightarrow> u8 \<Rightarrow> disk" where
  "image_disk img drive = \<lparr> dk_build = RealMode,
     dk_int13 = (\<lambda>_ dap. Some (sectors img (dap_lba dap) (unat (dap_sectors dap)))), g_drive = drive \<rparr>"

definition pad512 :: "u8 list \<Rightarrow> u8 list" where
  "pad512 s = take 512 s @ replicate (512 - length s) 0"

lemma length_pad512 [simp]: "length (pad512 s) = 512"
  by (simp add: pad512_def)

interpretation image_dev: sector_dev "image_disk (\<lambda>l. pad512 (img l)) drive" "\<lambda>l. pad512 (img l)" for img drive
proof unfold_locales
  fix count :: u32 and buf :: "u8 list" and lba
  assume c: "unat count \<le> 127" and b: "512 * unat count \<le> length buf"
  then have "unat (ucast count :: u16) = unat count" "\<not> count > 127"
    by (simp_all add: unsigned_ucast_eq word_less_nat_alt take_bit_nat_eq_self)
  then show "disk_read (image_disk (\<lambda>l. pad512 (img l)) drive) lba count buf =
      Some (0, write_at buf 0 (sectors (\<lambda>l. pad512 (img l)) lba (unat count)))"
    using b by (simp add: disk_read_def image_disk_def make_dap_def length_sectors Let_def)
qed simp

lemma long_mode_reads_nothing:
  "dk_build dk = LongMode \<Longrightarrow> disk_read dk lba count buf = Some (0, buf)"
  by (simp add: disk_read_def Let_def)

end
