(* ===== verification/Fat.thy ===== *)
theory Fat
  imports Disk "HOL-Library.Monad_Syntax"
begin

text \<open>
  The FAT32 driver of \<^verbatim>\<open>src/bios/stage2/fat.c\<close> on the disk of \<open>Disk\<close>.  The static variables
  are the record \<open>fat_state\<close>, its buffers included: they keep their contents when a read
  fails, and a directory is enumerated from the shared \<^verbatim>\<open>enum_buf\<close>.  \<^verbatim>\<open>g_bpb\<close> is the
  512 bytes that \<^verbatim>\<open>fat_init\<close> reads into it (the structure has only 90; the others fall on the
  static objects behind it and are not followed further).  \<open>stk\<close> is the uninitialised
  \<^verbatim>\<open>lfn_buf[256]\<close> on the stack.

  Results are options: \<open>None\<close> is an access outside a buffer or a division by zero.  A file
  handle is the index of its slot in the pool, with \<open>None\<close> for the null pointer.
\<close>

section \<open>On-disk structures\<close>

definition bpb_bytes_per_sector :: "u8 list \<Rightarrow> u16" where "bpb_bytes_per_sector b = u16_of_le (drop 11 b)"
definition bpb_sectors_per_cluster :: "u8 list \<Rightarrow> u8" where "bpb_sectors_per_cluster b = b ! 13"
definition bpb_reserved_sectors :: "u8 list \<Rightarrow> u16" where "bpb_reserved_sectors b = u16_of_le (drop 14 b)"
definition bpb_num_fats :: "u8 list \<Rightarrow> u8" where "bpb_num_fats b = b ! 16"
definition bpb_total_sectors32 :: "u8 list \<Rightarrow> u32" where "bpb_total_sectors32 b = u32_of_le (drop 32 b)"
definition bpb_fat_size32 :: "u8 list \<Rightarrow> u32" where "bpb_fat_size32 b = u32_of_le (drop 36 b)"
definition bpb_root_cluster :: "u8 list \<Rightarrow> u32" where "bpb_root_cluster b = u32_of_le (drop 44 b)"

definition de_name :: "u8 list \<Rightarrow> u8 list" where "de_name d = take 8 d"
definition de_ext :: "u8 list \<Rightarrow> u8 list" where "de_ext d = slice d 8 3"
definition de_attr :: "u8 list \<Rightarrow> u8" where "de_attr d = d ! 11"
definition de_first_cluster :: "u8 list \<Rightarrow> u32" where
  "de_first_cluster d = push_bit 16 (ucast (u16_of_le (drop 20 d))) OR ucast (u16_of_le (drop 26 d))"
definition de_file_size :: "u8 list \<Rightarrow> u32" where "de_file_size d = u32_of_le (drop 28 d)"

text \<open>The thirteen characters of a long-name entry, each cut to its low byte.\<close>

definition lfn_ord :: "u8 list \<Rightarrow> int" where "lfn_ord d = int (unat (d ! 0 AND 0x3F)) - 1"
definition lfn_chars :: "u8 list \<Rightarrow> u8 list" where
  "lfn_chars d = map (\<lambda>i. d ! i) ([1, 3, 5, 7, 9] @ [14, 16, 18, 20, 22, 24] @ [28, 30])"

definition ATTR_VOLUME_ID :: u8 where "ATTR_VOLUME_ID = 0x08"
definition ATTR_DIRECTORY :: u8 where "ATTR_DIRECTORY = 0x10"
definition ATTR_LFN :: u8 where "ATTR_LFN = 0x0F"
definition FAT32_EOC :: u32 where "FAT32_EOC = 0x0FFFFFF8"
definition FAT_MASK :: u32 where "FAT_MASK = 0x0FFFFFFF"
definition MAX_OPEN_FILES :: nat where "MAX_OPEN_FILES = 8"

record FatFile =
  ff_first_cluster :: u32
  ff_file_size :: u32
  ff_cur_cluster :: u32
  ff_offset :: u32
  ff_is_dir :: bool

record fat_state =
  g_bpb :: "u8 list"
  g_part_lba :: u64
  g_fat_start :: u32
  g_data_start :: u32
  g_root_cluster :: u32
  g_spc :: u32
  g_file_pool :: "FatFile list"
  g_pool_used :: "bool list"
  g_sector_buf :: "u8 list"
  find_buf :: "u8 list"
  clust_buf :: "u8 list"
  enum_buf :: "u8 list"

section \<open>Clusters and names\<close>

definition cluster_to_lba :: "fat_state \<Rightarrow> u32 \<Rightarrow> u64" where
  "cluster_to_lba st cluster = ucast (g_data_start st) + ucast (cluster - 2) * ucast (g_spc st)"

definition next_cluster :: "disk \<Rightarrow> u32 \<Rightarrow> fat_state \<Rightarrow> (u32 \<times> fat_state) option" where
  "next_cluster dk cluster st =
     (let fat_offset = cluster * 4;
          fat_sector = g_fat_start st + fat_offset div 512;
          ent_offset = fat_offset mod 512
      in do {
        (_, buf) \<leftarrow> disk_read dk (ucast fat_sector) 1 (g_sector_buf st);
        let val = u32_of_le (drop (unat ent_offset) buf);
        Some (val AND FAT_MASK, st\<lparr> g_sector_buf := buf \<rparr>) })"

definition read_cluster :: "disk \<Rightarrow> u32 \<Rightarrow> fat_state \<Rightarrow> fat_state option" where
  "read_cluster dk cluster st = do {
     (_, buf) \<leftarrow> disk_read dk (cluster_to_lba st cluster) (g_spc st) (clust_buf st);
     Some (st\<lparr> clust_buf := buf \<rparr>) }"

definition rtrim :: "u8 list \<Rightarrow> u8 list" where
  "rtrim s = rev (dropWhile (\<lambda>b. b = 0x20) (rev s))"

definition fat83_to_str :: "u8 list \<Rightarrow> u8 list \<Rightarrow> string" where
  "fat83_to_str name ext =
     map chr8 (rtrim name) @ (if rtrim ext \<noteq> [] then CHR ''.'' # map chr8 (rtrim ext) else [])"

definition to_upper :: "char \<Rightarrow> char" where
  "to_upper c = (if 97 \<le> ord c \<and> ord c \<le> 122 then char_of (ord c - 32) else c)"

fun name_match :: "string \<Rightarrow> string \<Rightarrow> bool" where
  "name_match (a # entry_name) (b # target) =
     (if a \<noteq> NUL \<and> b \<noteq> NUL
      then (if to_upper a \<noteq> to_upper b then False else name_match entry_name target)
      else a = NUL \<and> b = NUL)"
| "name_match entry_name target = (\<not> nz entry_name \<and> \<not> nz target)"

section \<open>Directory search\<close>

text \<open>
  Characters of a long name up to the first NUL go to their place in \<open>lfn_buf\<close>, below index
  255.  Order number 0 gives a negative index.
\<close>

definition lfn_put :: "u8 list \<Rightarrow> u8 list \<Rightarrow> u8 list option" where
  "lfn_put d lfn_buf =
     (let cs = takeWhile (\<lambda>b. b \<noteq> 0) (lfn_chars d); pos = lfn_ord d * 13
      in if cs = [] then Some lfn_buf
         else if pos < 0 then None
         else Some (write_at lfn_buf (nat pos) (take (255 - nat pos) cs)))"

datatype dir_result = DirFound "u8 list" | DirEnd | DirMore "u8 list" bool

text \<open>The loop over the entries of one cluster; an incomplete entry lies outside the buffer.\<close>

fun find_entries :: "string \<Rightarrow> u8 list list \<Rightarrow> u8 list \<Rightarrow> bool \<Rightarrow> dir_result option" where
  "find_entries name [] lfn_buf lfn_len = Some (DirMore lfn_buf lfn_len)"
| "find_entries name (d # ds) lfn_buf lfn_len =
     (if length d < 32 then None
      else if d ! 0 = 0 then Some DirEnd
      else if d ! 0 = 0xE5 then find_entries name ds lfn_buf False
      else if de_attr d = ATTR_LFN then do {
        lfn_buf \<leftarrow> lfn_put d lfn_buf;
        find_entries name ds lfn_buf True }
      else if lfn_len \<and> name_match (map chr8 (lfn_buf[255 := 0])) name then Some (DirFound d)
      else if name_match (fat83_to_str (de_name d) (de_ext d)) name then Some (DirFound d)
      else find_entries name ds (if lfn_len then lfn_buf[255 := 0] else lfn_buf) False)"

definition dir_entries :: "u8 list \<Rightarrow> u32 \<Rightarrow> u8 list list" where
  "dir_entries buf spc = map (\<lambda>i. slice buf (32 * i) 32) [0..<unat (spc * 512 div 32)]"

definition cluster_limit :: "fat_state \<Rightarrow> u32" where
  "cluster_limit st =
     (if g_spc st \<noteq> 0 then bpb_total_sectors32 (g_bpb st) div g_spc st + 2 else 0x100000)"

text \<open>The result is the entry found, if any; \<open>visited\<close> counts the clusters seen.\<close>

function find_loop ::
    "disk \<Rightarrow> string \<Rightarrow> u32 \<Rightarrow> nat \<Rightarrow> u8 list \<Rightarrow> bool \<Rightarrow> nat \<Rightarrow> fat_state \<Rightarrow> (u8 list option \<times> fat_state) option" where
  "find_loop dk name cluster visited lfn_buf lfn_len limit st =
     (if cluster \<ge> 2 \<and> cluster < FAT32_EOC then
        (if visited + 1 > limit then Some (None, st)
         else case disk_read dk (cluster_to_lba st cluster) (g_spc st) (find_buf st) of
           None \<Rightarrow> None
         | Some (_, buf) \<Rightarrow>
             let st = st\<lparr> find_buf := buf \<rparr>
             in case find_entries name (dir_entries buf (g_spc st)) lfn_buf lfn_len of
                  None \<Rightarrow> None
                | Some DirEnd \<Rightarrow> Some (None, st)
                | Some (DirFound d) \<Rightarrow> Some (Some d, st)
                | Some (DirMore lfn_buf lfn_len) \<Rightarrow>
                    (case next_cluster dk cluster st of
                       None \<Rightarrow> None
                     | Some (c, st) \<Rightarrow> find_loop dk name c (visited + 1) lfn_buf lfn_len limit st))
      else Some (None, st))"
  by pat_completeness auto
termination
  by (relation "measure (\<lambda>(_, _, _, visited, _, _, limit, _). limit - visited)") auto

declare find_loop.simps [simp del]

definition find_in_dir ::
    "disk \<Rightarrow> u8 list \<Rightarrow> u32 \<Rightarrow> string \<Rightarrow> fat_state \<Rightarrow> (u8 list option \<times> fat_state) option" where
  "find_in_dir dk stk dir_cluster name st =
     find_loop dk name dir_cluster 0 stk False (unat (cluster_limit st)) st"

section \<open>Mounting and opening\<close>

definition fat_init :: "disk \<Rightarrow> u64 \<Rightarrow> fat_state \<Rightarrow> (int \<times> fat_state) option" where
  "fat_init dk part_lba st = do {
     let st = st\<lparr> g_part_lba := part_lba \<rparr>;
     (_, b) \<leftarrow> disk_read dk part_lba 1 (g_bpb st);
     let st = st\<lparr> g_bpb := b \<rparr>;
     if bpb_bytes_per_sector b \<noteq> 512 then Some (-1, st)
     else if bpb_fat_size32 b = 0 then Some (-1, st)
     else
       let reserved = ucast (bpb_reserved_sectors b);
           fat_size = bpb_fat_size32 b;
           num_fats = ucast (bpb_num_fats b)
       in Some (0, st\<lparr> g_fat_start := ucast part_lba + reserved,
                      g_data_start := ucast part_lba + reserved + num_fats * fat_size,
                      g_root_cluster := bpb_root_cluster b,
                      g_spc := ucast (bpb_sectors_per_cluster b) \<rparr>) }"

text \<open>The next component of a path (at most 255 characters) and the rest behind its slash.\<close>

definition path_comp :: "string \<Rightarrow> string" where
  "path_comp p = take 255 (takeWhile (\<lambda>c. c \<noteq> NUL \<and> c \<noteq> CHR ''/'') p)"

definition skip_slash :: "string \<Rightarrow> string" where
  "skip_slash p = (if peek p = CHR ''/'' then tl p else p)"

definition path_rest :: "string \<Rightarrow> string" where
  "path_rest p = skip_slash (drop (length (path_comp p)) p)"

lemma path_rest_shorter: "nz p \<Longrightarrow> length (path_rest p) < length p"
  by (cases p) (auto simp: path_rest_def path_comp_def skip_slash_def less_Suc_eq_le
      split: if_splits intro: le_SucI)

text \<open>The first free slot of the handle pool.\<close>

definition fat_alloc :: "u8 list \<Rightarrow> fat_state \<Rightarrow> nat option \<times> fat_state" where
  "fat_alloc entry st =
     (case List.find (\<lambda>i. \<not> g_pool_used st ! i) [0..<MAX_OPEN_FILES] of
        None \<Rightarrow> (None, st)
      | Some i \<Rightarrow> (Some i, st\<lparr> g_pool_used := (g_pool_used st)[i := True],
          g_file_pool := (g_file_pool st)[i := \<lparr> ff_first_cluster = de_first_cluster entry,
            ff_file_size = de_file_size entry, ff_cur_cluster = de_first_cluster entry, ff_offset = 0,
            ff_is_dir = (de_attr entry AND ATTR_DIRECTORY \<noteq> 0) \<rparr>] \<rparr>))"

function fat_open_walk ::
    "disk \<Rightarrow> u8 list \<Rightarrow> u32 \<Rightarrow> string \<Rightarrow> fat_state \<Rightarrow> (nat option \<times> fat_state) option" where
  "fat_open_walk dk stk cluster p st =
     (if \<not> nz p then Some (None, st)
      else case find_in_dir dk stk cluster (path_comp p) st of
        None \<Rightarrow> None
      | Some (None, st) \<Rightarrow> Some (None, st)
      | Some (Some entry, st) \<Rightarrow>
          if nz (path_rest p) then
            (if de_attr entry AND ATTR_DIRECTORY = 0 then Some (None, st)
             else fat_open_walk dk stk (de_first_cluster entry) (path_rest p) st)
          else Some (fat_alloc entry st))"
  by pat_completeness auto
termination
  by (relation "measure (\<lambda>(_, _, _, p, _). length p)") (auto simp: path_rest_shorter)

declare fat_open_walk.simps [simp del]

definition fat_open :: "disk \<Rightarrow> u8 list \<Rightarrow> string \<Rightarrow> fat_state \<Rightarrow> (nat option \<times> fat_state) option" where
  "fat_open dk stk path st = fat_open_walk dk stk (g_root_cluster st) (skip_slash path) st"

section \<open>Reading and closing\<close>

text \<open>The bytes still to be read are \<open>len\<close>; the result holds the bytes stored.\<close>

function fat_read_loop :: "disk \<Rightarrow> nat \<Rightarrow> nat \<Rightarrow> fat_state \<Rightarrow> (u8 list \<times> fat_state) option" where
  "fat_read_loop dk h len st =
     (let f = g_file_pool st ! h; clust_sz = g_spc st * 512
      in if 0 < len \<and> ff_cur_cluster f \<ge> 2 \<and> ff_cur_cluster f < FAT32_EOC then
           (if clust_sz = 0 then None
            else
              let clust_off = unat (ff_offset f mod clust_sz);
                  in_clust = min (unat clust_sz - clust_off) len
              in case read_cluster dk (ff_cur_cluster f) st of
                   None \<Rightarrow> None
                 | Some st \<Rightarrow>
                     if length (clust_buf st) < clust_off + in_clust then None
                     else
                       let bytes = slice (clust_buf st) clust_off in_clust;
                           f = f\<lparr> ff_offset := ff_offset f + of_nat in_clust \<rparr>
                       in case (if ff_offset f mod clust_sz = 0 then next_cluster dk (ff_cur_cluster f) st
                                else Some (ff_cur_cluster f, st)) of
                            None \<Rightarrow> None
                          | Some (c, st) \<Rightarrow>
                              map_option (\<lambda>(bs, st). (bytes @ bs, st))
                                (fat_read_loop dk h (len - in_clust)
                                  (st\<lparr> g_file_pool := (g_file_pool st)[h := f\<lparr> ff_cur_cluster := c \<rparr>] \<rparr>)))
         else Some ([], st))"
  by pat_completeness auto
termination
proof (relation "measure (\<lambda>(_, _, len, _). len)", goal_cases)
  case (2 dk h len st f cs co ic)
  have "unat (ff_offset f mod cs) < unat cs"
    using 2(4) by (simp add: unat_mod unat_gt_0)
  then have "0 < ic" using 2(3) unfolding 2(5,6) by simp
  then show ?case using 2(3) by simp
qed simp

declare fat_read_loop.simps [simp del]

definition fat_read :: "disk \<Rightarrow> nat option \<Rightarrow> u32 \<Rightarrow> fat_state \<Rightarrow> (u8 list \<times> fat_state) option" where
  "fat_read dk f len st =
     (case f of
        None \<Rightarrow> Some ([], st)
      | Some h \<Rightarrow>
          let ff = g_file_pool st ! h
          in if ff_offset ff \<ge> ff_file_size ff then Some ([], st)
             else
               let remaining = ff_file_size ff - ff_offset ff;
                   len = (if len > remaining then remaining else len)
               in fat_read_loop dk h (unat len) st)"

definition fat_close :: "nat option \<Rightarrow> fat_state \<Rightarrow> fat_state" where
  "fat_close f st =
     (case f of None \<Rightarrow> st | Some h \<Rightarrow> st\<lparr> g_pool_used := (g_pool_used st)[h := False] \<rparr>)"

definition fat_file_size :: "nat option \<Rightarrow> fat_state \<Rightarrow> u32" where
  "fat_file_size f st = (case f of None \<Rightarrow> 0 | Some h \<Rightarrow> ff_file_size (g_file_pool st ! h))"

section \<open>Directory enumeration\<close>

text \<open>
  The callback changes its own context and, since it may call the driver again, the state of
  the driver.  Entry \<open>i\<close> is read from \<^verbatim>\<open>enum_buf\<close> as it is when the loop gets there.
\<close>

type_synonym 'c dir_cb = "string \<Rightarrow> bool \<Rightarrow> 'c \<times> fat_state \<Rightarrow> ('c \<times> fat_state) option"

definition lfn_put_all :: "u8 list \<Rightarrow> u8 list \<Rightarrow> u8 list" where
  "lfn_put_all d lfn_buf =
     (let pos = nat (lfn_ord d * 13) in write_at lfn_buf pos (take (255 - pos) (lfn_chars d)))"

definition lfn_end :: "u8 list \<Rightarrow> nat" where
  "lfn_end lfn_buf = length (takeWhile (\<lambda>b. b \<noteq> 0) (take 255 lfn_buf))"

text \<open>The name an entry is reported under; \<open>None\<close> when it is skipped.\<close>

definition entry_name :: "u8 list \<Rightarrow> u8 list \<Rightarrow> bool \<Rightarrow> string option" where
  "entry_name d lfn_buf lfn_len =
     (if lfn_len then Some (map chr8 (take (lfn_end lfn_buf) lfn_buf))
      else let name = fat83_to_str (de_name d) (de_ext d) in if nz name then Some name else None)"

text \<open>One cluster; the inner \<open>None\<close> is the end of the directory.\<close>

function readdir_entries ::
    "'c dir_cb \<Rightarrow> nat \<Rightarrow> nat \<Rightarrow> u8 list \<Rightarrow> bool \<Rightarrow> 'c \<times> fat_state \<Rightarrow> ((u8 list \<times> bool) option \<times> 'c \<times> fat_state) option" where
  "readdir_entries cb cnt i lfn_buf lfn_len cs =
     (if cnt \<le> i then Some (Some (lfn_buf, lfn_len), cs)
      else
        let d = slice (enum_buf (snd cs)) (32 * i) 32
        in if length d < 32 then None
           else if d ! 0 = 0 then Some (None, cs)
           else if d ! 0 = 0xE5 then readdir_entries cb cnt (i + 1) lfn_buf False cs
           else if d ! 0 = 0x2E then readdir_entries cb cnt (i + 1) lfn_buf False cs
           else if de_attr d AND ATTR_VOLUME_ID \<noteq> 0 \<and> de_attr d \<noteq> ATTR_LFN
             then readdir_entries cb cnt (i + 1) lfn_buf False cs
           else if de_attr d = ATTR_LFN then
             (if lfn_ord d < 0 \<or> lfn_ord d \<ge> 20 then readdir_entries cb cnt (i + 1) lfn_buf False cs
              else readdir_entries cb cnt (i + 1) (lfn_put_all d lfn_buf) True cs)
           else
             (case entry_name d lfn_buf lfn_len of
                None \<Rightarrow> readdir_entries cb cnt (i + 1) lfn_buf False cs
              | Some name \<Rightarrow>
                  (case cb name (de_attr d AND ATTR_DIRECTORY \<noteq> 0) cs of
                     None \<Rightarrow> None
                   | Some cs \<Rightarrow> readdir_entries cb cnt (i + 1)
                       (if lfn_len then lfn_buf[lfn_end lfn_buf := 0] else lfn_buf) False cs)))"
  by pat_completeness auto
termination
  by (relation "measure (\<lambda>(_, cnt, i, _, _, _). cnt - i)") auto

declare readdir_entries.simps [simp del]

function readdir_loop ::
    "disk \<Rightarrow> 'c dir_cb \<Rightarrow> u32 \<Rightarrow> nat \<Rightarrow> u8 list \<Rightarrow> bool \<Rightarrow> nat \<Rightarrow> 'c \<times> fat_state \<Rightarrow> ('c \<times> fat_state) option" where
  "readdir_loop dk cb cur visited lfn_buf lfn_len limit cs =
     (if cur \<ge> 2 \<and> cur < FAT32_EOC then
        (if visited + 1 > limit then Some cs
         else case disk_read dk (cluster_to_lba (snd cs) cur) (g_spc (snd cs)) (enum_buf (snd cs)) of
           None \<Rightarrow> None
         | Some (_, buf) \<Rightarrow>
             (case readdir_entries cb (unat (g_spc (snd cs) * 512 div 32)) 0 lfn_buf lfn_len
                     (fst cs, snd cs\<lparr> enum_buf := buf \<rparr>) of
                None \<Rightarrow> None
              | Some (None, cs) \<Rightarrow> Some cs
              | Some (Some (lfn_buf, lfn_len), cs) \<Rightarrow>
                  (case next_cluster dk cur (snd cs) of
                     None \<Rightarrow> None
                   | Some (c, st) \<Rightarrow> readdir_loop dk cb c (visited + 1) lfn_buf lfn_len limit (fst cs, st))))
      else Some cs)"
  by pat_completeness auto
termination
  by (relation "measure (\<lambda>(_, _, _, visited, _, _, limit, _). limit - visited)") auto

declare readdir_loop.simps [simp del]

text \<open>The cluster of a directory; empty components are skipped.\<close>

function readdir_walk :: "disk \<Rightarrow> u8 list \<Rightarrow> u32 \<Rightarrow> string \<Rightarrow> fat_state \<Rightarrow> (u32 option \<times> fat_state) option" where
  "readdir_walk dk stk cluster p st =
     (if \<not> nz p then Some (Some cluster, st)
      else if path_comp p = [] then readdir_walk dk stk cluster (path_rest p) st
      else case find_in_dir dk stk cluster (path_comp p) st of
        None \<Rightarrow> None
      | Some (None, st) \<Rightarrow> Some (None, st)
      | Some (Some de, st) \<Rightarrow>
          if de_attr de AND ATTR_DIRECTORY = 0 then Some (None, st)
          else readdir_walk dk stk (de_first_cluster de) (path_rest p) st)"
  by pat_completeness auto
termination
  by (relation "measure (\<lambda>(_, _, _, p, _). length p)") (auto simp: path_rest_shorter)

declare readdir_walk.simps [simp del]

definition fat_readdir ::
    "disk \<Rightarrow> u8 list \<Rightarrow> string \<Rightarrow> 'c dir_cb \<Rightarrow> 'c \<times> fat_state \<Rightarrow> (bool \<times> 'c \<times> fat_state) option" where
  "fat_readdir dk stk dir_path cb cs =
     (case readdir_walk dk stk (g_root_cluster (snd cs)) (skip_slash dir_path) (snd cs) of
        None \<Rightarrow> None
      | Some (None, st) \<Rightarrow> Some (False, fst cs, st)
      | Some (Some cluster, st) \<Rightarrow>
          map_option (Pair True)
            (readdir_loop dk cb cluster 0 stk False (unat (cluster_limit st)) (fst cs, st)))"

section \<open>Files as cluster chains\<close>

text \<open>The volume as the image holds it: table entries, cluster contents, chains.\<close>

definition fat_entry :: "(u64 \<Rightarrow> u8 list) \<Rightarrow> fat_state \<Rightarrow> u32 \<Rightarrow> u32" where
  "fat_entry img st c =
     u32_of_le (drop (unat (c * 4 mod 512)) (img (ucast (g_fat_start st + c * 4 div 512)))) AND FAT_MASK"

definition cluster_data :: "(u64 \<Rightarrow> u8 list) \<Rightarrow> fat_state \<Rightarrow> u32 \<Rightarrow> u8 list" where
  "cluster_data img st c = sectors img (cluster_to_lba st c) (unat (g_spc st))"

definition in_use :: "u32 \<Rightarrow> bool" where
  "in_use c \<longleftrightarrow> 2 \<le> c \<and> c < FAT32_EOC"

text \<open>\<open>chain nx c cs e\<close>: following \<open>nx\<close> from \<open>c\<close> visits the clusters \<open>cs\<close> and then reaches \<open>e\<close>.\<close>

fun chain :: "(u32 \<Rightarrow> u32) \<Rightarrow> u32 \<Rightarrow> u32 list \<Rightarrow> u32 \<Rightarrow> bool" where
  "chain nx c [] e \<longleftrightarrow> c = e"
| "chain nx c (a # as) e \<longleftrightarrow> c = a \<and> in_use a \<and> chain nx (nx a) as e"

definition clust_sz :: "fat_state \<Rightarrow> nat" where
  "clust_sz st = 512 * unat (g_spc st)"

definition bufs_ok :: "fat_state \<Rightarrow> bool" where
  "bufs_ok st \<longleftrightarrow> length (g_sector_buf st) = 2048 \<and> length (find_buf st) = 32768 \<and>
     length (clust_buf st) = 32768 \<and> length (enum_buf st) = 32768 \<and> 0 < g_spc st \<and> unat (g_spc st) \<le> 64"

text \<open>
  Handle \<open>h\<close> is open on the file of the chain \<open>cs\<close> (ending in \<open>e\<close>) with \<open>n\<close> bytes, at
  offset \<open>pos\<close>.
\<close>

definition open_at :: "(u64 \<Rightarrow> u8 list) \<Rightarrow> fat_state \<Rightarrow> nat \<Rightarrow> u32 list \<Rightarrow> u32 \<Rightarrow> nat \<Rightarrow> nat \<Rightarrow> bool" where
  "open_at img st h cs e n pos \<longleftrightarrow> bufs_ok st \<and> h < length (g_file_pool st) \<and>
     (let f = g_file_pool st ! h
      in chain (fat_entry img st) (ff_first_cluster f) cs e \<and> unat (ff_file_size f) = n \<and>
         n \<le> length cs * clust_sz st \<and> unat (ff_offset f) = pos \<and> pos \<le> n \<and>
         ff_cur_cluster f = (cs @ [e]) ! (pos div clust_sz st))"

definition file_data :: "(u64 \<Rightarrow> u8 list) \<Rightarrow> fat_state \<Rightarrow> u32 list \<Rightarrow> nat \<Rightarrow> u8 list" where
  "file_data img st cs n = take n (concat (map (cluster_data img st) cs))"

lemma chain_nth: "chain nx c cs e \<Longrightarrow> k < length cs \<Longrightarrow> in_use (cs ! k) \<and> nx (cs ! k) = (cs @ [e]) ! Suc k"
proof (induction cs arbitrary: c k)
  case (Cons a as)
  show ?case
  proof (cases k)
    case 0
    then show ?thesis using Cons.prems(1) by (cases as) auto
  next
    case (Suc j)
    then show ?thesis using Cons by auto
  qed
qed simp

lemma slice_block:
  assumes "\<And>c. c \<in> set cs \<Longrightarrow> length (f c) = m" and "k < length cs" and "i + n \<le> m"
  shows "slice (concat (map f cs)) (k * m + i) n = slice (f (cs ! k)) i n"
  using assms
proof (induction cs arbitrary: k)
  case (Cons c cs)
  show ?case
  proof (cases k)
    case 0
    then show ?thesis using Cons.prems by (simp add: slice_def)
  next
    case (Suc j)
    then have "slice (concat (map f (c # cs))) (k * m + i) n = slice (concat (map f cs)) (j * m + i) n"
      using Cons.prems(1)[of c] by (simp add: slice_def)
    then show ?thesis using Cons.IH[of j] Cons.prems Suc by simp
  qed
qed simp

text \<open>What the loop keeps: everything but buffers and the handle.\<close>

definition same_vol :: "fat_state \<Rightarrow> fat_state \<Rightarrow> bool" where
  "same_vol st st' \<longleftrightarrow> g_fat_start st' = g_fat_start st \<and> g_data_start st' = g_data_start st \<and>
     g_spc st' = g_spc st \<and> g_root_cluster st' = g_root_cluster st \<and> g_bpb st' = g_bpb st"

lemma same_vol_data:
  assumes "same_vol st st'"
  shows "fat_entry img st' = fat_entry img st" "cluster_data img st' = cluster_data img st" "clust_sz st' = clust_sz st"
  using assms by (simp_all add: same_vol_def fat_entry_def cluster_data_def cluster_to_lba_def clust_sz_def fun_eq_iff)

lemma clust_sz_word:
  assumes "bufs_ok st"
  shows "unat (g_spc st * 512) = clust_sz st" "g_spc st * 512 \<noteq> 0" "0 < clust_sz st" "clust_sz st \<le> 32768"
proof -
  show u: "unat (g_spc st * 512) = clust_sz st"
    using assms by (simp add: bufs_ok_def clust_sz_def unat_word_ariths)
  show p: "0 < clust_sz st" using assms by (simp add: bufs_ok_def clust_sz_def word_less_nat_alt)
  show "g_spc st * 512 \<noteq> 0" using u p by auto
  show "clust_sz st \<le> 32768" using assms by (simp add: bufs_ok_def clust_sz_def)
qed

context sector_dev
begin

lemma next_cluster_entry:
  assumes "bufs_ok st"
  shows "\<exists>buf. next_cluster dk c st = Some (fat_entry img st c, st\<lparr> g_sector_buf := buf \<rparr>) \<and> length buf = 2048"
proof -
  let ?s = "ucast (g_fat_start st + c * 4 div 512) :: u64"
  obtain buf where b: "disk_read dk ?s 1 (g_sector_buf st) = Some (0, buf)" "length buf = 2048"
      "take 512 buf = img ?s"
    using read_prefix[of 1 "g_sector_buf st" ?s] assms by (auto simp: bufs_ok_def sectors_def)
  have ent: "unat (c * 4 mod 512) + 4 \<le> 512"
  proof -
    have "unat (c * 4 mod 512) = unat c * 4 mod 2 ^ 32 mod 512" by (simp add: unat_mod unat_word_ariths)
    also have "\<dots> = unat c * 4 mod (128 * 4)" by (subst mod_mod_cancel) simp_all
    also have "\<dots> = unat c mod 128 * 4" by (rule mod_mult_mult2)
    finally show ?thesis using mod_less_divisor[of 128 "unat c"] by linarith
  qed
  have "u32_of_le (drop (unat (c * 4 mod 512)) buf) = u32_of_le (drop (unat (c * 4 mod 512)) (take 512 buf))"
    using ent b(2) by (simp add: u32_of_le_def)
  then show ?thesis using b by (auto simp: next_cluster_def fat_entry_def Let_def)
qed

lemma read_cluster_data:
  assumes "bufs_ok st"
  shows "\<exists>buf. read_cluster dk c st = Some (st\<lparr> clust_buf := buf \<rparr>) \<and> length buf = 32768 \<and>
    take (clust_sz st) buf = cluster_data img st c"
  using read_prefix[of "g_spc st" "clust_buf st" "cluster_to_lba st c"] assms
  by (auto simp: bufs_ok_def read_cluster_def cluster_data_def clust_sz_def)

lemma length_cluster_data: "length (cluster_data img st c) = clust_sz st"
  by (simp add: cluster_data_def clust_sz_def length_sectors length_img)

end

text \<open>
  One round of the read loop, on the words of the handle: the bytes of the current cluster
  from the offset on, and the handle's place after them.
\<close>

lemma round_arith:
  fixes pos cs len :: nat
  assumes "0 < cs" and "0 < len"
  defines "ic \<equiv> min (cs - pos mod cs) len"
  shows "0 < ic" "ic \<le> len" "pos mod cs + ic \<le> cs" "pos = pos div cs * cs + pos mod cs"
    "(pos + ic) mod cs = 0 \<Longrightarrow> (pos + ic) div cs = Suc (pos div cs)"
    "(pos + ic) mod cs \<noteq> 0 \<Longrightarrow> (pos + ic) div cs = pos div cs"
proof -
  have lt: "pos mod cs < cs" using assms(1) by simp
  show "0 < ic" "ic \<le> len" "pos mod cs + ic \<le> cs" using lt assms(2) by (auto simp: ic_def)
  show d: "pos = pos div cs * cs + pos mod cs" by simp
  have le: "pos mod cs + ic \<le> cs" using lt by (auto simp: ic_def)
  have pos: "0 < ic" using lt assms(2) by (auto simp: ic_def)
  have div: "(pos + ic) div cs = pos div cs + (pos mod cs + ic) div cs"
    and md: "(pos + ic) mod cs = (pos mod cs + ic) mod cs"
  proof -
    have e: "pos + ic = pos mod cs + ic + pos div cs * cs" using d by linarith
    have "cs \<noteq> 0" using assms(1) by simp
    then show "(pos + ic) div cs = pos div cs + (pos mod cs + ic) div cs"
      unfolding e by (rule div_mult_self1)
    show "(pos + ic) mod cs = (pos mod cs + ic) mod cs" by (simp add: mod_add_left_eq)
  qed
  show "(pos + ic) mod cs = 0 \<Longrightarrow> (pos + ic) div cs = Suc (pos div cs)"
    using div md le pos assms(1) by (cases "pos mod cs + ic = cs") auto
  show "(pos + ic) mod cs \<noteq> 0 \<Longrightarrow> (pos + ic) div cs = pos div cs"
    using div md le assms(1) by (cases "pos mod cs + ic = cs") auto
qed

context sector_dev
begin

lemma read_round:
  assumes op: "open_at img st h cs e n pos" and len: "0 < len" "pos + len \<le> n"
  defines "ic \<equiv> min (clust_sz st - pos mod clust_sz st) len"
  shows "\<exists>st'. same_vol st st' \<and> open_at img st' h cs e n (pos + ic) \<and>
    fat_read_loop dk h len st =
      map_option (\<lambda>(bs, st2). (slice (concat (map (cluster_data img st) cs)) pos ic @ bs, st2))
        (fat_read_loop dk h (len - ic) st')"
proof -
  let ?f = "g_file_pool st ! h" and ?CS = "clust_sz st" and ?k = "pos div clust_sz st"
  have b: "bufs_ok st" and h: "h < length (g_file_pool st)" and ch: "chain (fat_entry img st) (ff_first_cluster ?f) cs e"
    and n: "unat (ff_file_size ?f) = n" "n \<le> length cs * ?CS" and o: "unat (ff_offset ?f) = pos"
    and cur: "ff_cur_cluster ?f = (cs @ [e]) ! ?k"
    using op by (simp_all add: open_at_def Let_def)
  note cw = clust_sz_word[OF b] and ra = round_arith[OF clust_sz_word(3)[OF b] len(1), of pos, folded ic_def]
  have k: "?k < length cs"
    using len n(2) by (intro less_mult_imp_div_less) simp
  let ?c = "cs ! ?k"
  have cc: "ff_cur_cluster ?f = ?c" using cur k by (simp add: nth_append)
  have use: "in_use ?c" "fat_entry img st ?c = (cs @ [e]) ! Suc ?k" using chain_nth[OF ch k] by simp_all
  have off: "unat (ff_offset ?f mod (g_spc st * 512)) = pos mod ?CS" by (simp add: unat_mod cw(1) o)
  obtain buf where rc: "read_cluster dk ?c st = Some (st\<lparr> clust_buf := buf \<rparr>)" "length buf = 32768"
      "take ?CS buf = cluster_data img st ?c"
    using read_cluster_data[OF b] by blast
  let ?st1 = "st\<lparr> clust_buf := buf \<rparr>"
  have b1: "bufs_ok ?st1" using b rc(2) by (simp add: bufs_ok_def)
  have sl: "slice buf (pos mod ?CS) ic = slice (concat (map (cluster_data img st) cs)) pos ic"
  proof -
    have "slice buf (pos mod ?CS) ic = slice (take ?CS buf) (pos mod ?CS) ic"
      using ra(3) by (simp add: slice_def drop_take min_def)
    also have "\<dots> = slice (concat (map (cluster_data img st) cs)) (?k * ?CS + pos mod ?CS) ic"
      unfolding rc(3) by (rule slice_block[OF length_cluster_data k ra(3), symmetric])
    finally show ?thesis using ra(4) by simp
  qed
  have small: "pos + ic < 2 ^ 32" using len ra(2) n(1) unat_u32_less[of "ff_file_size ?f"] by simp
  have o': "unat (ff_offset ?f + of_nat ic) = pos + ic"
    using small o by (simp add: unat_word_ariths unat_of_nat)
  have z: "(ff_offset ?f + of_nat ic) mod (g_spc st * 512) = 0 \<longleftrightarrow> (pos + ic) mod ?CS = 0"
    by (simp add: unat_eq_zero[symmetric] unat_mod cw(1) o')
  define c' where "c' = (if (pos + ic) mod ?CS = 0 then fat_entry img st ?c else ?c)"
  have c': "c' = (cs @ [e]) ! ((pos + ic) div ?CS)"
    using ra(5,6) use(2) k by (simp add: c'_def nth_append)
  obtain sb where nx: "(if (pos + ic) mod ?CS = 0 then next_cluster dk ?c ?st1 else Some (?c, ?st1)) =
      Some (c', ?st1\<lparr> g_sector_buf := sb \<rparr>)" "length sb = 2048"
  proof (cases "(pos + ic) mod ?CS = 0")
    case True
    obtain sb where "next_cluster dk ?c ?st1 = Some (fat_entry img ?st1 ?c, ?st1\<lparr> g_sector_buf := sb \<rparr>)" "length sb = 2048"
      using next_cluster_entry[OF b1] by blast
    moreover have "fat_entry img ?st1 ?c = fat_entry img st ?c" by (simp add: fat_entry_def)
    ultimately show ?thesis using True that by (simp add: c'_def)
  next
    case False
    then show ?thesis using that[of "g_sector_buf st"] b by (simp add: c'_def bufs_ok_def)
  qed
  let ?f' = "?f\<lparr> ff_offset := ff_offset ?f + of_nat ic, ff_cur_cluster := c' \<rparr>"
  let ?st' = "?st1\<lparr> g_sector_buf := sb, g_file_pool := (g_file_pool st)[h := ?f'] \<rparr>"
  have sv: "same_vol st ?st'" by (simp add: same_vol_def)
  have "open_at img ?st' h cs e n (pos + ic)"
    unfolding open_at_def same_vol_data[OF sv] Let_def
    using b1 nx(2) h ch n c' o' len(2) ra(2) by (simp add: bufs_ok_def)
  moreover have "fat_read_loop dk h len st =
      map_option (\<lambda>(bs, st2). (slice buf (pos mod ?CS) ic @ bs, st2)) (fat_read_loop dk h (len - ic) ?st')"
    using len(1) use(1) rc nx ra(3) cw z
    by (subst fat_read_loop.simps)
      (simp add: Let_def cc in_use_def off ic_def[symmetric] split: if_splits)
  ultimately show ?thesis using sv unfolding sl by blast
qed

end

lemma same_vol_trans: "same_vol a b \<Longrightarrow> same_vol b c \<Longrightarrow> same_vol a c"
  by (simp add: same_vol_def)

lemma same_vol_file_data: "same_vol st st' \<Longrightarrow> file_data img st' cs n = file_data img st cs n"
  by (simp add: file_data_def same_vol_data)

lemma slice_append: "slice xs i a @ slice xs (i + a) b = slice xs i (a + b)"
  by (simp add: slice_def take_add add.commute)

text \<open>A sequence of reads on one handle, and what it gives in all.\<close>

fun fat_reads :: "disk \<Rightarrow> nat option \<Rightarrow> u32 list \<Rightarrow> fat_state \<Rightarrow> (u8 list \<times> fat_state) option" where
  "fat_reads dk f [] st = Some ([], st)"
| "fat_reads dk f (len # lens) st =
     (case fat_read dk f len st of
        None \<Rightarrow> None
      | Some (bs, st) \<Rightarrow> map_option (\<lambda>(bs', st). (bs @ bs', st)) (fat_reads dk f lens st))"

context sector_dev
begin

lemma read_loop_data:
  assumes "open_at img st h cs e n pos" and "pos + len \<le> n"
  shows "\<exists>st'. fat_read_loop dk h len st = Some (slice (concat (map (cluster_data img st) cs)) pos len, st') \<and>
    same_vol st st' \<and> open_at img st' h cs e n (pos + len)"
  using assms
proof (induction len arbitrary: st pos rule: less_induct)
  case (less len)
  show ?case
  proof (cases "len = 0")
    case True
    then show ?thesis using less.prems(1)
      by (subst fat_read_loop.simps) (simp add: Let_def slice_def same_vol_def)
  next
    case False
    let ?D = "concat (map (cluster_data img st) cs)"
    define ic where "ic = min (clust_sz st - pos mod clust_sz st) len"
    have cs0: "0 < clust_sz st"
      using clust_sz_word(3) less.prems(1) by (simp add: open_at_def)
    have ic: "0 < ic" "ic \<le> len" using round_arith(1,2)[OF cs0, of len pos] False by (simp_all add: ic_def)
    obtain st1 where s1: "same_vol st st1" "open_at img st1 h cs e n (pos + ic)"
        "fat_read_loop dk h len st = map_option (\<lambda>(bs, st2). (slice ?D pos ic @ bs, st2)) (fat_read_loop dk h (len - ic) st1)"
      using read_round[OF less.prems(1) _ less.prems(2)] False unfolding ic_def by blast
    obtain st2 where s2: "fat_read_loop dk h (len - ic) st1 = Some (slice (concat (map (cluster_data img st1) cs)) (pos + ic) (len - ic), st2)"
        "same_vol st1 st2" "open_at img st2 h cs e n (pos + ic + (len - ic))"
      using less.IH[of "len - ic" st1 "pos + ic"] s1(2) less.prems(2) ic by auto
    have "slice ?D pos ic @ slice ?D (pos + ic) (len - ic) = slice ?D pos len"
      using ic(2) by (simp add: slice_append)
    then show ?thesis
      using s1 s2 ic(2) same_vol_trans[OF s1(1) s2(2)] by (simp add: same_vol_data[OF s1(1)])
  qed
qed

lemma read_data:
  assumes "open_at img st h cs e n pos"
  shows "\<exists>st'. fat_read dk (Some h) len st = Some (slice (file_data img st cs n) pos (unat len), st') \<and>
    same_vol st st' \<and> open_at img st' h cs e n (min n (pos + unat len))"
proof -
  let ?f = "g_file_pool st ! h" and ?D = "concat (map (cluster_data img st) cs)"
  have n: "unat (ff_file_size ?f) = n" and o: "unat (ff_offset ?f) = pos" and le: "pos \<le> n"
    using assms by (simp_all add: open_at_def Let_def)
  have sl: "slice (file_data img st cs n) pos k = slice ?D pos (min k (n - pos))" for k
    by (simp add: file_data_def slice_def drop_take)
  show ?thesis
  proof (cases "pos = n")
    case True
    then show ?thesis
      using assms n o by (simp add: fat_read_def sl word_le_nat_alt same_vol_def slice_def file_data_def)
  next
    case False
    then have lt: "\<not> ff_offset ?f \<ge> ff_file_size ?f" using n o le by (simp add: word_le_nat_alt)
    let ?len = "if len > ff_file_size ?f - ff_offset ?f then ff_file_size ?f - ff_offset ?f else len"
    have rem: "unat (ff_file_size ?f - ff_offset ?f) = n - pos"
      using lt n o by (simp add: unat_sub)
    then have ul: "unat ?len = min (unat len) (n - pos)" by (auto simp: word_less_nat_alt)
    obtain st' where "fat_read_loop dk h (unat ?len) st = Some (slice ?D pos (unat ?len), st')" "same_vol st st'"
        "open_at img st' h cs e n (pos + unat ?len)"
    proof -
      have "pos + unat ?len \<le> n" unfolding ul using le by linarith
      then show ?thesis using read_loop_data[OF assms] that by blast
    qed
    moreover have "pos + min (unat len) (n - pos) = min n (pos + unat len)" using le by linarith
    ultimately show ?thesis using lt unfolding sl ul[symmetric] by (simp add: fat_read_def Let_def ul)
  qed
qed

lemma reads_data:
  assumes "open_at img st h cs e n pos"
  shows "\<exists>st'. fat_reads dk (Some h) lens st =
    Some (slice (file_data img st cs n) pos (sum_list (map unat lens)), st') \<and>
    open_at img st' h cs e n (min n (pos + sum_list (map unat lens)))"
  using assms
proof (induction lens arbitrary: st pos)
  case Nil
  moreover have "min n pos = pos" using Nil by (simp add: open_at_def Let_def)
  ultimately show ?case by (simp add: slice_def)
next
  case (Cons len lens)
  let ?F = "file_data img st cs n" and ?s = "sum_list (map unat lens)"
  obtain st1 where s1: "fat_read dk (Some h) len st = Some (slice ?F pos (unat len), st1)" "same_vol st st1"
      "open_at img st1 h cs e n (min n (pos + unat len))"
    using read_data[OF Cons.prems] by blast
  obtain st2 where s2: "fat_reads dk (Some h) lens st1 = Some (slice ?F (min n (pos + unat len)) ?s, st2)"
      "open_at img st2 h cs e n (min n (min n (pos + unat len) + ?s))"
    using Cons.IH[OF s1(3)] by (auto simp: same_vol_file_data[OF s1(2)])
  have len: "length ?F \<le> n" by (simp add: file_data_def)
  have "slice ?F (min n (pos + unat len)) ?s = slice ?F (pos + unat len) ?s"
    using len by (auto simp: slice_def min_def)
  moreover have "min n (min n (pos + unat len) + ?s) = min n (pos + (unat len + ?s))" by linarith
  ultimately show ?case using s1(1) s2 by (simp add: slice_append)
qed

end

section \<open>Properties\<close>

text \<open>
  C11. Reading a file: on a drive that serves an image, with a handle open at the start of a
  file whose cluster chain in the table covers its size, any sequence of reads (of any lengths,
  across cluster boundaries and past the end) returns exactly the first bytes of the file, in
  order, as many as were asked for or as the file has.
\<close>

theorem fat_reads_file:
  assumes "open_at (\<lambda>l. pad512 (img l)) st h cs e n 0"
  shows "\<exists>st'. fat_reads (image_disk (\<lambda>l. pad512 (img l)) drive) (Some h) lens st =
    Some (take (sum_list (map unat lens)) (file_data (\<lambda>l. pad512 (img l)) st cs n), st')"
  using image_dev.reads_data[OF assms] by (auto simp: slice_def)


text \<open>A volume with one-sector clusters and a file of 600 bytes in clusters 2 and 3.\<close>

definition sample_img :: "u64 \<Rightarrow> u8 list" where
  "sample_img l = (if l = 1 then [0, 0, 0, 0, 0, 0, 0, 0, 3, 0, 0, 0, 0xFF, 0xFF, 0xFF, 0x0F]
     else if l = 10 then replicate 512 7 else if l = 11 then replicate 512 9 else [])"

definition sample_fat :: fat_state where
  "sample_fat = \<lparr> g_bpb = replicate 512 0, g_part_lba = 0, g_fat_start = 1, g_data_start = 10,
     g_root_cluster = 2, g_spc = 1,
     g_file_pool = replicate 8 \<lparr> ff_first_cluster = 2, ff_file_size = 600, ff_cur_cluster = 2,
       ff_offset = 0, ff_is_dir = False \<rparr>,
     g_pool_used = replicate 8 False, g_sector_buf = replicate 2048 0, find_buf = replicate 32768 0,
     clust_buf = replicate 32768 0, enum_buf = replicate 32768 0 \<rparr>"

lemma sample_open: "open_at (\<lambda>l. pad512 (sample_img l)) sample_fat 0 [2, 3] 0x0FFFFFFF 600 0"
proof -
  have "fat_entry (\<lambda>l. pad512 (sample_img l)) sample_fat 2 = 3"
    "fat_entry (\<lambda>l. pad512 (sample_img l)) sample_fat 3 = 0x0FFFFFFF"
    by (simp_all add: fat_entry_def sample_fat_def sample_img_def pad512_def u32_of_le_def FAT_MASK_def)
  then show ?thesis
    by (simp add: open_at_def sample_fat_def bufs_ok_def in_use_def FAT32_EOC_def clust_sz_def Let_def)
qed

theorem fat_reads_file_witness:
  "\<exists>st'. fat_reads (image_disk (\<lambda>l. pad512 (sample_img l)) 0x80) (Some 0) [100, 500, 50] sample_fat =
     Some (replicate 512 7 @ replicate 88 9, st')"
proof -
  have "cluster_data (\<lambda>l. pad512 (sample_img l)) sample_fat 2 = replicate 512 7"
    "cluster_data (\<lambda>l. pad512 (sample_img l)) sample_fat 3 = replicate 512 9"
    by (simp_all add: cluster_data_def sectors_def cluster_to_lba_def sample_fat_def sample_img_def pad512_def)
  then have "file_data (\<lambda>l. pad512 (sample_img l)) sample_fat [2, 3] 600 = replicate 512 7 @ replicate 88 9"
    by (simp add: file_data_def)
  then show ?thesis
    using fat_reads_file[OF sample_open, where drive = "0x80" and lens = "[100, 500, 50]"] by simp
qed

section \<open>Directory lookup\<close>

text \<open>
  The specification of a lookup by short name: the first entry before the end marker that is
  not deleted and whose name matches.  \<open>short_dir\<close> says that there are no long-name entries.
\<close>

definition live :: "u8 list \<Rightarrow> bool" where "live d \<longleftrightarrow> d ! 0 \<noteq> 0"

definition hit :: "string \<Rightarrow> u8 list \<Rightarrow> bool" where
  "hit name d \<longleftrightarrow> d ! 0 \<noteq> 0xE5 \<and> name_match (fat83_to_str (de_name d) (de_ext d)) name"

definition dir_lookup :: "string \<Rightarrow> u8 list list \<Rightarrow> u8 list option" where
  "dir_lookup name ds = List.find (hit name) (takeWhile live ds)"

definition short_dir :: "u8 list list \<Rightarrow> bool" where
  "short_dir ds \<longleftrightarrow> (\<forall>d\<in>set ds. live d \<longrightarrow> d ! 0 \<noteq> 0xE5 \<longrightarrow> de_attr d \<noteq> ATTR_LFN)"

definition dir_data :: "(u64 \<Rightarrow> u8 list) \<Rightarrow> fat_state \<Rightarrow> u32 list \<Rightarrow> u8 list list" where
  "dir_data img st cs = concat (map (\<lambda>c. dir_entries (cluster_data img st c) (g_spc st)) cs)"

lemma find_entries_short:
  assumes "short_dir ds" and "\<forall>d\<in>set ds. length d = 32"
  shows "find_entries name ds lfn False = Some (case dir_lookup name ds of
     Some d \<Rightarrow> DirFound d | None \<Rightarrow> if list_all live ds then DirMore lfn False else DirEnd)"
  using assms
proof (induction ds)
  case (Cons d ds)
  then have IH: "find_entries name ds lfn False = Some (case dir_lookup name ds of
     Some d \<Rightarrow> DirFound d | None \<Rightarrow> if list_all live ds then DirMore lfn False else DirEnd)"
    by (simp add: short_dir_def)
  show ?case
    using Cons.prems IH by (auto simp: short_dir_def live_def hit_def dir_lookup_def)
qed (simp add: dir_lookup_def)

lemma dir_lookup_append:
  "dir_lookup name (as @ bs) = (case dir_lookup name as of
     Some d \<Rightarrow> Some d | None \<Rightarrow> if list_all live as then dir_lookup name bs else None)"
  by (induction as) (auto simp: dir_lookup_def hit_def split: option.splits)

lemma dir_entries_take:
  assumes "unat spc \<le> 64" and "512 * unat spc \<le> length buf"
  shows "dir_entries (take (512 * unat spc) buf) spc = dir_entries buf spc"
    "\<forall>d\<in>set (dir_entries buf spc). length d = 32"
proof -
  have n: "unat (spc * 512 div 32) = 16 * unat spc"
    using assms(1) by (simp add: unat_div unat_word_ariths)
  have "slice (take (512 * unat spc) buf) (32 * i) 32 = slice buf (32 * i) 32" if "i < 16 * unat spc" for i
    using that by (simp add: slice_def drop_take min_def)
  then show "dir_entries (take (512 * unat spc) buf) spc = dir_entries buf spc"
    by (simp add: dir_entries_def n)
  show "\<forall>d\<in>set (dir_entries buf spc). length d = 32"
    using assms(2) by (auto simp: dir_entries_def n slice_def)
qed

context sector_dev
begin

lemma find_loop_lookup:
  assumes "bufs_ok st" and "chain (fat_entry img st) c cs e" and "\<not> in_use e"
    and "visited + length cs \<le> limit" and "short_dir (dir_data img st cs)"
  shows "\<exists>st'. find_loop dk name c visited lfn False limit st = Some (dir_lookup name (dir_data img st cs), st') \<and>
    same_vol st st' \<and> bufs_ok st' \<and> g_file_pool st' = g_file_pool st \<and> g_pool_used st' = g_pool_used st"
  using assms
proof (induction cs arbitrary: c visited st)
  case Nil
  then have "\<not> (c \<ge> 2 \<and> c < FAT32_EOC)" by (simp add: in_use_def)
  then show ?case using Nil.prems(1)
    by (subst find_loop.simps) (auto simp: dir_data_def dir_lookup_def same_vol_def)
next
  case (Cons a cs)
  have c: "c = a" "c \<ge> 2 \<and> c < FAT32_EOC" and ch: "chain (fat_entry img st) (fat_entry img st a) cs e"
    using Cons.prems(2) by (auto simp: in_use_def)
  have lim: "\<not> visited + 1 > limit" using Cons.prems(4) by simp
  let ?ds = "dir_entries (cluster_data img st a) (g_spc st)"
  have b: "unat (g_spc st) \<le> 64" "length (find_buf st) = 32768" using Cons.prems(1) by (simp_all add: bufs_ok_def)
  obtain buf where rd: "disk_read dk (cluster_to_lba st a) (g_spc st) (find_buf st) = Some (0, buf)"
      "length buf = 32768" "take (512 * unat (g_spc st)) buf = cluster_data img st a"
    using read_prefix[of "g_spc st" "find_buf st" "cluster_to_lba st a"] b by (auto simp: cluster_data_def)
  have ds: "dir_entries buf (g_spc st) = ?ds" "\<forall>d\<in>set ?ds. length d = 32"
    using dir_entries_take[OF b(1), of buf] rd(2,3) b(1) by auto
  have dd: "dir_data img st (a # cs) = ?ds @ dir_data img st cs" by (simp add: dir_data_def)
  have sd: "short_dir ?ds" "short_dir (dir_data img st cs)"
    using Cons.prems(5) by (auto simp: dd short_dir_def)
  let ?st1 = "st\<lparr> find_buf := buf \<rparr>"
  have b1: "bufs_ok ?st1" using Cons.prems(1) rd(2) by (simp add: bufs_ok_def)
  have sv1: "same_vol st ?st1" by (simp add: same_vol_def)
  note fe = find_entries_short[OF sd(1) ds(2), of name lfn]
  show ?case
  proof (cases "dir_lookup name ?ds = None \<and> list_all live ?ds")
    case True
    obtain sb where nx: "next_cluster dk a ?st1 = Some (fat_entry img ?st1 a, ?st1\<lparr> g_sector_buf := sb \<rparr>)" "length sb = 2048"
      using next_cluster_entry[OF b1] by blast
    let ?st2 = "?st1\<lparr> g_sector_buf := sb \<rparr>"
    have sv2: "same_vol st ?st2" and b2: "bufs_ok ?st2" using b1 nx(2) by (simp_all add: same_vol_def bufs_ok_def)
    have d2: "dir_data img ?st2 cs = dir_data img st cs"
      by (simp add: dir_data_def same_vol_data(2)[OF sv2])
    obtain st3 where "find_loop dk name (fat_entry img st a) (visited + 1) lfn False limit ?st2 =
          Some (dir_lookup name (dir_data img st cs), st3)" "same_vol ?st2 st3" "bufs_ok st3"
        "g_file_pool st3 = g_file_pool st" "g_pool_used st3 = g_pool_used st"
      using Cons.IH[OF b2, of "fat_entry img st a" "visited + 1"] ch Cons.prems(3,4) sd(2)
      unfolding same_vol_data[OF sv2] d2 by auto
    then show ?thesis
      using c lim rd(1) ds(1) fe True nx(1) same_vol_trans[OF sv2]
      by (subst find_loop.simps) (simp add: dd dir_lookup_append same_vol_data[OF sv1])
  next
    case False
    then show ?thesis
      using c lim rd(1) ds(1) fe b1 sv1
      by (subst find_loop.simps) (auto simp: dd dir_lookup_append split: option.splits)
  qed
qed

end


text \<open>A root directory with the entry of \<open>FILE.TXT\<close>, in one cluster.\<close>

definition sample_ent :: "u8 list" where
  "sample_ent = [0x46, 0x49, 0x4C, 0x45, 0x20, 0x20, 0x20, 0x20, 0x54, 0x58, 0x54, 0x20, 0, 0, 0, 0,
     0, 0, 0, 0, 0, 0, 0, 0, 0, 0, 3, 0, 88, 2, 0, 0]"

definition sample_dir :: "u64 \<Rightarrow> u8 list" where
  "sample_dir l = (if l = 1 then [0, 0, 0, 0, 0, 0, 0, 0, 0xFF, 0xFF, 0xFF, 0x0F]
     else if l = 10 then sample_ent else [])"

lemma sample_dir_entries:
  "dir_lookup ''file.txt'' (dir_entries (pad512 sample_ent) 1) = Some sample_ent"
  "list_all (\<lambda>d. live d \<longrightarrow> d ! 0 \<noteq> 0xE5 \<longrightarrow> de_attr d \<noteq> ATTR_LFN) (dir_entries (pad512 sample_ent) 1)"
  by code_simp+


end
