(* ===== verification/Os_Loaders.thy ===== *)
theory Os_Loaders
  imports Elf Fat Config
begin

text \<open>
  The OS loaders behind the table \<^verbatim>\<open>OSLoader\<close>: \<^verbatim>\<open>src/os/vios.c\<close>, \<^verbatim>\<open>src/os/linux.c\<close> and
  \<^verbatim>\<open>src/os/windows.c\<close>.  The BIOS paths work on the flat memory of \<open>Mem\<close> and the file system of
  \<open>Fat\<close>; the addresses of their static file buffers are parameters.  Of the UEFI paths the
  decisions are modelled (command line, choice of the boot manager); the firmware calls are
  parameters.  The final jump of the \<^verbatim>\<open>boot\<close> functions is machine code and not modelled.
\<close>

section \<open>The loader table\<close>

record BootInfo =
  mem_map_addr :: u64
  mem_map_size :: u64
  mem_map_entry_size :: u64
  mem_map_version :: u32
  fb_addr :: u64
  fb_width :: u32
  fb_height :: u32
  fb_pitch :: u32
  fb_bpp :: u32
  fb_pixel_format :: u32
  rsdp :: u64
  bi_cmdline :: string
  initrd_addr :: u64
  initrd_size :: u64

definition vios_can_load :: "BootEntry \<Rightarrow> bool" where "vios_can_load e \<longleftrightarrow> be_type e = OS_TYPE_ELF64"
definition linux_can_load :: "BootEntry \<Rightarrow> bool" where "linux_can_load e \<longleftrightarrow> be_type e = OS_TYPE_LINUX"
definition windows_can_load :: "BootEntry \<Rightarrow> bool" where "windows_can_load e \<longleftrightarrow> be_type e = OS_TYPE_WINDOWS"

section \<open>Reading a file into memory\<close>

definition mem_write :: "mem \<Rightarrow> u64 \<Rightarrow> u8 list \<Rightarrow> mem" where
  "mem_write m a bs = fold (\<lambda>i m. m(a + of_nat i := bs ! i)) [0..<length bs] m"

text \<open>
  Open, check the size against the buffer of \<open>max\<close> bytes at \<open>buf\<close>, read, close.  The result
  is the size, if the file was read.
\<close>

definition load_file ::
    "disk \<Rightarrow> u8 list \<Rightarrow> string \<Rightarrow> u64 \<Rightarrow> nat \<Rightarrow> fat_state \<times> mem \<Rightarrow> (u32 option \<times> fat_state \<times> mem) option" where
  "load_file dk stk path buf mx = (\<lambda>(st, m). do {
     (f, st) \<leftarrow> fat_open dk stk path st;
     if f = None then Some (None, st, m)
     else
       let sz = fat_file_size f st
       in if unat sz > mx then Some (None, fat_close f st, m)
          else do {
            (bs, st) \<leftarrow> fat_read dk f sz st;
            Some (Some sz, fat_close f st, mem_write m buf bs) } })"

section \<open>ViOS\<close>

definition vios_load ::
    "disk \<Rightarrow> u8 list \<Rightarrow> u16 option \<Rightarrow> u64 \<Rightarrow> BootEntry \<Rightarrow> fat_state \<times> mem \<Rightarrow> (u64 \<times> fat_state \<times> mem) option" where
  "vios_load dk stk arch kernel_buf entry sm = do {
     (r, st, m) \<leftarrow> load_file dk stk (be_kernel entry) kernel_buf 8388608 sm;
     case r of
       None \<Rightarrow> Some (0, st, m)
     | Some sz \<Rightarrow>
         if sz = 0 then Some (0, st, m)
         else let (ep, m) = elf64_load arch m kernel_buf (ucast sz) in Some (ep, st, m) }"

text \<open>
  The UEFI build reserves the pages of the segments first: the calls of \<^verbatim>\<open>AllocatePages\<close>, whose
  failures are ignored, as a list of addresses and page counts.
\<close>

definition segment_pages :: "Elf64_Phdr \<Rightarrow> (u64 \<times> u64) list" where
  "segment_pages ph = (if loadable ph then [(p_paddr ph, drop_bit 12 (p_memsz ph + 0xFFF))] else [])"

definition vios_reserve_elf_pages :: "mem \<Rightarrow> u64 \<Rightarrow> u64 \<Rightarrow> (u64 \<times> u64) list" where
  "vios_reserve_elf_pages m buf sz =
     (if sz < 64 then []
      else if m buf \<noteq> 0x7F \<or> m (buf + 1) \<noteq> 0x45 \<or> m (buf + 2) \<noteq> 0x4C \<or> m (buf + 3) \<noteq> 0x46 then []
      else concat (map (\<lambda>i. segment_pages (read_phdr m (phdr_addr m buf i))) [0..<unat (e_phnum m buf)]))"

text \<open>\<open>file\<close> is the address and the size of the buffer \<^verbatim>\<open>read_file\<close> returned.\<close>

definition vios_load_efi :: "u16 option \<Rightarrow> (u64 \<times> u64) option \<Rightarrow> mem \<Rightarrow> u64 \<times> (u64 \<times> u64) list \<times> mem" where
  "vios_load_efi arch file m =
     (case file of
        None \<Rightarrow> (0, [], m)
      | Some (buf, sz) \<Rightarrow>
          if sz = 0 then (0, [], m)
          else let pages = vios_reserve_elf_pages m buf sz; (ep, m) = elf64_load arch m buf sz
               in (ep, pages, m))"

section \<open>Linux\<close>

definition LINUX_MAGIC :: u32 where "LINUX_MAGIC = 0x53726448"
definition BOOT_PARAMS_ADDR :: u64 where "BOOT_PARAMS_ADDR = 0x90000"
definition CMDLINE_ADDR :: u64 where "CMDLINE_ADDR = 0x91000"
definition KERNEL_ADDR :: u64 where "KERNEL_ADDR = 0x100000"
definition INITRD_ADDR :: u64 where "INITRD_ADDR = 0x02000000"
definition LOADER_TYPE :: u8 where "LOADER_TYPE = 0xFF"
definition CAN_USE_HEAP :: u8 where "CAN_USE_HEAP = 0x80"

text \<open>\<^verbatim>\<open>str_copy_n\<close> with the terminating NUL, as bytes.\<close>

definition str_copy_n :: "string \<Rightarrow> nat \<Rightarrow> u8 list" where
  "str_copy_n src mx = map (\<lambda>c. of_nat (ord c)) (take (mx - 1) (cstr src)) @ [0]"

definition wr16 :: "mem \<Rightarrow> u64 \<Rightarrow> u16 \<Rightarrow> mem" where
  "wr16 m a v = mem_write m a [ucast v, ucast (drop_bit 8 v)]"

definition u32_le :: "u32 \<Rightarrow> u8 list" where
  "u32_le v = [ucast v, ucast (drop_bit 8 v), ucast (drop_bit 16 v), ucast (drop_bit 24 v)]"

definition wr32 :: "mem \<Rightarrow> u64 \<Rightarrow> u32 \<Rightarrow> mem" where
  "wr32 m a v = mem_write m a (u32_le v)"

definition setup_size :: "mem \<Rightarrow> u64 \<Rightarrow> u32" where
  "setup_size m kbuf = (let s = m (kbuf + 0x1F1) in (ucast (if s \<noteq> 0 then s else 4) + 1) * 512)"

text \<open>The zero page with the setup code, and the fields the loader fills in.\<close>

definition linux_params :: "mem \<Rightarrow> u64 \<Rightarrow> u64 \<Rightarrow> string \<Rightarrow> mem" where
  "linux_params m kbuf ksize cmdline =
     (let n = ucast (setup_size m kbuf);
          m = mem_set m BOOT_PARAMS_ADDR 0 4096;
          m = mem_copy m BOOT_PARAMS_ADDR kbuf (if n < ksize then n else ksize);
          m = m(BOOT_PARAMS_ADDR + 0x210 := LOADER_TYPE);
          m = m(BOOT_PARAMS_ADDR + 0x211 := m (BOOT_PARAMS_ADDR + 0x211) OR CAN_USE_HEAP);
          m = wr16 m (BOOT_PARAMS_ADDR + 0x224) 0xFE00;
          m = m(BOOT_PARAMS_ADDR + 0x226 := 0);
          m = mem_write m CMDLINE_ADDR (str_copy_n cmdline 2048)
      in wr32 m (BOOT_PARAMS_ADDR + 0x228) 0x91000)"

text \<open>\<^verbatim>\<open>pm_size\<close> is computed in 32 bits.\<close>

definition linux_place :: "mem \<Rightarrow> u64 \<Rightarrow> u64 \<Rightarrow> string \<Rightarrow> (u64 \<times> u64) option \<Rightarrow> mem" where
  "linux_place m kbuf ksize cmdline initrd =
     (let pm_offset = setup_size m kbuf;
          pm_size = ucast (ksize - ucast pm_offset) :: u32;
          m = linux_params m kbuf ksize cmdline;
          m = mem_copy m KERNEL_ADDR (kbuf + ucast pm_offset) (ucast pm_size)
      in case initrd of
           None \<Rightarrow> m
         | Some (ibuf, isize) \<Rightarrow>
             if isize = 0 then m
             else
               let m = mem_copy m INITRD_ADDR ibuf isize;
                   m = wr32 m (BOOT_PARAMS_ADDR + 0x218) (ucast INITRD_ADDR)
               in wr32 m (BOOT_PARAMS_ADDR + 0x21C) (ucast isize))"

definition linux_info :: "u64 option \<Rightarrow> BootInfo \<Rightarrow> BootInfo" where
  "linux_info isize info =
     (case isize of
        None \<Rightarrow> info
      | Some n \<Rightarrow> if n = 0 then info else info\<lparr> initrd_addr := INITRD_ADDR, initrd_size := n \<rparr>)"

definition linux_load ::
    "disk \<Rightarrow> u8 list \<Rightarrow> u64 \<Rightarrow> u64 \<Rightarrow> BootEntry \<Rightarrow> BootInfo \<Rightarrow> fat_state \<times> mem
     \<Rightarrow> (u64 \<times> BootInfo \<times> fat_state \<times> mem) option" where
  "linux_load dk stk kbuf ibuf entry info sm = do {
     (k, st, m) \<leftarrow> load_file dk stk (be_kernel entry) kbuf 16777216 sm;
     case k of
       None \<Rightarrow> Some (0, info, st, m)
     | Some ksize \<Rightarrow> do {
         (i, st, m) \<leftarrow> (if nz (be_initrd entry)
                        then load_file dk stk (be_initrd entry) ibuf 33554432 (st, m)
                        else Some (None, st, m));
         if ksize < 512 then Some (0, info, st, m)
         else if rd32 m (kbuf + 0x202) \<noteq> LINUX_MAGIC then Some (0, info, st, m)
         else Some (KERNEL_ADDR + 0x200, linux_info (map_option ucast i) info, st,
                linux_place m kbuf (ucast ksize) (be_cmdline entry) (map_option (\<lambda>n. (ibuf, ucast n)) i)) } }"

subsection \<open>UEFI command line\<close>

fun has_initrd :: "string \<Rightarrow> bool" where
  "has_initrd [] = False"
| "has_initrd (c # cmd) =
     (if c = NUL then False
      else if take 7 (c # cmd) = ''initrd='' then True else has_initrd cmd)"

abbreviation backslash :: char where "backslash \<equiv> CHR 0x5C"

definition efi_slash :: "char \<Rightarrow> char" where
  "efi_slash c = (if c = CHR ''/'' then backslash else c)"

text \<open>The contents of \<^verbatim>\<open>full_cmd[512]\<close> before the NUL; the single blank is not bounds-checked.\<close>

definition efi_cmdline :: "string \<Rightarrow> string \<Rightarrow> string" where
  "efi_cmdline cmd initrd =
     (let pre = (if \<not> has_initrd cmd \<and> nz initrd
                 then take 510 (''initrd='' @ map efi_slash (cstr initrd)) @ (if nz cmd then '' '' else [])
                 else [])
      in pre @ take (510 - length pre) (cstr cmd))"

definition load_options :: "string \<Rightarrow> u16 list" where
  "load_options full_cmd = map (\<lambda>c. of_nat (ord c)) full_cmd @ [0]"

text \<open>
  What \<^verbatim>\<open>StartImage\<close> is called with: the image, the device handle set in its loaded image
  protocol and the load options.  \<open>read_file\<close>, \<open>load_image\<close>, \<open>has_li\<close> (the image carries the
  protocol), \<open>dev\<close> (\<^verbatim>\<open>get_device_handle\<close>) and \<open>alloc\<close> (\<^verbatim>\<open>AllocatePool\<close> succeeds) stand for the firmware.
\<close>

record ('h, 'd) start_image =
  si_image :: 'h
  si_device :: "'d option"
  si_options :: "u16 list option"

definition linux_load_efi ::
    "(string \<Rightarrow> u8 list option) \<Rightarrow> (u8 list \<Rightarrow> 'h option) \<Rightarrow> ('h \<Rightarrow> bool) \<Rightarrow> 'd option \<Rightarrow> (nat \<Rightarrow> bool)
     \<Rightarrow> BootEntry \<Rightarrow> ('h, 'd) start_image option" where
  "linux_load_efi read_file load_image has_li dev alloc entry = do {
     kbuf \<leftarrow> read_file (be_kernel entry);
     if length kbuf < 512 then None
     else do {
       h \<leftarrow> load_image kbuf;
       let full_cmd = efi_cmdline (be_cmdline entry) (be_initrd entry);
       Some (if has_li h
             then \<lparr> si_image = h, si_device = dev,
                    si_options = (if alloc ((length full_cmd + 1) * 2) then Some (load_options full_cmd) else None) \<rparr>
             else \<lparr> si_image = h, si_device = None, si_options = None \<rparr>) } }"

section \<open>Windows\<close>

record WinMBRPart =
  wp_status :: u8
  wp_type :: u8
  wp_first_lba :: u32

definition mbr_part :: "u8 list \<Rightarrow> nat \<Rightarrow> WinMBRPart" where
  "mbr_part mbr i = (let p = drop (446 + 16 * i) mbr
     in \<lparr> wp_status = p ! 0, wp_type = p ! 4, wp_first_lba = u32_of_le (drop 8 p) \<rparr>)"

definition is_win_part_type :: "u8 \<Rightarrow> bool" where
  "is_win_part_type t \<longleftrightarrow> t = 0x07 \<or> t = 0x0C \<or> t = 0x0B"

definition win_scan :: "WinMBRPart \<Rightarrow> u32 \<times> u32 \<Rightarrow> u32 \<times> u32" where
  "win_scan p = (\<lambda>(win_lba, active_lba).
     if \<not> is_win_part_type (wp_type p) then (win_lba, active_lba)
     else (if win_lba = 0 then wp_first_lba p else win_lba,
           if wp_status p = 0x80 \<and> active_lba = 0 then wp_first_lba p else active_lba))"

definition win_target :: "u8 list \<Rightarrow> u32" where
  "win_target mbr =
     (let (win_lba, active_lba) = fold (\<lambda>i. win_scan (mbr_part mbr i)) [0..<4] (0, 0)
      in if active_lba \<noteq> 0 then active_lba else win_lba)"

definition VBR_LOAD_ADDR :: u64 where "VBR_LOAD_ADDR = 0x7C00"

text \<open>\<open>mbr\<close> and \<open>vbr\<close> are the static buffers; they keep their contents when a read fails.\<close>

definition windows_load :: "disk \<Rightarrow> u8 list \<Rightarrow> u8 list \<Rightarrow> mem \<Rightarrow> (u64 \<times> mem) option" where
  "windows_load dk mbr vbr m = do {
     (_, mbr) \<leftarrow> disk_read dk 0 1 mbr;
     let target_lba = win_target mbr;
     if target_lba = 0 then Some (0, m)
     else do {
       (_, vbr) \<leftarrow> disk_read dk (ucast target_lba) 1 vbr;
       if u16_of_le (drop 510 vbr) \<noteq> 0xAA55 then Some (0, m)
       else Some (VBR_LOAD_ADDR, mem_write m VBR_LOAD_ADDR (take 512 vbr)) } }"

subsection \<open>UEFI boot manager\<close>

definition WIN_BOOTMGR_PATHS :: "string list" where
  "WIN_BOOTMGR_PATHS =
     [[backslash] @ ''EFI'' @ [backslash] @ ''Microsoft'' @ [backslash] @ ''Boot'' @ [backslash] @ ''bootmgfw.efi'',
      [backslash] @ ''EFI'' @ [backslash] @ ''Boot'' @ [backslash] @ ''bootmgfw.efi'',
      [backslash] @ ''bootmgfw.efi'']"

definition ascii_to_ucs2_path :: "string \<Rightarrow> nat \<Rightarrow> u16 list" where
  "ascii_to_ucs2_path src mx =
     map (\<lambda>c. of_nat (ord (efi_slash c))) (take (mx - 1) (cstr src)) @ [0]"

text \<open>
  A handle's file system, when it can be opened, maps a path to the bytes \<^verbatim>\<open>read_efi_file\<close>
  returned; \<open>open_volume\<close> stands for it.  \<open>load_image\<close> is the firmware call, with its boot policy
  argument.  A result is the image and the device handle set in its loaded image protocol.
\<close>

type_synonym efi_volume = "u16 list \<Rightarrow> u8 list option"

definition bootmgr_paths :: "string \<Rightarrow> string list" where
  "bootmgr_paths explicit_path = (if nz explicit_path then [explicit_path] else []) @ WIN_BOOTMGR_PATHS"

definition try_path :: "(bool \<Rightarrow> u8 list \<Rightarrow> 'h option) \<Rightarrow> efi_volume \<Rightarrow> string \<Rightarrow> 'h option" where
  "try_path load_image root path =
     (case root (ascii_to_ucs2_path path 256) of
        None \<Rightarrow> None
      | Some fbuf \<Rightarrow>
          if length fbuf < 2 then None
          else if fbuf ! 0 \<noteq> 0x4D \<or> fbuf ! 1 \<noteq> 0x5A then None
          else case load_image True fbuf of Some img \<Rightarrow> Some img | None \<Rightarrow> load_image False fbuf)"

fun try_paths :: "(bool \<Rightarrow> u8 list \<Rightarrow> 'h option) \<Rightarrow> efi_volume \<Rightarrow> string list \<Rightarrow> 'h option" where
  "try_paths load_image root [] = None"
| "try_paths load_image root (p # ps) =
     (case try_path load_image root p of Some img \<Rightarrow> Some img | None \<Rightarrow> try_paths load_image root ps)"

definition try_load_bootmgr_on_handle ::
    "('d \<Rightarrow> efi_volume option) \<Rightarrow> (bool \<Rightarrow> u8 list \<Rightarrow> 'h option) \<Rightarrow> 'd \<Rightarrow> string \<Rightarrow> ('h \<times> 'd) option" where
  "try_load_bootmgr_on_handle open_volume load_image sfs_handle explicit_path =
     (case open_volume sfs_handle of
        None \<Rightarrow> None
      | Some root \<Rightarrow>
          (case try_paths load_image root (bootmgr_paths explicit_path) of
             None \<Rightarrow> None
           | Some img \<Rightarrow> Some (img, sfs_handle)))"

fun try_handles ::
    "('d \<Rightarrow> efi_volume option) \<Rightarrow> (bool \<Rightarrow> u8 list \<Rightarrow> 'h option) \<Rightarrow> string \<Rightarrow> 'd list \<Rightarrow> ('h \<times> 'd) option" where
  "try_handles open_volume load_image path [] = None"
| "try_handles open_volume load_image path (h # hs) =
     (case try_load_bootmgr_on_handle open_volume load_image h path of
        Some img \<Rightarrow> Some img | None \<Rightarrow> try_handles open_volume load_image path hs)"

text \<open>
  The image that is started; \<open>boot_dev\<close> is the device of the boot volume and \<open>handles\<close> the
  result of \<^verbatim>\<open>LocateHandleBuffer\<close>, empty when that fails.
\<close>

definition windows_load_efi ::
    "('d \<Rightarrow> efi_volume option) \<Rightarrow> (bool \<Rightarrow> u8 list \<Rightarrow> 'h option) \<Rightarrow> 'd option \<Rightarrow> 'd list \<Rightarrow> BootEntry
     \<Rightarrow> ('h \<times> 'd) option" where
  "windows_load_efi open_volume load_image boot_dev handles entry =
     (case (case boot_dev of
              None \<Rightarrow> None
            | Some d \<Rightarrow> try_load_bootmgr_on_handle open_volume load_image d (be_kernel entry)) of
        Some img \<Rightarrow> Some img
      | None \<Rightarrow> try_handles open_volume load_image (be_kernel entry) handles)"
section \<open>Windows: which partition is started\<close>

definition win_candidate :: "WinMBRPart \<Rightarrow> bool" where
  "win_candidate p \<longleftrightarrow> is_win_part_type (wp_type p) \<and> wp_first_lba p \<noteq> 0"

definition win_active :: "WinMBRPart \<Rightarrow> bool" where
  "win_active p \<longleftrightarrow> win_candidate p \<and> wp_status p = 0x80"

definition first_lba :: "WinMBRPart list \<Rightarrow> u32" where
  "first_lba ps = (case ps of [] \<Rightarrow> 0 | p # _ \<Rightarrow> wp_first_lba p)"

text \<open>The candidates in the order of preference: active ones first.\<close>

definition win_order :: "u8 list \<Rightarrow> WinMBRPart list" where
  "win_order mbr = (let ps = map (mbr_part mbr) [0..<4] in filter win_active ps @ filter win_candidate ps)"

lemma win_scan_first:
  "fold win_scan ps (w, a) =
     (if w \<noteq> 0 then w else first_lba (filter win_candidate ps),
      if a \<noteq> 0 then a else first_lba (filter win_active ps))"
  by (induction ps arbitrary: w a)
    (auto simp: win_scan_def first_lba_def win_candidate_def win_active_def)

lemma first_lba_filter: "first_lba (filter win_active ps) = 0 \<longleftrightarrow> filter win_active ps = []"
proof (cases "filter win_active ps")
  case (Cons p qs)
  then have "p \<in> set (filter win_active ps)" by simp
  then have "win_active p" by simp
  then show ?thesis using Cons by (simp add: first_lba_def win_active_def win_candidate_def)
qed (simp add: first_lba_def)

lemma first_lba_append: "first_lba (ps @ qs) = (if ps = [] then first_lba qs else first_lba ps)"
  by (simp add: first_lba_def split: list.split)

lemma win_target_first: "win_target mbr = first_lba (win_order mbr)"
proof -
  let ?ps = "map (mbr_part mbr) [0..<4]"
  have "fold (\<lambda>i. win_scan (mbr_part mbr i)) [0..<4] (0, 0) = fold win_scan ?ps (0, 0)"
    by (simp only: fold_map comp_def)
  then have "win_target mbr = (if first_lba (filter win_active ?ps) \<noteq> 0
      then first_lba (filter win_active ?ps) else first_lba (filter win_candidate ?ps))"
    by (simp only: win_target_def win_scan_first) simp
  then show ?thesis
    by (simp add: win_order_def Let_def first_lba_filter first_lba_append del: upt_rec_numeral)
qed

lemma mem_write_at:
  assumes "no_wrap a (length bs)"
  shows "mem_write m a bs x = (if in_range a (length bs) x then bs ! (unat x - unat a) else m x)"
proof -
  have "fold (\<lambda>i m. m(a + of_nat i := bs ! i)) [0..<k] m x
      = (if in_range a k x then bs ! (unat x - unat a) else m x)" if "k \<le> length bs" for k
    using that
  proof (induction k)
    case (Suc k)
    have u: "unat (a + of_nat k) = unat a + k"
      using assms Suc.prems by (simp add: no_wrap_def unat_word_ariths unat_of_nat)
    show ?case
    proof (cases "x = a + of_nat k")
      case True
      then show ?thesis using u by (simp add: in_range_def)
    next
      case False
      then have "unat x \<noteq> unat a + k" using u by (metis word_unat_eq_iff)
      then show ?thesis using False Suc by (auto simp: in_range_def)
    qed
  qed simp
  from this[of "length bs"] show ?thesis by (simp add: mem_write_def)
qed

lemma windows_load_image:
  fixes img :: "u64 \<Rightarrow> u8 list"
  defines "sec \<equiv> \<lambda>l. pad512 (img l)"
  assumes "length mbr = 512" and "length vbr = 512"
  shows "\<exists>ep m'. windows_load (image_disk sec drive) mbr vbr m = Some (ep, m') \<and>
    (case win_order (sec 0) of
       [] \<Rightarrow> ep = 0 \<and> m' = m
     | p # _ \<Rightarrow>
         (let b = sec (ucast (wp_first_lba p))
          in if u16_of_le (drop 510 b) = 0xAA55
             then ep = VBR_LOAD_ADDR \<and> m' = (\<lambda>x. if in_range VBR_LOAD_ADDR 512 x then b ! (unat x - 0x7C00) else m x)
             else ep = 0 \<and> m' = m))"
proof -
  have len: "length (sec l) = 512" for l by (simp add: sec_def)
  have rd: "disk_read (image_disk sec drive) lba 1 buf = Some (0, sec lba)" if "length buf = 512" for lba buf
    using image_dev.read_sectors[of 1 buf img drive lba] that
    by (simp add: sec_def sectors_def write_at_def)
  have z: "p \<in> set (win_order b) \<Longrightarrow> wp_first_lba p \<noteq> 0" for p b
    by (auto simp: win_order_def Let_def win_active_def win_candidate_def)
  have w: "mem_write m VBR_LOAD_ADDR (sec lba)
      = (\<lambda>x. if in_range VBR_LOAD_ADDR 512 x then sec lba ! (unat x - 0x7C00) else m x)" for lba
    using mem_write_at[of VBR_LOAD_ADDR "sec lba" m] len[of lba]
    by (auto simp: no_wrap_def VBR_LOAD_ADDR_def fun_eq_iff)
  show ?thesis
    using z[of _ "sec 0"] len assms(2,3)
    by (simp add: windows_load_def rd win_target_first first_lba_def w Let_def split: list.split)
qed

text \<open>
  The BIOS loader for Windows copies to 0x7C00 the boot sector of the first active Windows
  partition, or of the first Windows partition when none is active, and returns that address;
  it returns 0 and leaves memory alone when there is no such partition or its boot sector has
  no signature.  Partitions that start at sector 0 do not count.
\<close>

theorem windows_load_vbr:
  fixes img :: "u64 \<Rightarrow> u8 list"
  defines "sec \<equiv> \<lambda>l. pad512 (img l)"
  assumes "length mbr = 512" and "length vbr = 512"
  shows "\<exists>ep m'. windows_load (image_disk sec drive) mbr vbr m = Some (ep, m') \<and>
    (case win_order (sec 0) of
       [] \<Rightarrow> ep = 0 \<and> m' = m
     | p # _ \<Rightarrow>
         (let b = sec (ucast (wp_first_lba p))
          in if u16_of_le (drop 510 b) = 0xAA55
             then ep = VBR_LOAD_ADDR \<and> m' = (\<lambda>x. if in_range VBR_LOAD_ADDR 512 x then b ! (unat x - 0x7C00) else m x)
             else ep = 0 \<and> m' = m))"
  unfolding sec_def using assms(2,3) by (rule windows_load_image)

definition sample_win :: "u64 \<Rightarrow> u8 list" where
  "sample_win l =
     (if l = 0 then replicate 446 0 @ [0, 0, 0, 0, 0x07, 0, 0, 0, 9, 0, 0, 0, 1, 0, 0, 0]
                    @ [0x80, 0, 0, 0, 0x07, 0, 0, 0, 2, 0, 0, 0, 1, 0, 0, 0]
      else if l = 2 then 0xEB # replicate 509 0 @ [0x55, 0xAA] else [])"

lemma sample_win_order:
  "map wp_first_lba (win_order (pad512 (sample_win 0))) = [2, 9, 2]"
  by code_simp

theorem windows_load_vbr_witness:
  "\<exists>m'. windows_load (image_disk (\<lambda>l. pad512 (sample_win l)) 0x80) (replicate 512 0) (replicate 512 0) (\<lambda>_. 0)
     = Some (0x7C00, m') \<and> m' 0x7C00 = 0xEB"
proof -
  obtain p ps where p: "win_order (pad512 (sample_win 0)) = p # ps" "wp_first_lba p = 2"
    using sample_win_order by (cases "win_order (pad512 (sample_win 0))") auto
  have s: "u16_of_le (drop 510 (pad512 (sample_win 2))) = 0xAA55" "pad512 (sample_win 2) ! 0 = 0xEB"
    by code_simp+
  show ?thesis
    using windows_load_vbr[where mbr = "replicate 512 0" and vbr = "replicate 512 0" and img = sample_win and drive = "0x80" and m = "\<lambda>_. 0"] s
    by (auto simp: p VBR_LOAD_ADDR_def in_range_def Let_def)
qed

section \<open>Windows: which boot manager is started\<close>

text \<open>One attempt: a path on a device.\<close>

definition win_attempt ::
    "('d \<Rightarrow> efi_volume option) \<Rightarrow> (bool \<Rightarrow> u8 list \<Rightarrow> 'h option) \<Rightarrow> 'd \<times> string \<Rightarrow> ('h \<times> 'd) option" where
  "win_attempt open_volume load_image = (\<lambda>(d, p).
     case open_volume d of
       None \<Rightarrow> None
     | Some root \<Rightarrow> map_option (\<lambda>img. (img, d)) (try_path load_image root p))"

definition first_some :: "('a \<Rightarrow> 'b option) \<Rightarrow> 'a list \<Rightarrow> 'b option" where
  "first_some f xs = (case List.map_filter f xs of [] \<Rightarrow> None | y # _ \<Rightarrow> Some y)"

lemma first_some_simps:
  "first_some f [] = None"
  "first_some f (x # xs) = (case f x of Some y \<Rightarrow> Some y | None \<Rightarrow> first_some f xs)"
  "first_some f (xs @ ys) = (case first_some f xs of Some y \<Rightarrow> Some y | None \<Rightarrow> first_some f ys)"
  by (auto simp: first_some_def List.map_filter_def split: option.splits list.splits)

lemma try_bootmgr_first:
  "try_load_bootmgr_on_handle ov li d path = first_some (win_attempt ov li) (map (Pair d) (bootmgr_paths path))"
proof -
  have "(case ov d of None \<Rightarrow> None | Some root \<Rightarrow>
      (case try_paths li root ps of None \<Rightarrow> None | Some img \<Rightarrow> Some (img, d)))
    = first_some (win_attempt ov li) (map (Pair d) ps)" for ps
    by (induction ps) (auto simp: first_some_simps win_attempt_def split: option.splits)
  then show ?thesis by (simp add: try_load_bootmgr_on_handle_def)
qed

lemma try_handles_first:
  "try_handles ov li path hs = first_some (win_attempt ov li) (List.product hs (bootmgr_paths path))"
  by (induction hs) (auto simp: first_some_simps try_bootmgr_first split: option.split)

text \<open>
  The UEFI loader for Windows starts the first image that loads, trying the devices in
  order (the boot device, then all others) and on each of them the configured path before the
  well-known ones; the image is tied to the device it was read from.
\<close>

theorem windows_efi_first_image:
  "windows_load_efi open_volume load_image boot_dev handles entry =
     first_some (win_attempt open_volume load_image)
       (List.product ((case boot_dev of None \<Rightarrow> [] | Some d \<Rightarrow> [d]) @ handles) (bootmgr_paths (be_kernel entry)))"
  by (simp add: windows_load_efi_def try_handles_first try_bootmgr_first first_some_simps split: option.split)

section \<open>Linux: the command line of the EFI stub\<close>

definition efi_options :: "string \<Rightarrow> string \<Rightarrow> string" where
  "efi_options cmd initrd =
     (if has_initrd cmd \<or> \<not> nz initrd then []
      else ''initrd='' @ map efi_slash (cstr initrd) @ (if nz cmd then '' '' else [])) @ cstr cmd"

text \<open>
  The load options passed to the kernel's EFI stub fit the 512-character buffer and hold
  no NUL but the last; they are the configured command line, with an initrd option for the
  configured initrd in front unless the command line has one already, and nothing is cut off
  as long as the whole has at most 510 characters.
\<close>

theorem linux_efi_options:
  "length (load_options (efi_cmdline cmd initrd)) \<le> 512 \<and> 0 \<notin> set (butlast (load_options (efi_cmdline cmd initrd))) \<and>
   (length (efi_options cmd initrd) \<le> 510 \<longrightarrow> efi_cmdline cmd initrd = efi_options cmd initrd) \<and>
   (\<not> has_initrd cmd \<and> nz initrd \<longrightarrow> take 7 (efi_cmdline cmd initrd) = ''initrd='')"
proof (intro conjI impI)
  show "length (load_options (efi_cmdline cmd initrd)) \<le> 512"
    by (auto simp: load_options_def efi_cmdline_def Let_def min_def)
  have "NUL \<notin> set (efi_cmdline cmd initrd)"
    by (auto simp: efi_cmdline_def Let_def efi_slash_def dest!: in_set_takeD split: if_splits)
  moreover have "(of_nat (ord c) :: u16) = 0 \<longleftrightarrow> c = NUL" for c
  proof -
    have "ord c < 65536" by (rule less_trans[OF nat_of_char_less_256]) simp
    then have "(of_nat (ord c) :: u16) = 0 \<longleftrightarrow> ord c = 0"
      by (simp add: word_of_nat_eq_0_iff dvd_eq_mod_eq_0)
    then show ?thesis using of_char_eq_iff[of c NUL, where 'a = nat] by simp
  qed
  ultimately have "\<forall>c\<in>set (efi_cmdline cmd initrd). 0 \<noteq> (of_nat (ord c) :: u16)" by metis
  then show "0 \<notin> set (butlast (load_options (efi_cmdline cmd initrd)))"
    unfolding load_options_def butlast_snoc set_map by blast
  show "length (efi_options cmd initrd) \<le> 510 \<Longrightarrow> efi_cmdline cmd initrd = efi_options cmd initrd"
    by (auto simp: efi_options_def efi_cmdline_def Let_def split: if_splits)
  show "\<not> has_initrd cmd \<and> nz initrd \<Longrightarrow> take 7 (efi_cmdline cmd initrd) = ''initrd=''"
    by (simp add: efi_cmdline_def Let_def)
qed

theorem linux_efi_options_witness:
  "load_options (efi_cmdline ''quiet'' ''/boot/i'') =
     map (\<lambda>c. of_nat (ord c)) (''initrd='' @ [backslash] @ ''boot'' @ [backslash] @ ''i quiet'') @ [0]"
proof -
  have "length (efi_options ''quiet'' ''/boot/i'') \<le> 510" by code_simp
  moreover have "efi_options ''quiet'' ''/boot/i'' = ''initrd='' @ [backslash] @ ''boot'' @ [backslash] @ ''i quiet''"
    by code_simp
  ultimately show ?thesis
    using linux_efi_options[of "''quiet''" "''/boot/i''"] by (simp add: load_options_def)
qed
section \<open>Linux: what lies where\<close>

lemma mem_copy_at:
  assumes "no_wrap d (unat n)" and "no_wrap s (unat n)" and "unat d + unat n \<le> unat s"
  shows "mem_copy m d s n x = (if in_range d (unat n) x then m (s + of_nat (unat x - unat d)) else m x)"
proof -
  have "mem_copy m d s n = block_copy m d s (unat n)"
    unfolding mem_copy_memcpy by (rule memcpy_block[OF assms(1,2)]) (use assms(3) in \<open>auto simp: in_range_def\<close>)
  moreover have "x - d + s = s + of_nat (unat x - unat d)" if "in_range d (unat n) x"
    using that by (simp add: in_range_def of_nat_diff)
  ultimately show ?thesis by (simp add: block_copy_def add.commute)
qed

lemma mem_set_at: "no_wrap d (unat n) \<Longrightarrow> mem_set m d c n x = (if in_range d (unat n) x then c else m x)"
  by (simp add: mem_set_memset memset_range)

text \<open>The boot sector and the setup sectors, of which a count of 0 means 4.\<close>

definition setup_bytes :: "mem \<Rightarrow> u64 \<Rightarrow> nat" where
  "setup_bytes m kbuf = 512 * (1 + (if m (kbuf + 0x1F1) = 0 then 4 else unat (m (kbuf + 0x1F1))))"

lemma unat_setup_size: "unat (setup_size m kbuf) = setup_bytes m kbuf"
proof -
  define s where "s = (if m (kbuf + 0x1F1) \<noteq> 0 then m (kbuf + 0x1F1) else 4)"
  have "unat s < 256" using unsigned_less[of s] by simp
  then have "unat (of_nat ((unat s + 1) * 512) :: u32) = (unat s + 1) * 512"
    by (subst unat_of_nat) (simp add: mod_less)
  moreover have "setup_size m kbuf = of_nat ((unat s + 1) * 512)"
    by (simp add: setup_size_def s_def Let_def unsigned_ucast_eq)
  ultimately show ?thesis by (simp only:) (simp add: setup_bytes_def s_def)
qed

lemma setup_size_bounds: "1024 \<le> unat (setup_size m kbuf)" "unat (setup_size m kbuf) \<le> 0x20000"
  using unsigned_less[of "m (kbuf + 0x1F1)", where 'a = nat] unat_zero_iff[of "m (kbuf + 0x1F1)"]
  by (auto simp: unat_setup_size setup_bytes_def)

lemma length_u32_le [simp]: "length (u32_le v) = 4"
  by (simp add: u32_le_def)

lemma wr32_at:
  "no_wrap a 4 \<Longrightarrow> wr32 m a v x = (if in_range a 4 x then u32_le v ! (unat x - unat a) else m x)"
  by (simp add: wr32_def mem_write_at)

lemma wr16_at:
  "no_wrap a 2 \<Longrightarrow> wr16 m a v x = (if in_range a 2 x then [ucast v, ucast (drop_bit 8 v)] ! (unat x - unat a) else m x)"
  unfolding wr16_def by (subst mem_write_at) (simp_all add: no_wrap_def in_range_def)

lemma u32_of_le_u32_le: "u32_of_le (u32_le v) = v"
proof (rule bit_word_eqI)
  fix n assume "n < LENGTH(32)"
  then show "bit (u32_of_le (u32_le v)) n = bit v n"
    by (cases "24 \<le> n"; cases "16 \<le> n"; cases "8 \<le> n") (auto simp: u32_of_le_def u32_le_def bit_simps)
qed

lemma mem_bytes_eqI:
  assumes "no_wrap a n" and "length bs = n" and "\<And>x. in_range a n x \<Longrightarrow> m x = bs ! (unat x - unat a)"
  shows "mem_bytes m a n = bs"
proof (rule nth_equalityI)
  fix i assume "i < length (mem_bytes m a n)"
  then have i: "i < n" by (simp add: mem_bytes_def)
  then have u: "unat (a + of_nat i) = unat a + i"
    using assms(1) by (simp add: no_wrap_def unat_word_ariths unat_of_nat)
  then show "mem_bytes m a n ! i = bs ! i"
    using assms(3)[of "a + of_nat i"] i by (simp add: mem_bytes_def in_range_def)
qed (simp add: mem_bytes_def assms(2))

lemma rd32_eqI:
  assumes "no_wrap a 4" and "\<And>x. in_range a 4 x \<Longrightarrow> m x = u32_le v ! (unat x - unat a)"
  shows "rd32 m a = v"
  unfolding rd32_def using mem_bytes_eqI[OF assms(1) length_u32_le assms(2)] by (simp add: u32_of_le_u32_le)

lemma length_str_copy_n: "length (str_copy_n c 2048) \<le> 2048"
  by (simp add: str_copy_n_def)

text \<open>The boot parameters as a function of the file; the setup part is copied whole.\<close>

lemma linux_params_at:
  assumes "unat (setup_size m kbuf) \<le> unat ksize" and "no_wrap kbuf (unat ksize)" and "0x100000 \<le> unat kbuf"
  shows "linux_params m kbuf ksize c x =
    (if in_range 0x90228 4 x then u32_le 0x91000 ! (unat x - 0x90228)
     else if in_range 0x91000 (length (str_copy_n c 2048)) x then str_copy_n c 2048 ! (unat x - 0x91000)
     else if x = 0x90226 then 0
     else if in_range 0x90224 2 x then [0, 0xFE] ! (unat x - 0x90224)
     else if x = 0x90211 then m (kbuf + 0x211) OR CAN_USE_HEAP
     else if x = 0x90210 then LOADER_TYPE
     else if in_range 0x90000 (unat (setup_size m kbuf)) x then m (kbuf + of_nat (unat x - 0x90000))
     else if in_range 0x90000 4096 x then 0 else m x)"
proof -
  let ?n = "ucast (setup_size m kbuf) :: u64"
  have n: "unat ?n = unat (setup_size m kbuf)" 
    using unat_u32_less[of "setup_size m kbuf"] by (simp add: unsigned_ucast_eq take_bit_nat_eq_self)
  note b = setup_size_bounds[of m kbuf]
  have len: "(if ?n < ksize then ?n else ksize) = ?n"
    using assms(1) n by (auto simp: word_less_nat_alt word_unat_eq_iff)
  have cp: "mem_copy m' 0x90000 kbuf ?n y =
      (if in_range 0x90000 (unat (setup_size m kbuf)) y then m' (kbuf + of_nat (unat y - 0x90000)) else m' y)" for m' y
    using mem_copy_at[of "0x90000" ?n kbuf m' y] b n assms by (simp add: no_wrap_def)
  have set: "mem_set m 0x90000 0 4096 y = (if in_range 0x90000 4096 y then 0 else m y)" for y
    using mem_set_at[of "0x90000" 4096 m 0 y] by (simp add: no_wrap_def)
  have high: "\<not> in_range 0x90000 4096 (kbuf + of_nat i)" if "i < unat (setup_size m kbuf)" for i
  proof -
    have "unat (kbuf + of_nat i) = unat kbuf + i"
      using assms(1,2) that by (simp add: no_wrap_def unat_word_ariths unat_of_nat)
    then show ?thesis using assms(3) by (simp add: in_range_def)
  qed
  have cs: "mem_copy (mem_set m 0x90000 0 4096) 0x90000 kbuf ?n y =
      (if in_range 0x90000 (unat (setup_size m kbuf)) y then m (kbuf + of_nat (unat y - 0x90000))
       else if in_range 0x90000 4096 y then 0 else m y)" for y
  proof (cases "in_range 0x90000 (unat (setup_size m kbuf)) y")
    case True
    then have "unat y - 0x90000 < unat (setup_size m kbuf)" by (auto simp: in_range_def)
    then show ?thesis using True high[of "unat y - 0x90000"] by (simp add: cp set)
  qed (simp add: cp set)
  have w: "mem_write m' 0x91000 (str_copy_n c 2048) y =
      (if in_range 0x91000 (length (str_copy_n c 2048)) y then str_copy_n c 2048 ! (unat y - 0x91000) else m' y)" for m' y
    using mem_write_at[of "0x91000" "str_copy_n c 2048" m' y] length_str_copy_n[of c] by (simp add: no_wrap_def)
  have v: "(0xFE00 :: u8) = 0" by simp
  have r: "in_range 0x90000 (unat (setup_size m kbuf)) 0x90211" using b by (simp add: in_range_def)
  show ?thesis
    by (simp add: linux_params_def BOOT_PARAMS_ADDR_def CMDLINE_ADDR_def Let_def len wr32_at wr16_at no_wrap_def w cs r v)
qed

lemma linux_place_at:
  fixes m kbuf
  defines "n \<equiv> unat (setup_size m kbuf)"
  assumes "n \<le> unat ksize" and "unat ksize \<le> 0x1000000" and "no_wrap kbuf (unat ksize)"
    and "0x100000 + unat ksize \<le> unat kbuf"
    and "isize \<noteq> 0" and "no_wrap ibuf (unat isize)" and "0x2000000 + unat isize \<le> unat ibuf"
  shows "linux_place m kbuf ksize c (Some (ibuf, isize)) x =
    (if in_range 0x9021C 4 x then u32_le (ucast isize) ! (unat x - 0x9021C)
     else if in_range 0x90218 4 x then u32_le 0x2000000 ! (unat x - 0x90218)
     else if in_range 0x2000000 (unat isize) x then m (ibuf + of_nat (unat x - 0x2000000))
     else if in_range 0x100000 (unat ksize - n) x then m (kbuf + of_nat n + of_nat (unat x - 0x100000))
     else linux_params m kbuf ksize c x)"
proof -
  let ?p = "linux_params m kbuf ksize c" and ?s = "ucast (setup_size m kbuf) :: u64"
  let ?k = "ucast (ucast (ksize - of_nat n) :: u32) :: u64"
  note b = setup_size_bounds[of m kbuf, folded n_def]
  have s: "unat ?s = n"
    using unat_u32_less[of "setup_size m kbuf"] by (simp add: n_def unsigned_ucast_eq take_bit_nat_eq_self)
  have o: "?s = of_nat n" by (simp add: n_def)
  have "unat (ksize - of_nat n) = unat ksize - n" using assms(2) s o by (simp add: unat_sub_if')
  then have k: "unat ?k = unat ksize - n" 
    using assms(3) by (simp add: unsigned_ucast_eq unsigned_take_bit_eq take_bit_nat_eq_self)
  have uo: "unat (kbuf + of_nat n) = unat kbuf + n"
    using assms(2,4) by (simp add: no_wrap_def unat_word_ariths unat_of_nat)
  have low: "?p y = m y" if "0x100000 \<le> unat y" for y
    using that b length_str_copy_n[of c] linux_params_at[of m kbuf ksize c y] assms(2,4,5)
    by (auto simp: n_def in_range_def)
  have kern: "mem_copy ?p 0x100000 (kbuf + of_nat n) ?k y =
      (if in_range 0x100000 (unat ksize - n) y then m (kbuf + of_nat n + of_nat (unat y - 0x100000)) else ?p y)" for y
  proof -
    have "unat (kbuf + of_nat n + of_nat i) = unat kbuf + n + i" if "i < unat ksize - n" for i
      using that uo assms(2,4) by (simp add: no_wrap_def unat_word_ariths unat_of_nat)
    then have p: "?p (kbuf + of_nat n + of_nat i) = m (kbuf + of_nat n + of_nat i)" if "i < unat ksize - n" for i
      using low that assms(5) by simp
    have c: "mem_copy ?p 0x100000 (kbuf + of_nat n) ?k y =
        (if in_range 0x100000 (unat ksize - n) y then ?p (kbuf + of_nat n + of_nat (unat y - 0x100000)) else ?p y)"
      using mem_copy_at[of "0x100000" ?k "kbuf + of_nat n" ?p y] k uo assms(2-5) by (simp add: no_wrap_def)
    show ?thesis
    proof (cases "in_range 0x100000 (unat ksize - n) y")
      case True
      then have "unat y - 0x100000 < unat ksize - n" by (auto simp: in_range_def)
      then show ?thesis using c p True by simp
    qed (simp add: c)
  qed
  have ib: "mem_copy ?p 0x100000 (kbuf + of_nat n) ?k (ibuf + of_nat i) = m (ibuf + of_nat i)" if "i < unat isize" for i
  proof -
    have "unat (ibuf + of_nat i) = unat ibuf + i"
      using that assms(7) by (simp add: no_wrap_def unat_word_ariths unat_of_nat)
    moreover from this have "\<not> in_range 0x100000 (unat ksize - n) (ibuf + of_nat i)"
      using assms(3,8) by (auto simp: in_range_def)
    ultimately show ?thesis using kern[of "ibuf + of_nat i"] low[of "ibuf + of_nat i"] assms(8) by simp
  qed
  have init: "mem_copy (mem_copy ?p 0x100000 (kbuf + of_nat n) ?k) 0x2000000 ibuf isize y =
      (if in_range 0x2000000 (unat isize) y then m (ibuf + of_nat (unat y - 0x2000000))
       else mem_copy ?p 0x100000 (kbuf + of_nat n) ?k y)" for y
  proof (cases "in_range 0x2000000 (unat isize) y")
    case True
    then have "unat y - 0x2000000 < unat isize" by (auto simp: in_range_def)
    then show ?thesis using True ib mem_copy_at[of "0x2000000" isize ibuf _ y] assms(7,8) by (simp add: no_wrap_def)
  qed (use mem_copy_at[of "0x2000000" isize ibuf _ y] assms(7,8) in \<open>simp add: no_wrap_def\<close>)
  show ?thesis
    by (simp add: linux_place_def Let_def o KERNEL_ADDR_def INITRD_ADDR_def BOOT_PARAMS_ADDR_def assms(6) wr32_at no_wrap_def
        init kern del: of_nat_unat)
qed


definition sample_linux :: mem where
  "sample_linux a = (if a = 0x30001F1 then 1 else if a = 0x3000211 then 1 else if a = 0x3000400 then 0xC3
     else if a = 0x4000000 then 7 else 0)"


end
