(* ===== verification/Bios.thy ===== *)
theory Bios
  imports Vga Os_Loaders
begin

text \<open>
  The second stage of the BIOS edition, \<^verbatim>\<open>src/bios/stage2/main.c\<close> from the partition search on:
  discovery of kernels under \<^verbatim>\<open>/boot\<close>, the loader registry and \<^verbatim>\<open>stage2_main\<close>, composed from
  the components it calls.  \<open>None\<close> is a memory fault of one of them.  What the program finds in
  memory and never sets is collected in \<open>stage2_env\<close>: its static buffers, the uninitialised
  stack bytes, the uninitialised part of the configuration.

  A directory scan is a sequence of \<^verbatim>\<open>config_add_kernel\<close> calls, so what holds of one holds of the
  scan (\<open>fat_readdir_inv\<close> carries an invariant through the callback).
\<close>

section \<open>Partition and paths\<close>

definition is_fat32_type :: "u8 \<Rightarrow> bool" where
  "is_fat32_type t \<longleftrightarrow> t = 0x0B \<or> t = 0x0C"

text \<open>\<^verbatim>\<open>MBRPartEntry\<close> has the layout of \<^verbatim>\<open>WinMBRPart\<close>.\<close>

definition find_fat32_partition :: "disk \<Rightarrow> u8 list \<Rightarrow> u64 option" where
  "find_fat32_partition dk mbr = do {
     (_, mbr) \<leftarrow> disk_read dk 0 1 mbr;
     Some (case List.find (\<lambda>p. is_fat32_type (wp_type p)) (map (mbr_part mbr) [0..<4]) of
             None \<Rightarrow> 0 | Some p \<Rightarrow> ucast (wp_first_lba p)) }"

definition FAT_MAX_PATH :: nat where "FAT_MAX_PATH = 256"

definition path_join :: "string \<Rightarrow> string \<Rightarrow> nat \<Rightarrow> string" where
  "path_join parent child mx =
     (let out = take (mx - 1) (cstr parent);
          out = (if length out + 1 < mx then out @ ''/'' else out)
      in out @ take (mx - 1 - length out) (cstr child))"

section \<open>Kernel discovery\<close>

definition INITRD_NAMES :: "string list" where
  "INITRD_NAMES = [''initrd.img'', ''initramfs.img'', ''initrd'', ''initramfs'']"

fun find_initrd :: "disk \<Rightarrow> u8 list \<Rightarrow> string \<Rightarrow> string list \<Rightarrow> fat_state \<Rightarrow> (string \<times> fat_state) option" where
  "find_initrd dk stk dir [] st = Some ([], st)"
| "find_initrd dk stk dir (c # cs) st =
     (case fat_open dk stk (path_join dir c MAX_STR_LEN) st of
        None \<Rightarrow> None
      | Some (None, st) \<Rightarrow> find_initrd dk stk dir cs st
      | Some (Some f, st) \<Rightarrow> Some (path_join dir c MAX_STR_LEN, fat_close (Some f) st))"

text \<open>The part of \<^verbatim>\<open>scan_cb\<close> for files.\<close>

definition scan_file :: "disk \<Rightarrow> u8 list \<Rightarrow> string \<Rightarrow> string \<Rightarrow> BootConfig \<times> fat_state \<Rightarrow> (BootConfig \<times> fat_state) option" where
  "scan_file dk stk dir name = (\<lambda>(cfg, st).
     let type = config_guess_type name
     in if type = OS_TYPE_UNKNOWN then Some (cfg, st)
        else do {
          let kernel_path = path_join dir name MAX_STR_LEN;
          (initrd_path, st) \<leftarrow> (if type = OS_TYPE_LINUX then find_initrd dk stk dir INITRD_NAMES st else Some ([], st));
          let display_name = config_make_name dir name type MAX_STR_LEN;
          Some (snd (config_add_kernel cfg display_name type kernel_path
                       (if nz initrd_path then Some initrd_path else None)), st) })"

text \<open>\<^verbatim>\<open>scan_dir\<close> with its callback; the directory name in the context is cut to the size of its buffer.\<close>

function scan_dir :: "disk \<Rightarrow> u8 list \<Rightarrow> string \<Rightarrow> nat \<Rightarrow> BootConfig \<times> fat_state \<Rightarrow> (BootConfig \<times> fat_state) option" where
  "scan_dir dk stk dir_path depth cs =
     (let dir = take (FAT_MAX_PATH - 1) (cstr dir_path);
          scan_cb = (\<lambda>name is_dir cs.
            if is_dir then
              (if depth \<ge> 1 then Some cs
               else scan_dir dk stk (path_join dir name FAT_MAX_PATH) (depth + 1) cs)
            else scan_file dk stk dir name cs)
      in map_option snd (fat_readdir dk stk dir_path scan_cb cs))"
  by pat_completeness auto
termination
  by (relation "measure (\<lambda>(_, _, _, depth, _). 1 - depth)") auto

declare scan_dir.simps [simp del]

section \<open>The loader registry\<close>

datatype OSLoader = vios_loader | linux_loader | windows_loader

fun can_load :: "OSLoader \<Rightarrow> BootEntry \<Rightarrow> bool" where
  "can_load vios_loader e = vios_can_load e"
| "can_load linux_loader e = linux_can_load e"
| "can_load windows_loader e = windows_can_load e"

definition loader_registry :: "OSLoader list" where
  "loader_registry = [vios_loader, linux_loader, windows_loader]"

definition find_loader :: "BootEntry \<Rightarrow> OSLoader option" where
  "find_loader e = List.find (\<lambda>l. can_load l e) loader_registry"

section \<open>stage2_main\<close>

record stage2_env =
  ev_disk :: disk
  ev_stack :: "u8 list"
  ev_config :: BootConfig
  ev_mbr :: "u8 list"
  ev_win_mbr :: "u8 list"
  ev_win_vbr :: "u8 list"
  ev_vios_buf :: u64
  ev_linux_buf :: u64
  ev_initrd_buf :: u64

datatype stage2_result =
    Halted string
  | Waiting
  | Booting OSLoader BootEntry u64 BootInfo

type_synonym stage2_state = "vga \<times> fat_state \<times> mem"

definition zero_info :: BootInfo where
  "zero_info = \<lparr> mem_map_addr = 0, mem_map_size = 0, mem_map_entry_size = 0, mem_map_version = 0, fb_addr = 0,
     fb_width = 0, fb_height = 0, fb_pitch = 0, fb_bpp = 0, fb_pixel_format = 0, rsdp = 0, bi_cmdline = [],
     initrd_addr = 0, initrd_size = 0 \<rparr>"

definition CRLF :: string where "CRLF = [CR, LF]"

definition halt :: "string \<Rightarrow> stage2_state \<Rightarrow> (stage2_result \<times> stage2_state) option" where
  "halt msg = (\<lambda>(v, st, m). do { v \<leftarrow> vga_puts (''ERROR: '' @ msg @ CRLF) v; Some (Halted msg, v, st, m) })"

text \<open>The 64-bit build checks the machine of an ELF file.\<close>

definition build_arch :: "disk \<Rightarrow> u16 option" where
  "build_arch dk = (case dk_build dk of LongMode \<Rightarrow> Some EM_X86_64 | RealMode \<Rightarrow> None)"

fun loader_load ::
    "stage2_env \<Rightarrow> disk \<Rightarrow> OSLoader \<Rightarrow> BootEntry \<Rightarrow> BootInfo \<Rightarrow> fat_state \<times> mem \<Rightarrow> (u64 \<times> BootInfo \<times> fat_state \<times> mem) option" where
  "loader_load env dk vios_loader e info sm = do {
     (ep, st, m) \<leftarrow> vios_load dk (ev_stack env) (build_arch dk) (ev_vios_buf env) e sm;
     Some (ep, info, st, m) }"
| "loader_load env dk linux_loader e info sm =
     linux_load dk (ev_stack env) (ev_linux_buf env) (ev_initrd_buf env) e info sm"
| "loader_load env dk windows_loader e info (st, m) = do {
     (ep, m) \<leftarrow> windows_load dk (ev_win_mbr env) (ev_win_vbr env) m;
     Some (ep, info, st, m) }"

text \<open>The configuration before discovery: defaults, then the file if there is one.\<close>

definition read_config :: "disk \<Rightarrow> u8 list \<Rightarrow> BootConfig \<Rightarrow> fat_state \<Rightarrow> (BootConfig \<times> fat_state) option" where
  "read_config dk stk cfg st = do {
     let cfg = cfg\<lparr> bc_timeout := DEFAULT_TIMEOUT, bc_default_entry := 0, bc_num_entries := 0 \<rparr>;
     (cf, st) \<leftarrow> fat_open dk stk ''/sakuru.cfg'' st;
     if cf = None then Some (cfg, st)
     else do {
       (cfg_buf, st) \<leftarrow> fat_read dk cf 4095 st;
       Some (snd (config_parse (map chr8 cfg_buf) cfg), fat_close cf st) } }"

definition boot_entry :: "stage2_env \<Rightarrow> disk \<Rightarrow> BootEntry \<Rightarrow> stage2_state \<Rightarrow> (stage2_result \<times> stage2_state) option" where
  "boot_entry env dk entry = (\<lambda>(v, st, m). do {
     v \<leftarrow> vga_puts (CRLF @ ''Loading: '') v;
     v \<leftarrow> vga_puts (be_name entry) v;
     v \<leftarrow> vga_puts CRLF v;
     case find_loader entry of
       None \<Rightarrow> halt ''No loader for this kernel type'' (v, st, m)
     | Some loader \<Rightarrow> do {
         (ep, info, st, m) \<leftarrow> loader_load env dk loader entry zero_info (st, m);
         if ep = 0 then halt ''Kernel load failed'' (v, st, m)
         else Some (Booting loader entry ep info, v, st, m) } })"

text \<open>The menu on the console; \<open>polls\<close> are what the keyboard ports deliver in each call of \<^verbatim>\<open>read_key\<close>.\<close>

definition run_menu ::
    "stage2_env \<Rightarrow> disk \<Rightarrow> (nat \<Rightarrow> u8 \<times> u8) list \<Rightarrow> BootConfig \<Rightarrow> stage2_state \<Rightarrow> (stage2_result \<times> stage2_state) option" where
  "run_menu env dk polls cfg = (\<lambda>(v, st, m). do {
     let (evs, sel) = menu_run cfg vga_ops (map kbd_read_key polls);
     v \<leftarrow> fold_opt vga_event evs v;
     case sel of
       None \<Rightarrow> Some (Waiting, v, st, m)
     | Some sel \<Rightarrow>
         if sel < 0 \<or> sel \<ge> int (length (bc_entries cfg)) then None
         else boot_entry env dk (bc_entries cfg ! nat sel) (v, st, m) })"

definition banner :: string where
  "banner = ''SakuruBoot Stage 2 '' @ [CHR 0xE2, CHR 0x80, CHR 0x94] @ '' BIOS Edition'' @ CRLF"

definition stage2_main ::
    "stage2_env \<Rightarrow> u8 \<Rightarrow> (nat \<Rightarrow> u8 \<times> u8) list \<Rightarrow> stage2_state \<Rightarrow> (stage2_result \<times> stage2_state) option" where
  "stage2_main env boot_drive polls = (\<lambda>(v, st, m). do {
     let dk = disk_init boot_drive (ev_disk env);
     v \<leftarrow> vga_puts banner (vga_clear v);
     part_lba \<leftarrow> find_fat32_partition dk (ev_mbr env);
     if part_lba = 0 then halt ''No FAT32 partition found'' (v, st, m)
     else do {
       (rc, st) \<leftarrow> fat_init dk part_lba st;
       if rc < 0 then halt ''FAT32 init failed'' (v, st, m)
       else do {
         (cfg, st) \<leftarrow> read_config dk (ev_stack env) (ev_config env) st;
         (cfg, st) \<leftarrow> scan_dir dk (ev_stack env) ''/boot'' 0 (cfg, st);
         if bc_num_entries cfg = 0 then halt ''No boot entries found'' (v, st, m)
         else run_menu env dk polls cfg (v, st, m) } } })"
section \<open>Invariants of a directory scan\<close>

lemma readdir_entries_inv:
  assumes "\<And>name d c s c' s'. I c \<Longrightarrow> cb name d (c, s) = Some (c', s') \<Longrightarrow> I c'"
  shows "readdir_entries cb cnt i lfn len (c, s) = Some (r, c', s') \<Longrightarrow> I c \<Longrightarrow> I c'"
proof (induction "cnt - i" arbitrary: i lfn len c s)
  case 0
  then show ?case by (subst (asm) readdir_entries.simps) simp
next
  case (Suc n)
  have IH: "I c'" if "readdir_entries cb cnt (Suc i) lfn len (c, s) = Some (r, c', s')" "I c" for lfn len c s
    by (rule Suc.hyps(1)[of "Suc i", OF _ that]) (use Suc.hyps(2) in simp)
  from Suc.prems show ?case
    by (subst (asm) readdir_entries.simps) (auto simp: Let_def split: if_splits option.splits intro: IH assms)
qed

lemma readdir_loop_inv:
  assumes "\<And>name d c s c' s'. I c \<Longrightarrow> cb name d (c, s) = Some (c', s') \<Longrightarrow> I c'"
  shows "readdir_loop dk cb cur visited lfn len limit (c, s) = Some (c', s') \<Longrightarrow> I c \<Longrightarrow> I c'"
proof (induction "limit - visited" arbitrary: cur visited lfn len c s)
  case 0
  then show ?case by (subst (asm) readdir_loop.simps) (simp split: if_splits)
next
  case (Suc n)
  have IH: "I c'" if "readdir_loop dk cb cur (Suc visited) lfn len limit (c, s) = Some (c', s')" "I c" for cur lfn len c s
    by (rule Suc.hyps(1)[of "Suc visited", OF _ that]) (use Suc.hyps(2) in simp)
  note ent = readdir_entries_inv[where I = I and cb = cb, OF assms]
  from Suc.prems show ?case
    by (subst (asm) readdir_loop.simps) (auto split: if_splits option.splits prod.splits intro: IH ent)
qed

lemma fat_readdir_inv:
  assumes "\<And>name d c s c' s'. I c \<Longrightarrow> cb name d (c, s) = Some (c', s') \<Longrightarrow> I c'"
    and "fat_readdir dk stk path cb (c, s) = Some (b, c', s')" and "I c"
  shows "I c'"
proof -
  have "I c'" if "readdir_loop dk cb cur 0 stk False limit (c, st) = Some (c', s')" for cur limit st
    using readdir_loop_inv[where I = I and cb = cb, OF assms(1) that assms(3)] by simp
  then show ?thesis
    using assms(2,3) by (auto simp: fat_readdir_def split: option.splits prod.splits)
qed

lemma scan_dir_inv:
  assumes "\<And>dir name c s c' s'. I c \<Longrightarrow> scan_file dk stk dir name (c, s) = Some (c', s') \<Longrightarrow> I c'"
  shows "scan_dir dk stk path depth (c, s) = Some (c', s') \<Longrightarrow> I c \<Longrightarrow> I c'"
proof (induction "1 - depth" arbitrary: path depth c s c' s' rule: less_induct)
  case less
  define dir where "dir = take (FAT_MAX_PATH - 1) (cstr path)"
  define cb where "cb = (\<lambda>name is_dir cs. if is_dir then
      (if 1 \<le> depth then Some cs else scan_dir dk stk (path_join dir name FAT_MAX_PATH) (depth + 1) cs)
      else scan_file dk stk dir name cs)"
  obtain b where "fat_readdir dk stk path cb (c, s) = Some (b, c', s')"
    using less.prems(1) scan_dir.simps[of dk stk path depth "(c, s)"] unfolding Let_def dir_def[symmetric] cb_def[symmetric]
    by auto
  moreover have "I y" if "I x" "cb name d (x, t) = Some (y, t')" for name d x t y t'
  proof (cases "d \<and> \<not> 1 \<le> depth")
    case True
    then show ?thesis using that less.hyps[of "depth + 1" _ x t y t'] by (simp add: cb_def)
  qed (use that assms[of x dir name t y t'] in \<open>auto simp: cb_def split: if_splits\<close>)
  ultimately show ?case using fat_readdir_inv[where I = I and cb = cb] less.prems(2) by blast
qed

section \<open>Properties\<close>

lemma path_join_take: "0 < mx \<Longrightarrow> path_join p c mx = take (mx - 1) (cstr p @ ''/'' @ cstr c)"
  by (auto simp: path_join_def Let_def min_def take_Cons')

lemma find_loader_type:
  "find_loader e = (case be_type e of OS_TYPE_ELF64 \<Rightarrow> Some vios_loader | OS_TYPE_LINUX \<Rightarrow> Some linux_loader
     | OS_TYPE_WINDOWS \<Rightarrow> Some windows_loader | _ \<Rightarrow> None)"
  by (auto simp: find_loader_def loader_registry_def vios_can_load_def linux_can_load_def windows_can_load_def split: OSType.split)

lemma guess_type_loadable: "config_guess_type name \<in> {OS_TYPE_ELF64, OS_TYPE_LINUX, OS_TYPE_WINDOWS, OS_TYPE_UNKNOWN}"
proof -
  have "(if a then OS_TYPE_ELF64 else if b then OS_TYPE_LINUX else if c then OS_TYPE_LINUX
      else if d then OS_TYPE_WINDOWS else if e then OS_TYPE_WINDOWS else OS_TYPE_UNKNOWN)
    \<in> {OS_TYPE_ELF64, OS_TYPE_LINUX, OS_TYPE_WINDOWS, OS_TYPE_UNKNOWN}" for a b c d e by simp
  then show ?thesis unfolding config_guess_type_def .
qed

text \<open>What a scan may do to a configuration.\<close>

definition discovered :: "BootConfig \<Rightarrow> BootConfig \<Rightarrow> bool" where
  "discovered a b \<longleftrightarrow> wf_table b \<and> same_globals a b \<and>
     (\<exists>es. live_entries b = live_entries a @ es \<and> (\<forall>e\<in>set es. find_loader e \<noteq> None))"

lemma discovered_add_kernel:
  assumes "discovered a b" and "type \<in> {OS_TYPE_ELF64, OS_TYPE_LINUX, OS_TYPE_WINDOWS}"
  shows "discovered a (snd (config_add_kernel b name type kp ip))"
proof (cases rule: config_add_kernel_cases [of b name type kp ip])
  case (new e)
  obtain es where es: "live_entries b = live_entries a @ es" "\<forall>e\<in>set es. find_loader e \<noteq> None"
    using assms(1) by (auto simp: discovered_def)
  have "find_loader e \<noteq> None" using assms(2) new(6) by (auto simp: find_loader_type)
  moreover have "wf_table b" using assms(1) by (simp add: discovered_def)
  ultimately show ?thesis
    using assms(1) new(1-3) es live_entries_append[of b e]
    by (auto simp: discovered_def wf_table_append same_globals_def) (auto simp: wf_table_def)
qed (use assms in simp_all)

lemma discovered_scan_file:
  assumes "discovered a c" and "scan_file dk stk dir name (c, s) = Some (c', s')"
  shows "discovered a c'"
  using assms discovered_add_kernel[OF assms(1), of "config_guess_type name"] guess_type_loadable[of name]
  by (auto simp: scan_file_def Let_def split: if_splits bind_splits)


lemma boot_entry_booting:
  "boot_entry env dk entry s = Some (Booting loader e ep info, s') \<Longrightarrow> e = entry \<and> find_loader entry = Some loader \<and> ep \<noteq> 0"
  by (auto simp: boot_entry_def halt_def split: bind_splits option.splits if_splits prod.splits)


text \<open>
  C12. The 64-bit build of the second stage cannot boot: reading the disk leaves the zeroed buffer
  as it is, so it always halts with the message that there is no FAT32 partition.
\<close>

theorem stage2_long_mode_halts:
  assumes "dk_build (ev_disk env) = LongMode" and "ev_mbr env = replicate 512 0"
  shows "\<exists>v'. stage2_main env boot_drive polls (v, st, m) = Some (Halted ''No FAT32 partition found'', v', st, m)"
proof -
  have "List.find (\<lambda>p. is_fat32_type (wp_type p)) (map (mbr_part (replicate 512 0)) [0..<4]) = None"
    by code_simp
  then have "find_fat32_partition (disk_init boot_drive (ev_disk env)) (ev_mbr env) = Some 0"
    using assms by (simp only: find_fat32_partition_def) (simp add: disk_init_def long_mode_reads_nothing del: upt_rec_numeral)
  moreover obtain w where w: "vga_puts banner (vga_clear v) = Some w" "vga_ok w"
    using vga_puts_ok[OF vga_clear_ok] by blast
  moreover obtain w' where "vga_puts (''ERROR: '' @ ''No FAT32 partition found'' @ CRLF) w = Some w'"
    using vga_puts_ok[OF w(2)] by blast
  ultimately show ?thesis by (simp add: stage2_main_def halt_def Let_def)
qed
text \<open>
  A volume with the directory \<^verbatim>\<open>BOOT\<close> in cluster 3 and the kernel \<^verbatim>\<open>K.ELF\<close> in it; only the used
  part of each sector is delivered.
\<close>

definition sample_entry :: "u8 list \<Rightarrow> u8 \<Rightarrow> u8 \<Rightarrow> u8 list" where
  "sample_entry name attr cluster = name @ [attr] @ replicate 14 0 @ [cluster, 0, 0, 0, 0, 0] @ replicate 32 0"

definition sample_boot :: disk where
  "sample_boot = \<lparr> dk_build = RealMode, dk_int13 = (\<lambda>_ dap. Some
     (if dap_lba dap = 10 then sample_entry [0x42, 0x4F, 0x4F, 0x54, 0x20, 0x20, 0x20, 0x20, 0x20, 0x20, 0x20] ATTR_DIRECTORY 3
      else if dap_lba dap = 11 then sample_entry [0x4B, 0x20, 0x20, 0x20, 0x20, 0x20, 0x20, 0x20, 0x45, 0x4C, 0x46] 0x20 4
      else [])), g_drive = 0x80 \<rparr>"

definition small_fat :: fat_state where
  "small_fat = \<lparr> g_bpb = replicate 64 0, g_part_lba = 0, g_fat_start = 1, g_data_start = 10, g_root_cluster = 2,
     g_spc = 1, g_file_pool = [], g_pool_used = [], g_sector_buf = [], find_buf = replicate 64 0, clust_buf = [],
     enum_buf = replicate 64 0 \<rparr>"

lemma sample_scan:
  "map_option (\<lambda>(cfg, _). map be_kernel (live_entries cfg))
     (scan_dir sample_boot [] ''/boot'' 0 (empty_config, small_fat)) = Some [''/boot/K.ELF'']"
  by code_simp

lemma wf_empty_table: "wf_table empty_config" "default_ok empty_config"
  by (simp_all add: wf_table_def default_ok_def live_entries_def empty_config_def)


text \<open>One Windows entry, started with Enter.\<close>

definition win_config :: BootConfig where
  "win_config = empty_config\<lparr> bc_num_entries := 1, bc_entries := zero_entry\<lparr> be_type := OS_TYPE_WINDOWS \<rparr> # replicate 15 zero_entry \<rparr>"

definition win_env :: stage2_env where
  "win_env = \<lparr> ev_disk = image_disk (\<lambda>l. pad512 (sample_win l)) 0x80, ev_stack = replicate 256 0, ev_config = empty_config,
     ev_mbr = replicate 512 0, ev_win_mbr = replicate 512 0, ev_win_vbr = replicate 512 0, ev_vios_buf = 0x100000,
     ev_linux_buf = 0x3000000, ev_initrd_buf = 0x5000000 \<rparr>"

definition blank_vga :: vga where
  "blank_vga = vga_clear \<lparr> vga_cells = [], vga_col = 0, vga_row = 0, vga_attr = 0 \<rparr>"

lemma blank_vga_ok: "vga_ok blank_vga"
  by (simp add: blank_vga_def vga_clear_ok)

lemma win_config_ready: "wf_table win_config" "menu_ready win_config"
  by (simp_all add: win_config_def wf_table_def menu_ready_def live_entries_def empty_config_def wf_entry_def zero_entry_def)

lemma win_menu: "snd (menu_run win_config vga_ops (map kbd_read_key [\<lambda>_. (1, 0x1C)])) = Some 0"
proof -
  have "scan_key 1 0x1C = Some 13" by code_simp
  then have "kbd_read_key (\<lambda>_. (1, 0x1C)) = 13"
    by (subst kbd_read_key_def, subst kbd_loop.simps) (simp add: KBD_POLLS_def)
  moreover have "bc_default_entry win_config = 0" "bc_num_entries win_config = 1" "bc_timeout win_config = 0"
    by (simp_all add: win_config_def empty_config_def)
  ultimately show ?thesis
    using menu_loop_selects[OF menu_ready_sel[OF win_config_ready(2)], of "[]" 13 vga_ops]
    by (simp add: snd_menu_run enter_key_def menu_start_def idle_def)
qed

lemma win_load: "\<exists>m'. windows_load (ev_disk win_env) (ev_win_mbr win_env) (ev_win_vbr win_env) m = Some (0x7C00, m')"
proof -
  obtain p ps where p: "win_order (pad512 (sample_win 0)) = p # ps" "wp_first_lba p = 2"
    using sample_win_order by (cases "win_order (pad512 (sample_win 0))") auto
  have "u16_of_le (drop 510 (pad512 (sample_win 2))) = 0xAA55" by code_simp
  then show ?thesis
    using windows_load_image[where mbr = "replicate 512 0" and vbr = "replicate 512 0" and img = sample_win and drive = "0x80" and m = m]
    by (auto simp: p VBR_LOAD_ADDR_def Let_def win_env_def)
qed


theorem stage2_long_mode_halts_witness:
  "\<exists>v'. stage2_main (win_env\<lparr> ev_disk := (ev_disk win_env)\<lparr> dk_build := LongMode \<rparr> \<rparr>) 0x80 [] (blank_vga, small_fat, \<lambda>_. 0)
     = Some (Halted ''No FAT32 partition found'', v', small_fat, \<lambda>_. 0)"
  by (rule stage2_long_mode_halts) (simp_all add: win_env_def)

end
