(* ===== verification/Aes.thy ===== *)
theory Aes
  imports Prelude
begin

text \<open>
  The AES block cipher of \<^verbatim>\<open>src/crypto/aes.c\<close>: tables, field arithmetic, key schedule,
  encryption and decryption of one block.  A block and the cipher state are lists of 16
  bytes, column by column as in the code; the context holds the round-key words that the
  key schedule wrote and the number of rounds.  Decryption is proved to invert
  encryption, and encryption decryption, for every context with enough round keys.
\<close>

section \<open>Tables\<close>

definition SBOX :: "u8 list" where
  "SBOX = [
     0x63, 0x7c, 0x77, 0x7b, 0xf2, 0x6b, 0x6f, 0xc5, 0x30, 0x01, 0x67, 0x2b, 0xfe, 0xd7, 0xab, 0x76,
     0xca, 0x82, 0xc9, 0x7d, 0xfa, 0x59, 0x47, 0xf0, 0xad, 0xd4, 0xa2, 0xaf, 0x9c, 0xa4, 0x72, 0xc0,
     0xb7, 0xfd, 0x93, 0x26, 0x36, 0x3f, 0xf7, 0xcc, 0x34, 0xa5, 0xe5, 0xf1, 0x71, 0xd8, 0x31, 0x15,
     0x04, 0xc7, 0x23, 0xc3, 0x18, 0x96, 0x05, 0x9a, 0x07, 0x12, 0x80, 0xe2, 0xeb, 0x27, 0xb2, 0x75,
     0x09, 0x83, 0x2c, 0x1a, 0x1b, 0x6e, 0x5a, 0xa0, 0x52, 0x3b, 0xd6, 0xb3, 0x29, 0xe3, 0x2f, 0x84,
     0x53, 0xd1, 0x00, 0xed, 0x20, 0xfc, 0xb1, 0x5b, 0x6a, 0xcb, 0xbe, 0x39, 0x4a, 0x4c, 0x58, 0xcf,
     0xd0, 0xef, 0xaa, 0xfb, 0x43, 0x4d, 0x33, 0x85, 0x45, 0xf9, 0x02, 0x7f, 0x50, 0x3c, 0x9f, 0xa8,
     0x51, 0xa3, 0x40, 0x8f, 0x92, 0x9d, 0x38, 0xf5, 0xbc, 0xb6, 0xda, 0x21, 0x10, 0xff, 0xf3, 0xd2,
     0xcd, 0x0c, 0x13, 0xec, 0x5f, 0x97, 0x44, 0x17, 0xc4, 0xa7, 0x7e, 0x3d, 0x64, 0x5d, 0x19, 0x73,
     0x60, 0x81, 0x4f, 0xdc, 0x22, 0x2a, 0x90, 0x88, 0x46, 0xee, 0xb8, 0x14, 0xde, 0x5e, 0x0b, 0xdb,
     0xe0, 0x32, 0x3a, 0x0a, 0x49, 0x06, 0x24, 0x5c, 0xc2, 0xd3, 0xac, 0x62, 0x91, 0x95, 0xe4, 0x79,
     0xe7, 0xc8, 0x37, 0x6d, 0x8d, 0xd5, 0x4e, 0xa9, 0x6c, 0x56, 0xf4, 0xea, 0x65, 0x7a, 0xae, 0x08,
     0xba, 0x78, 0x25, 0x2e, 0x1c, 0xa6, 0xb4, 0xc6, 0xe8, 0xdd, 0x74, 0x1f, 0x4b, 0xbd, 0x8b, 0x8a,
     0x70, 0x3e, 0xb5, 0x66, 0x48, 0x03, 0xf6, 0x0e, 0x61, 0x35, 0x57, 0xb9, 0x86, 0xc1, 0x1d, 0x9e,
     0xe1, 0xf8, 0x98, 0x11, 0x69, 0xd9, 0x8e, 0x94, 0x9b, 0x1e, 0x87, 0xe9, 0xce, 0x55, 0x28, 0xdf,
     0x8c, 0xa1, 0x89, 0x0d, 0xbf, 0xe6, 0x42, 0x68, 0x41, 0x99, 0x2d, 0x0f, 0xb0, 0x54, 0xbb, 0x16]"

definition RSBOX :: "u8 list" where
  "RSBOX = [
     0x52, 0x09, 0x6a, 0xd5, 0x30, 0x36, 0xa5, 0x38, 0xbf, 0x40, 0xa3, 0x9e, 0x81, 0xf3, 0xd7, 0xfb,
     0x7c, 0xe3, 0x39, 0x82, 0x9b, 0x2f, 0xff, 0x87, 0x34, 0x8e, 0x43, 0x44, 0xc4, 0xde, 0xe9, 0xcb,
     0x54, 0x7b, 0x94, 0x32, 0xa6, 0xc2, 0x23, 0x3d, 0xee, 0x4c, 0x95, 0x0b, 0x42, 0xfa, 0xc3, 0x4e,
     0x08, 0x2e, 0xa1, 0x66, 0x28, 0xd9, 0x24, 0xb2, 0x76, 0x5b, 0xa2, 0x49, 0x6d, 0x8b, 0xd1, 0x25,
     0x72, 0xf8, 0xf6, 0x64, 0x86, 0x68, 0x98, 0x16, 0xd4, 0xa4, 0x5c, 0xcc, 0x5d, 0x65, 0xb6, 0x92,
     0x6c, 0x70, 0x48, 0x50, 0xfd, 0xed, 0xb9, 0xda, 0x5e, 0x15, 0x46, 0x57, 0xa7, 0x8d, 0x9d, 0x84,
     0x90, 0xd8, 0xab, 0x00, 0x8c, 0xbc, 0xd3, 0x0a, 0xf7, 0xe4, 0x58, 0x05, 0xb8, 0xb3, 0x45, 0x06,
     0xd0, 0x2c, 0x1e, 0x8f, 0xca, 0x3f, 0x0f, 0x02, 0xc1, 0xaf, 0xbd, 0x03, 0x01, 0x13, 0x8a, 0x6b,
     0x3a, 0x91, 0x11, 0x41, 0x4f, 0x67, 0xdc, 0xea, 0x97, 0xf2, 0xcf, 0xce, 0xf0, 0xb4, 0xe6, 0x73,
     0x96, 0xac, 0x74, 0x22, 0xe7, 0xad, 0x35, 0x85, 0xe2, 0xf9, 0x37, 0xe8, 0x1c, 0x75, 0xdf, 0x6e,
     0x47, 0xf1, 0x1a, 0x71, 0x1d, 0x29, 0xc5, 0x89, 0x6f, 0xb7, 0x62, 0x0e, 0xaa, 0x18, 0xbe, 0x1b,
     0xfc, 0x56, 0x3e, 0x4b, 0xc6, 0xd2, 0x79, 0x20, 0x9a, 0xdb, 0xc0, 0xfe, 0x78, 0xcd, 0x5a, 0xf4,
     0x1f, 0xdd, 0xa8, 0x33, 0x88, 0x07, 0xc7, 0x31, 0xb1, 0x12, 0x10, 0x59, 0x27, 0x80, 0xec, 0x5f,
     0x60, 0x51, 0x7f, 0xa9, 0x19, 0xb5, 0x4a, 0x0d, 0x2d, 0xe5, 0x7a, 0x9f, 0x93, 0xc9, 0x9c, 0xef,
     0xa0, 0xe0, 0x3b, 0x4d, 0xae, 0x2a, 0xf5, 0xb0, 0xc8, 0xeb, 0xbb, 0x3c, 0x83, 0x53, 0x99, 0x61,
     0x17, 0x2b, 0x04, 0x7e, 0xba, 0x77, 0xd6, 0x26, 0xe1, 0x69, 0x14, 0x63, 0x55, 0x21, 0x0c, 0x7d]"

definition RCON :: "u8 list" where
  "RCON = [
     0x00, 0x01, 0x02, 0x04, 0x08, 0x10, 0x20, 0x40, 0x80, 0x1b, 0x36]"

section \<open>Field arithmetic\<close>

definition xtime :: "u8 \<Rightarrow> u8" where
  "xtime a = push_bit 1 a XOR (if drop_bit 7 a \<noteq> 0 then 0x1b else 0)"

text \<open>\<open>n\<close> rounds of the loop of \<^verbatim>\<open>gmul\<close>.\<close>

fun gmul_loop :: "nat \<Rightarrow> u8 \<Rightarrow> u8 \<Rightarrow> u8 \<Rightarrow> u8" where
  "gmul_loop 0 r p b = r"
| "gmul_loop (Suc n) r p b =
     gmul_loop n (if b AND 1 \<noteq> 0 then r XOR p else r) (xtime p) (drop_bit 1 b)"

definition gmul :: "u8 \<Rightarrow> u8 \<Rightarrow> u8" where
  "gmul a b = gmul_loop 8 0 a b"

section \<open>Key schedule\<close>

definition sub_byte :: "u8 \<Rightarrow> u8" where
  "sub_byte b = SBOX ! unat b"

definition sub_word :: "u32 \<Rightarrow> u32" where
  "sub_word w =
     push_bit 24 (ucast (sub_byte (ucast (drop_bit 24 w)))) OR
     push_bit 16 (ucast (sub_byte (ucast (drop_bit 16 w)))) OR
     push_bit 8 (ucast (sub_byte (ucast (drop_bit 8 w)))) OR
     ucast (sub_byte (ucast w))"

definition rot_word :: "u32 \<Rightarrow> u32" where
  "rot_word w = push_bit 8 w OR drop_bit 24 w"

definition bytes_to_word :: "u8 list \<Rightarrow> u32" where
  "bytes_to_word b = push_bit 24 (ucast (b ! 0)) OR push_bit 16 (ucast (b ! 1))
     OR push_bit 8 (ucast (b ! 2)) OR ucast (b ! 3)"

record AES_CTX =
  aes_rk :: "u32 list"
  aes_nr :: nat

definition expand_word :: "nat \<Rightarrow> nat \<Rightarrow> u32 list \<Rightarrow> u32 list" where
  "expand_word nk i rk =
     (let t = rk ! (i - 1);
          t = (if i mod nk = 0
               then sub_word (rot_word t) XOR push_bit 24 (ucast (RCON ! (i div nk)))
               else if nk > 6 \<and> i mod nk = 4 then sub_word t else t)
      in rk @ [rk ! (i - nk) XOR t])"

text \<open>
  \<^verbatim>\<open>key_len\<close> is at least 4 (16 or 32 in the program; \<^verbatim>\<open>i%nk\<close> would divide by zero below).
\<close>

definition aes_init_enc :: "u8 list \<Rightarrow> nat \<Rightarrow> AES_CTX" where
  "aes_init_enc key key_len =
     (let nk = key_len div 4;
          nr = (if nk = 4 then 10 else 14);
          tot = (nr + 1) * 4
      in \<lparr> aes_rk = fold (expand_word nk) [nk..<tot]
             (map (\<lambda>i. bytes_to_word (drop (i * 4) key)) [0..<nk]),
           aes_nr = nr \<rparr>)"

definition aes_init_dec :: "u8 list \<Rightarrow> nat \<Rightarrow> AES_CTX" where
  "aes_init_dec key key_len = aes_init_enc key key_len"

section \<open>Encryption\<close>

definition rk_bytes :: "u32 list \<Rightarrow> u8 list" where
  "rk_bytes rk = concat (map (\<lambda>c.
     [ucast (drop_bit 24 (rk ! c)), ucast (drop_bit 16 (rk ! c)),
      ucast (drop_bit 8 (rk ! c)), ucast (rk ! c)]) [0..<4])"

definition add_rk :: "u8 list \<Rightarrow> u32 list \<Rightarrow> u8 list" where
  "add_rk s rk = xor_bytes s (rk_bytes rk)"

definition sub_bytes :: "u8 list \<Rightarrow> u8 list" where
  "sub_bytes s = map sub_byte s"

definition shift_rows :: "u8 list \<Rightarrow> u8 list" where
  "shift_rows s = s[1 := s ! 5, 5 := s ! 9, 9 := s ! 13, 13 := s ! 1,
     2 := s ! 10, 10 := s ! 2, 6 := s ! 14, 14 := s ! 6,
     15 := s ! 11, 11 := s ! 7, 7 := s ! 3, 3 := s ! 15]"

definition mix_column :: "u8 \<Rightarrow> u8 \<Rightarrow> u8 \<Rightarrow> u8 \<Rightarrow> u8 list" where
  "mix_column a b cc d =
     [xtime a XOR xtime b XOR b XOR cc XOR d,
      a XOR xtime b XOR xtime cc XOR cc XOR d,
      a XOR b XOR xtime cc XOR xtime d XOR d,
      xtime a XOR a XOR b XOR cc XOR xtime d]"

definition mix_columns :: "u8 list \<Rightarrow> u8 list" where
  "mix_columns s = concat (map (\<lambda>c.
     mix_column (s ! (c * 4)) (s ! (c * 4 + 1)) (s ! (c * 4 + 2)) (s ! (c * 4 + 3))) [0..<4])"

definition enc_round :: "AES_CTX \<Rightarrow> nat \<Rightarrow> u8 list \<Rightarrow> u8 list" where
  "enc_round ctx rd st =
     (let st = shift_rows (sub_bytes st);
          st = (if rd < aes_nr ctx then mix_columns st else st)
      in add_rk st (drop (rd * 4) (aes_rk ctx)))"

definition aes_encrypt_block :: "AES_CTX \<Rightarrow> u8 list \<Rightarrow> u8 list" where
  "aes_encrypt_block ctx inp =
     fold (enc_round ctx) [1..<aes_nr ctx + 1] (add_rk (take 16 inp) (aes_rk ctx))"

section \<open>Decryption\<close>

definition inv_sub_byte :: "u8 \<Rightarrow> u8" where
  "inv_sub_byte b = RSBOX ! unat b"

definition inv_sub_bytes :: "u8 list \<Rightarrow> u8 list" where
  "inv_sub_bytes s = map inv_sub_byte s"

definition inv_shift_rows :: "u8 list \<Rightarrow> u8 list" where
  "inv_shift_rows s = s[13 := s ! 9, 9 := s ! 5, 5 := s ! 1, 1 := s ! 13,
     2 := s ! 10, 10 := s ! 2, 6 := s ! 14, 14 := s ! 6,
     3 := s ! 7, 7 := s ! 11, 11 := s ! 15, 15 := s ! 3]"

definition inv_mix_column :: "u8 \<Rightarrow> u8 \<Rightarrow> u8 \<Rightarrow> u8 \<Rightarrow> u8 list" where
  "inv_mix_column a b cc d =
     [gmul 0x0e a XOR gmul 0x0b b XOR gmul 0x0d cc XOR gmul 0x09 d,
      gmul 0x09 a XOR gmul 0x0e b XOR gmul 0x0b cc XOR gmul 0x0d d,
      gmul 0x0d a XOR gmul 0x09 b XOR gmul 0x0e cc XOR gmul 0x0b d,
      gmul 0x0b a XOR gmul 0x0d b XOR gmul 0x09 cc XOR gmul 0x0e d]"

definition inv_mix_columns :: "u8 list \<Rightarrow> u8 list" where
  "inv_mix_columns s = concat (map (\<lambda>c.
     inv_mix_column (s ! (c * 4)) (s ! (c * 4 + 1)) (s ! (c * 4 + 2)) (s ! (c * 4 + 3))) [0..<4])"

definition dec_round :: "AES_CTX \<Rightarrow> nat \<Rightarrow> u8 list \<Rightarrow> u8 list" where
  "dec_round ctx rd st =
     (let st = inv_sub_bytes (inv_shift_rows st);
          st = add_rk st (drop (rd * 4) (aes_rk ctx))
      in (if rd > 0 then inv_mix_columns st else st))"

definition aes_decrypt_block :: "AES_CTX \<Rightarrow> u8 list \<Rightarrow> u8 list" where
  "aes_decrypt_block ctx inp =
     fold (dec_round ctx) (rev [0..<aes_nr ctx])
       (add_rk (take 16 inp) (drop (aes_nr ctx * 4) (aes_rk ctx)))"

section \<open>Substitution and field lemmas\<close>

lemma u8_exhaust:
  assumes "list_all P (map of_nat [0..<256])"
  shows "P (x :: u8)"
proof -
  have "unat x < 256" using unsigned_less[of x] by simp
  then have "x \<in> set (map of_nat [0..<256])"
    by (auto simp: image_iff intro!: bexI[of _ "unat x"])
  then show ?thesis using assms by (auto simp: list_all_iff)
qed

lemma inv_sub_sub_byte: "inv_sub_byte (sub_byte x) = x"
proof (rule u8_exhaust[where P = "\<lambda>x. inv_sub_byte (sub_byte x) = x"])
  show "list_all (\<lambda>x. inv_sub_byte (sub_byte x) = x) (map of_nat [0..<256])"
    by code_simp
qed

lemma drop_bit_7_nonzero: "drop_bit 7 x \<noteq> 0 \<longleftrightarrow> bit x 7" for x :: u8
proof -
  have "bit (drop_bit 7 x) n \<longleftrightarrow> n = 0 \<and> bit x 7" for n :: nat
    by (cases n) (auto simp: bit_drop_bit_eq dest: bit_imp_le_length)
  then show ?thesis unfolding bit_eq_iff[of "drop_bit 7 x"] by simp
qed

lemma xtime_xor: "xtime (a XOR b) = xtime a XOR xtime b"
  unfolding xtime_def drop_bit_7_nonzero bit_xor_iff push_bit_xor by (simp add: ac_simps)

lemma xor_cancel_left: "u XOR (u XOR v) = v" for u v :: "'a::len word"
  by (simp add: xor.assoc[symmetric])

lemma xtime_0 [simp]: "xtime 0 = 0"
  by (simp add: xtime_def)

text \<open>Two additive functions of a byte agree when they agree on the eight powers of two.\<close>

lemma and_exp_cases: "(x :: 'a::len word) AND 2 ^ k = 0 \<or> x AND 2 ^ k = 2 ^ k"
  by (cases "bit x k") (auto intro!: bit_word_eqI simp: bit_and_iff bit_exp_iff)

lemma u8_split:
  "(x :: u8) = (x AND 2 ^ 0) XOR (x AND 2 ^ 1) XOR (x AND 2 ^ 2) XOR (x AND 2 ^ 3)
     XOR (x AND 2 ^ 4) XOR (x AND 2 ^ 5) XOR (x AND 2 ^ 6) XOR (x AND 2 ^ 7)"
proof (rule bit_word_eqI)
  fix n assume "n < LENGTH(8)"
  then have "n \<in> {0, 1, 2, 3, 4, 5, 6, 7}" by auto
  then show "bit x n = bit ((x AND 2 ^ 0) XOR (x AND 2 ^ 1) XOR (x AND 2 ^ 2) XOR (x AND 2 ^ 3)
     XOR (x AND 2 ^ 4) XOR (x AND 2 ^ 5) XOR (x AND 2 ^ 6) XOR (x AND 2 ^ 7)) n"
    unfolding bit_xor_iff bit_and_iff bit_exp_iff insert_iff empty_iff
    by (elim disjE) simp_all
qed

lemma additive_u8_eq:
  fixes f g :: "u8 \<Rightarrow> u8"
  assumes f: "\<And>a b. f (a XOR b) = f a XOR f b"
    and g: "\<And>a b. g (a XOR b) = g a XOR g b"
    and basis: "\<And>k. k < 8 \<Longrightarrow> f (2 ^ k) = g (2 ^ k)"
  shows "f x = g x"
proof -
  have z: "f 0 = 0" "g 0 = 0" using f[of 0 0] g[of 0 0] by simp_all
  have b: "f (x AND 2 ^ k) = g (x AND 2 ^ k)" if "k < 8" for k
    using and_exp_cases[of x k] basis[OF that] z by auto
  show ?thesis
    by (subst (1 2) u8_split) (simp only: f g b)
qed

lemma gmul_loop_xor:
  "gmul_loop n (r XOR r') p (b XOR b') = gmul_loop n r p b XOR gmul_loop n r' p b'"
proof (induction n arbitrary: r r' p b b')
  case (Suc n)
  have odd: "b AND 1 \<noteq> 0 \<longleftrightarrow> bit b 0" for b :: u8
    by (simp add: and_one_eq odd_iff_mod_2_eq_one bit_0)
  show ?case
    unfolding gmul_loop.simps odd bit_xor_iff drop_bit_xor Suc.IH[symmetric]
    by (auto simp: ac_simps xor_cancel_left intro!: arg_cong[of _ _ "\<lambda>r. gmul_loop n r _ _"])
qed simp

lemma gmul_xor: "gmul c (a XOR b) = gmul c a XOR gmul c b"
  using gmul_loop_xor[of 8 0 0 c a b] by (simp add: gmul_def)

lemma less_8_cases: "k < 8 \<Longrightarrow> k \<in> {0, 1, 2, 3, 4, 5, 6, 7 :: nat}"
  by auto

lemma gmul_consts:
  "gmul 0x0e x = xtime x XOR xtime (xtime x) XOR xtime (xtime (xtime x))" (is ?e)
  "gmul 0x0b x = x XOR xtime x XOR xtime (xtime (xtime x))" (is ?b)
  "gmul 0x0d x = x XOR xtime (xtime x) XOR xtime (xtime (xtime x))" (is ?d)
  "gmul 0x09 x = x XOR xtime (xtime (xtime x))" (is ?n)
proof -
  let ?x3 = "\<lambda>x. xtime (xtime (xtime x))"
  have basis: "list_all (\<lambda>x. gmul 0x0e x = xtime x XOR xtime (xtime x) XOR ?x3 x \<and>
      gmul 0x0b x = x XOR xtime x XOR ?x3 x \<and> gmul 0x0d x = x XOR xtime (xtime x) XOR ?x3 x \<and>
      gmul 0x09 x = x XOR ?x3 x) [1, 2, 4, 8, 16, 32, 64, 128]"
    by code_simp
  show ?e
    by (rule additive_u8_eq[of "gmul 0x0e"])
      (use basis in \<open>auto simp: gmul_xor xtime_xor ac_simps dest!: less_8_cases\<close>)
  show ?b
    by (rule additive_u8_eq[of "gmul 0x0b"])
      (use basis in \<open>auto simp: gmul_xor xtime_xor ac_simps dest!: less_8_cases\<close>)
  show ?d
    by (rule additive_u8_eq[of "gmul 0x0d"])
      (use basis in \<open>auto simp: gmul_xor xtime_xor ac_simps dest!: less_8_cases\<close>)
  show ?n
    by (rule additive_u8_eq[of "gmul 0x09"])
      (use basis in \<open>auto simp: gmul_xor xtime_xor ac_simps dest!: less_8_cases\<close>)
qed

text \<open>
  The first component of the inverse column; the others follow because the column
  matrices are circulant.
\<close>

lemma inv_mix_first:
  assumes "mix_column a b c d = [w, x, y, z]"
  shows "gmul 0x0e w XOR gmul 0x0b x XOR gmul 0x0d y XOR gmul 0x09 z = a"
proof -
  have w: "w = xtime a XOR xtime b XOR b XOR c XOR d"
    and x: "x = a XOR xtime b XOR xtime c XOR c XOR d"
    and y: "y = a XOR b XOR xtime c XOR xtime d XOR d"
    and z: "z = xtime a XOR a XOR b XOR c XOR xtime d"
    using assms by (simp_all add: mix_column_def)
  show ?thesis unfolding w x y z gmul_consts xtime_xor
    by (simp only: xor.assoc xor.commute xor.left_commute xor_cancel_left xor_self_eq
        xor.left_neutral xor.right_neutral)
qed

lemma mix_column_rotate:
  "mix_column a b c d = [w, x, y, z] \<Longrightarrow> mix_column b c d a = [x, y, z, w]"
  by (auto simp: mix_column_def ac_simps)

lemma inv_mix_mix:
  assumes "mix_column a b c d = [w, x, y, z]"
  shows "inv_mix_column w x y z = [a, b, c, d]"
proof -
  note r1 = mix_column_rotate[OF assms]
  note r2 = mix_column_rotate[OF r1]
  note r3 = mix_column_rotate[OF r2]
  show ?thesis
    using inv_mix_first[OF assms] inv_mix_first[OF r1] inv_mix_first[OF r2] inv_mix_first[OF r3]
    by (simp add: inv_mix_column_def ac_simps)
qed

section \<open>The round functions are invertible\<close>

lemma list16E:
  assumes "length s = 16"
  obtains a b c d e f g h i j k l m n p q where "s = [a, b, c, d, e, f, g, h, i, j, k, l, m, n, p, q]"
proof -
  have "s = map ((!) s) [0..<16]" using assms by (metis map_nth)
  also have "[0..<16] = [0, 1, 2, 3, 4, 5, 6, 7, 8, 9, 10, 11, 12, 13, 14, 15]" by code_simp
  finally show ?thesis using that by (simp only: list.map)
qed

lemma upt_0_4: "[0..<4] = [0, 1, 2, 3]"
  by code_simp

lemma length_round_ops [simp]:
  "length (sub_bytes s) = length s" "length (inv_sub_bytes s) = length s"
  "length (shift_rows s) = length s" "length (inv_shift_rows s) = length s"
  "length (mix_columns s) = 16" "length (inv_mix_columns s) = 16"
  "length (rk_bytes rk) = 16"
  by (simp_all add: sub_bytes_def inv_sub_bytes_def shift_rows_def inv_shift_rows_def
      mix_columns_def inv_mix_columns_def mix_column_def inv_mix_column_def rk_bytes_def upt_0_4)

lemma length_add_rk [simp]: "length (add_rk s rk) = min (length s) 16"
  by (simp add: add_rk_def)

lemma add_rk_add_rk: "length s = 16 \<Longrightarrow> add_rk (add_rk s rk) rk = s"
  by (simp add: add_rk_def)

lemma inv_sub_sub_bytes: "inv_sub_bytes (sub_bytes s) = s"
  by (simp add: inv_sub_bytes_def sub_bytes_def comp_def inv_sub_sub_byte)

lemma inv_shift_shift: "length s = 16 \<Longrightarrow> inv_shift_rows (shift_rows s) = s"
  by (erule list16E) (simp add: shift_rows_def inv_shift_rows_def)

lemma mix_columns_16:
  "mix_columns [a, b, c, d, e, f, g, h, i, j, k, l, m, n, p, q] =
     mix_column a b c d @ mix_column e f g h @ mix_column i j k l @ mix_column m n p q"
  "inv_mix_columns [a, b, c, d, e, f, g, h, i, j, k, l, m, n, p, q] =
     inv_mix_column a b c d @ inv_mix_column e f g h @ inv_mix_column i j k l @ inv_mix_column m n p q"
  by (simp_all add: mix_columns_def inv_mix_columns_def upt_0_4)

lemma mix_columnE:
  obtains w x y z where "mix_column a b c d = [w, x, y, z]" "inv_mix_column w x y z = [a, b, c, d]"
proof -
  obtain w x y z where "mix_column a b c d = [w, x, y, z]" by (simp add: mix_column_def)
  with inv_mix_mix[OF this] show ?thesis using that by blast
qed

lemma inv_mix_mix_columns: "length s = 16 \<Longrightarrow> inv_mix_columns (mix_columns s) = s"
proof (erule list16E)
  fix a b c d e f g h i j k l m n p q
  assume s: "s = [a, b, c, d, e, f, g, h, i, j, k, l, m, n, p, q]"
  obtain w1 x1 y1 z1 where 1: "mix_column a b c d = [w1, x1, y1, z1]"
    "inv_mix_column w1 x1 y1 z1 = [a, b, c, d]" by (rule mix_columnE)
  obtain w2 x2 y2 z2 where 2: "mix_column e f g h = [w2, x2, y2, z2]"
    "inv_mix_column w2 x2 y2 z2 = [e, f, g, h]" by (rule mix_columnE)
  obtain w3 x3 y3 z3 where 3: "mix_column i j k l = [w3, x3, y3, z3]"
    "inv_mix_column w3 x3 y3 z3 = [i, j, k, l]" by (rule mix_columnE)
  obtain w4 x4 y4 z4 where 4: "mix_column m n p q = [w4, x4, y4, z4]"
    "inv_mix_column w4 x4 y4 z4 = [m, n, p, q]" by (rule mix_columnE)
  show ?thesis
    by (simp add: s mix_columns_16 1 2 3 4)
qed

section \<open>Encryption and decryption are inverse\<close>

text \<open>The state after the first \<open>n\<close> rounds, as encryption computes it.\<close>

definition enc_state :: "AES_CTX \<Rightarrow> u8 list \<Rightarrow> nat \<Rightarrow> u8 list" where
  "enc_state ctx b n = fold (enc_round ctx) [1..<n + 1] (add_rk b (aes_rk ctx))"

lemma enc_state_simps:
  "enc_state ctx b 0 = add_rk b (aes_rk ctx)"
  "enc_state ctx b (Suc n) = enc_round ctx (Suc n) (enc_state ctx b n)"
  by (simp_all add: enc_state_def)

lemma length_enc_state: "length b = 16 \<Longrightarrow> length (enc_state ctx b n) = 16"
  by (induction n) (simp_all add: enc_state_simps enc_round_def Let_def)

text \<open>The state before the round key of round \<open>n\<close> is added and columns are mixed.\<close>

lemma dec_round_enc:
  assumes "length b = 16" and "Suc n < aes_nr ctx"
  shows "dec_round ctx (Suc n) (shift_rows (sub_bytes (enc_state ctx b (Suc n)))) =
    shift_rows (sub_bytes (enc_state ctx b n))"
proof -
  let ?t = "shift_rows (sub_bytes (enc_state ctx b n))"
  have len: "length ?t = 16" using length_enc_state[OF assms(1)] by simp
  have "inv_sub_bytes (inv_shift_rows (shift_rows (sub_bytes (enc_state ctx b (Suc n))))) =
      enc_state ctx b (Suc n)"
    using length_enc_state[OF assms(1)] by (simp add: inv_shift_shift inv_sub_sub_bytes)
  then have "dec_round ctx (Suc n) (shift_rows (sub_bytes (enc_state ctx b (Suc n)))) =
      inv_mix_columns (add_rk (enc_state ctx b (Suc n)) (drop (Suc n * 4) (aes_rk ctx)))"
    by (simp add: dec_round_def Let_def)
  also have "\<dots> = inv_mix_columns (mix_columns ?t)"
    using assms(2) by (simp add: enc_state_simps(2) enc_round_def Let_def add_rk_add_rk)
  finally show ?thesis using inv_mix_mix_columns[OF len] by simp
qed

lemma dec_rounds_enc:
  assumes "length b = 16" and "n < aes_nr ctx"
  shows "fold (dec_round ctx) (rev [0..<Suc n]) (shift_rows (sub_bytes (enc_state ctx b n))) = b"
  using assms(2)
proof (induction n)
  case 0
  then show ?case
    using length_enc_state[OF assms(1), of ctx 0] assms(1)
    by (simp add: dec_round_def Let_def inv_shift_shift inv_sub_sub_bytes enc_state_simps
        add_rk_add_rk)
next
  case (Suc n)
  then show ?case using dec_round_enc[OF assms(1), of n ctx] by simp
qed

lemma aes_dec_enc:
  assumes "length b = 16" and "0 < aes_nr ctx"
  shows "aes_decrypt_block ctx (aes_encrypt_block ctx b) = b"
proof -
  obtain n where n: "aes_nr ctx = Suc n" using assms(2) gr0_conv_Suc by blast
  have enc: "aes_encrypt_block ctx b = enc_state ctx b (Suc n)"
    using assms(1) by (simp add: aes_encrypt_block_def enc_state_def n)
  have "add_rk (enc_state ctx b (Suc n)) (drop (aes_nr ctx * 4) (aes_rk ctx)) =
      shift_rows (sub_bytes (enc_state ctx b n))"
    using length_enc_state[OF assms(1), of ctx n]
    by (simp add: enc_state_simps(2) enc_round_def Let_def n add_rk_add_rk)
  then show ?thesis
    using dec_rounds_enc[OF assms(1), of n ctx] length_enc_state[OF assms(1), of ctx "Suc n"]
    by (simp add: aes_decrypt_block_def enc n)
qed

lemma length_aes:
  "length b = 16 \<Longrightarrow> length (aes_encrypt_block ctx b) = 16"
  using length_enc_state[of b ctx "aes_nr ctx"] by (simp add: aes_encrypt_block_def enc_state_def)

text \<open>
  Blocks form a finite set that encryption maps into itself injectively, so encryption
  also inverts decryption.
\<close>

definition blocks :: "u8 list set" where
  "blocks = {b. length b = 16}"

lemma finite_blocks: "finite blocks"
proof -
  have "finite {b :: u8 list. set b \<subseteq> UNIV \<and> length b = 16}"
    by (rule finite_lists_length_eq) (rule finite)
  then show ?thesis by (simp only: blocks_def subset_UNIV simp_thms)
qed

lemma aes_enc_dec:
  assumes "length b = 16" and "0 < aes_nr ctx"
  shows "aes_encrypt_block ctx (aes_decrypt_block ctx b) = b"
proof -
  have inj: "inj_on (aes_encrypt_block ctx) blocks"
    by (rule inj_on_inverseI[where g = "aes_decrypt_block ctx"])
      (simp only: blocks_def mem_Collect_eq aes_dec_enc[OF _ assms(2)])
  have "aes_encrypt_block ctx ` blocks \<subseteq> blocks"
    by (rule image_subsetI) (simp only: blocks_def mem_Collect_eq length_aes)
  then have "aes_encrypt_block ctx ` blocks = blocks"
    using inj by (intro endo_inj_surj finite_blocks)
  then obtain a where "length a = 16" "aes_encrypt_block ctx a = b"
    using assms(1) unfolding blocks_def by (metis (mono_tags, lifting) imageE mem_Collect_eq)
  then show ?thesis using aes_dec_enc[OF _ assms(2), of a] by simp
qed

section \<open>Properties\<close>

lemma length_expand: "length (fold (expand_word nk) is rk) = length rk + length is"
  by (induction "is" arbitrary: rk) (simp_all add: expand_word_def Let_def)

lemma aes_nr_pos [simp]: "0 < aes_nr (aes_init_enc key n)"
  by (simp add: aes_init_enc_def Let_def)

text \<open>
  C21. For AES-128 and AES-256 keys the key schedule writes every round key that the
  rounds read, and with it block decryption inverts block encryption and block
  encryption inverts block decryption.
\<close>

theorem aes_block_inverse:
  assumes "key_len = 16 \<or> key_len = 32" and "length b = 16"
  shows "length (aes_rk (aes_init_enc key key_len)) = 4 * (aes_nr (aes_init_enc key key_len) + 1) \<and>
    aes_decrypt_block (aes_init_dec key key_len) (aes_encrypt_block (aes_init_enc key key_len) b) = b \<and>
    aes_encrypt_block (aes_init_enc key key_len) (aes_decrypt_block (aes_init_dec key key_len) b) = b"
proof (intro conjI)
  show "length (aes_rk (aes_init_enc key key_len)) = 4 * (aes_nr (aes_init_enc key key_len) + 1)"
    using assms(1) by (auto simp: aes_init_enc_def Let_def length_expand)
qed (simp_all add: aes_init_dec_def aes_dec_enc aes_enc_dec assms(2))

theorem aes_block_inverse_witness:
  "aes_decrypt_block (aes_init_dec (replicate 32 7) 32)
     (aes_encrypt_block (aes_init_enc (replicate 32 7) 32) (replicate 16 1)) = replicate 16 1"
  using aes_block_inverse[of 32 "replicate 16 1" "replicate 32 7"] by simp

end
