(* ===== verification/Sha.thy ===== *)
theory Sha
  imports Prelude "HOL-Library.While_Combinator"
begin

text \<open>
  SHA-1, SHA-256 and SHA-512 of \<^verbatim>\<open>src/crypto/sha.c\<close>: contexts, block functions, streaming
  update, padding and the dispatch helpers.  A context's \<^verbatim>\<open>buf\<close> is the list of the
  \<^verbatim>\<open>buf_len\<close> bytes waiting for a full block (the bytes behind them are never read).
  The three \<^verbatim>\<open>update\<close> functions share one body up to the block size and the length
  counter; \<open>absorb\<close> is that body.  The locale \<open>md_stream\<close> proves once that
  streaming in any pieces equals hashing the concatenation, and that the padding loop
  ends; it is interpreted for each of the three hashes.

  Lengths are natural numbers: the \<^verbatim>\<open>u32\<close> index of the block loop does not wrap for the
  buffers of the program, all far shorter than \<open>2 ^ 32 - 128\<close> bytes.
\<close>

section \<open>Portable helpers\<close>

definition ror32 :: "u32 \<Rightarrow> nat \<Rightarrow> u32" where
  "ror32 x n = drop_bit n x OR push_bit (32 - n) x"

definition ror64 :: "u64 \<Rightarrow> nat \<Rightarrow> u64" where
  "ror64 x n = drop_bit n x OR push_bit (64 - n) x"

definition be32 :: "u8 list \<Rightarrow> u32" where
  "be32 p = push_bit 24 (ucast (p ! 0)) OR push_bit 16 (ucast (p ! 1))
     OR push_bit 8 (ucast (p ! 2)) OR ucast (p ! 3)"

definition be64 :: "u8 list \<Rightarrow> u64" where
  "be64 p = push_bit 32 (ucast (be32 p)) OR ucast (be32 (drop 4 p))"

definition put_be32 :: "u32 \<Rightarrow> u8 list" where
  "put_be32 v = [ucast (drop_bit 24 v), ucast (drop_bit 16 v), ucast (drop_bit 8 v), ucast v]"

definition put_be64 :: "u64 \<Rightarrow> u8 list" where
  "put_be64 v = put_be32 (ucast (drop_bit 32 v)) @ put_be32 (ucast v)"

lemma length_put_be32 [simp]: "length (put_be32 v) = 4"
  by (simp add: put_be32_def)

lemma length_put_be64 [simp]: "length (put_be64 v) = 8"
  by (simp add: put_be64_def)

section \<open>Block functions\<close>

text \<open>The first sixteen message words of a block, and the working variables.\<close>

definition words32 :: "u8 list \<Rightarrow> u32 list" where
  "words32 blk = map (\<lambda>i. be32 (drop (i * 4) blk)) [0..<16]"

definition words64 :: "u8 list \<Rightarrow> u64 list" where
  "words64 blk = map (\<lambda>i. be64 (drop (i * 8) blk)) [0..<16]"

text \<open>\<^verbatim>\<open>ctx->h[0]+=a; ctx->h[1]+=b; ...\<close>\<close>

definition add_words :: "'a::len word list \<Rightarrow> 'a word list \<Rightarrow> 'a word list" where
  "add_words h v = map2 (+) h v"

definition sha1_schedule :: "u8 list \<Rightarrow> u32 list" where
  "sha1_schedule blk = fold (\<lambda>i w.
     let x = w ! (i-3) XOR w ! (i-8) XOR w ! (i-14) XOR w ! (i-16)
     in w @ [push_bit 1 x OR drop_bit 31 x]) [16..<80] (words32 blk)"

definition sha1_round :: "u32 list \<Rightarrow> nat \<Rightarrow> u32 list \<Rightarrow> u32 list" where
  "sha1_round w i v =
     (let a = v ! 0; b = v ! 1; c = v ! 2; d = v ! 3; e = v ! 4;
          (f, k) = (if i < 20 then ((b AND c) OR (NOT b AND d), 0x5A827999)
                    else if i < 40 then (b XOR c XOR d, 0x6ED9EBA1)
                    else if i < 60 then ((b AND c) OR (b AND d) OR (c AND d), 0x8F1BBCDC)
                    else (b XOR c XOR d, 0xCA62C1D6));
          t = (push_bit 5 a OR drop_bit 27 a) + f + e + k + w ! i
      in [t, a, push_bit 30 b OR drop_bit 2 b, c, d])"

definition sha1_block :: "u32 list \<Rightarrow> u8 list \<Rightarrow> u32 list" where
  "sha1_block h blk = (let w = sha1_schedule blk in add_words h (fold (sha1_round w) [0..<80] h))"

definition K256 :: "u32 list" where
  "K256 = [
     0x428a2f98, 0x71374491, 0xb5c0fbcf, 0xe9b5dba5,
     0x3956c25b, 0x59f111f1, 0x923f82a4, 0xab1c5ed5,
     0xd807aa98, 0x12835b01, 0x243185be, 0x550c7dc3,
     0x72be5d74, 0x80deb1fe, 0x9bdc06a7, 0xc19bf174,
     0xe49b69c1, 0xefbe4786, 0x0fc19dc6, 0x240ca1cc,
     0x2de92c6f, 0x4a7484aa, 0x5cb0a9dc, 0x76f988da,
     0x983e5152, 0xa831c66d, 0xb00327c8, 0xbf597fc7,
     0xc6e00bf3, 0xd5a79147, 0x06ca6351, 0x14292967,
     0x27b70a85, 0x2e1b2138, 0x4d2c6dfc, 0x53380d13,
     0x650a7354, 0x766a0abb, 0x81c2c92e, 0x92722c85,
     0xa2bfe8a1, 0xa81a664b, 0xc24b8b70, 0xc76c51a3,
     0xd192e819, 0xd6990624, 0xf40e3585, 0x106aa070,
     0x19a4c116, 0x1e376c08, 0x2748774c, 0x34b0bcb5,
     0x391c0cb3, 0x4ed8aa4a, 0x5b9cca4f, 0x682e6ff3,
     0x748f82ee, 0x78a5636f, 0x84c87814, 0x8cc70208,
     0x90befffa, 0xa4506ceb, 0xbef9a3f7, 0xc67178f2]"

definition sha256_schedule :: "u8 list \<Rightarrow> u32 list" where
  "sha256_schedule blk = fold (\<lambda>i w.
     let x = w ! (i-15); y = w ! (i-2);
         s0 = ror32 x 7 XOR ror32 x 18 XOR drop_bit 3 x;
         s1 = ror32 y 17 XOR ror32 y 19 XOR drop_bit 10 y
     in w @ [w ! (i-16) + s0 + w ! (i-7) + s1]) [16..<64] (words32 blk)"

definition sha256_round :: "u32 list \<Rightarrow> nat \<Rightarrow> u32 list \<Rightarrow> u32 list" where
  "sha256_round w i v =
     (let a = v ! 0; b = v ! 1; c = v ! 2; d = v ! 3; e = v ! 4; f = v ! 5; g = v ! 6; h = v ! 7;
          s1 = ror32 e 6 XOR ror32 e 11 XOR ror32 e 25;
          ch = (e AND f) XOR (NOT e AND g);
          t1 = h + s1 + ch + K256 ! i + w ! i;
          s0 = ror32 a 2 XOR ror32 a 13 XOR ror32 a 22;
          maj = (a AND b) XOR (a AND c) XOR (b AND c);
          t2 = s0 + maj
      in [t1 + t2, a, b, c, d + t1, e, f, g])"

definition sha256_block :: "u32 list \<Rightarrow> u8 list \<Rightarrow> u32 list" where
  "sha256_block h blk =
     (let w = sha256_schedule blk in add_words h (fold (sha256_round w) [0..<64] h))"

definition K512 :: "u64 list" where
  "K512 = [
     0x428a2f98d728ae22, 0x7137449123ef65cd, 0xb5c0fbcfec4d3b2f,
     0xe9b5dba58189dbbc, 0x3956c25bf348b538, 0x59f111f1b605d019,
     0x923f82a4af194f9b, 0xab1c5ed5da6d8118, 0xd807aa98a3030242,
     0x12835b0145706fbe, 0x243185be4ee4b28c, 0x550c7dc3d5ffb4e2,
     0x72be5d74f27b896f, 0x80deb1fe3b1696b1, 0x9bdc06a725c71235,
     0xc19bf174cf692694, 0xe49b69c19ef14ad2, 0xefbe4786384f25e3,
     0x0fc19dc68b8cd5b5, 0x240ca1cc77ac9c65, 0x2de92c6f592b0275,
     0x4a7484aa6ea6e483, 0x5cb0a9dcbd41fbd4, 0x76f988da831153b5,
     0x983e5152ee66dfab, 0xa831c66d2db43210, 0xb00327c898fb213f,
     0xbf597fc7beef0ee4, 0xc6e00bf33da88fc2, 0xd5a79147930aa725,
     0x06ca6351e003826f, 0x142929670a0e6e70, 0x27b70a8546d22ffc,
     0x2e1b21385c26c926, 0x4d2c6dfc5ac42aed, 0x53380d139d95b3df,
     0x650a73548baf63de, 0x766a0abb3c77b2a8, 0x81c2c92e47edaee6,
     0x92722c851482353b, 0xa2bfe8a14cf10364, 0xa81a664bbc423001,
     0xc24b8b70d0f89791, 0xc76c51a30654be30, 0xd192e819d6ef5218,
     0xd69906245565a910, 0xf40e35855771202a, 0x106aa07032bbd1b8,
     0x19a4c116b8d2d0c8, 0x1e376c085141ab53, 0x2748774cdf8eeb99,
     0x34b0bcb5e19b48a8, 0x391c0cb3c5c95a63, 0x4ed8aa4ae3418acb,
     0x5b9cca4f7763e373, 0x682e6ff3d6b2b8a3, 0x748f82ee5defb2fc,
     0x78a5636f43172f60, 0x84c87814a1f0ab72, 0x8cc702081a6439ec,
     0x90befffa23631e28, 0xa4506cebde82bde9, 0xbef9a3f7b2c67915,
     0xc67178f2e372532b, 0xca273eceea26619c, 0xd186b8c721c0c207,
     0xeada7dd6cde0eb1e, 0xf57d4f7fee6ed178, 0x06f067aa72176fba,
     0x0a637dc5a2c898a6, 0x113f9804bef90dae, 0x1b710b35131c471b,
     0x28db77f523047d84, 0x32caab7b40c72493, 0x3c9ebe0a15c9bebc,
     0x431d67c49c100d4c, 0x4cc5d4becb3e42b6, 0x597f299cfc657e2a,
     0x5fcb6fab3ad6faec, 0x6c44198c4a475817]"

definition sha512_schedule :: "u8 list \<Rightarrow> u64 list" where
  "sha512_schedule blk = fold (\<lambda>i w.
     let x = w ! (i-15); y = w ! (i-2);
         s0 = ror64 x 1 XOR ror64 x 8 XOR drop_bit 7 x;
         s1 = ror64 y 19 XOR ror64 y 61 XOR drop_bit 6 y
     in w @ [w ! (i-16) + s0 + w ! (i-7) + s1]) [16..<80] (words64 blk)"

definition sha512_round :: "u64 list \<Rightarrow> nat \<Rightarrow> u64 list \<Rightarrow> u64 list" where
  "sha512_round w i v =
     (let a = v ! 0; b = v ! 1; c = v ! 2; d = v ! 3; e = v ! 4; f = v ! 5; g = v ! 6; h = v ! 7;
          s1 = ror64 e 14 XOR ror64 e 18 XOR ror64 e 41;
          ch = (e AND f) XOR (NOT e AND g);
          t1 = h + s1 + ch + K512 ! i + w ! i;
          s0 = ror64 a 28 XOR ror64 a 34 XOR ror64 a 39;
          maj = (a AND b) XOR (a AND c) XOR (b AND c);
          t2 = s0 + maj
      in [t1 + t2, a, b, c, d + t1, e, f, g])"

definition sha512_block :: "u64 list \<Rightarrow> u8 list \<Rightarrow> u64 list" where
  "sha512_block h blk =
     (let w = sha512_schedule blk in add_words h (fold (sha512_round w) [0..<80] h))"

section \<open>Streaming\<close>

text \<open>
  \<^verbatim>\<open>for (; i + bs <= len; i += bs) block(ctx, data + i)\<close> on the bytes from index
  \<open>i\<close> on; the bytes that are left go to the buffer.
\<close>

function absorb_blocks :: "('h \<Rightarrow> u8 list \<Rightarrow> 'h) \<Rightarrow> nat \<Rightarrow> 'h \<Rightarrow> u8 list \<Rightarrow> 'h \<times> u8 list" where
  "absorb_blocks block bs h data =
     (if 0 < bs \<and> bs \<le> length data
      then absorb_blocks block bs (block h (take bs data)) (drop bs data)
      else (h, data))"
  by pat_completeness auto
termination
  by (relation "measure (\<lambda>(_, _, _, d). length d)") auto

declare absorb_blocks.simps [simp del]

definition absorb :: "('h \<Rightarrow> u8 list \<Rightarrow> 'h) \<Rightarrow> nat \<Rightarrow> 'h \<times> u8 list \<Rightarrow> u8 list \<Rightarrow> 'h \<times> u8 list" where
  "absorb block bs st data =
     (let (h, buf) = st;
          (h1, buf1, rest) =
            (if buf \<noteq> [] then
               let need = bs - length buf;
                   n = (if length data < need then length data else need);
                   b = buf @ take n data
               in (if length b = bs then (block h b, [], drop n data) else (h, b, drop n data))
             else (h, buf, data));
          (h2, tail) = absorb_blocks block bs h1 rest
      in (h2, buf1 @ tail))"

text \<open>\<^verbatim>\<open>SHA1_CTX\<close> and \<^verbatim>\<open>SHA256_CTX\<close> differ only in the number of chaining words.\<close>

record sha32_ctx =
  c32_h :: "u32 list"
  c32_len :: u64
  c32_buf :: "u8 list"

record sha64_ctx =
  c64_h :: "u64 list"
  c64_len0 :: u64
  c64_len1 :: u64
  c64_buf :: "u8 list"

definition sha1_init :: sha32_ctx where
  "sha1_init = \<lparr> c32_h = [0x67452301, 0xEFCDAB89, 0x98BADCFE, 0x10325476, 0xC3D2E1F0],
     c32_len = 0, c32_buf = [] \<rparr>"

definition sha1_update :: "sha32_ctx \<Rightarrow> u8 list \<Rightarrow> sha32_ctx" where
  "sha1_update ctx data =
     (let (h, buf) = absorb sha1_block 64 (c32_h ctx, c32_buf ctx) data
      in ctx\<lparr> c32_h := h, c32_len := c32_len ctx + of_nat (length data), c32_buf := buf \<rparr>)"

definition sha1_final :: "sha32_ctx \<Rightarrow> u8 list" where
  "sha1_final ctx0 =
     (let bits = c32_len ctx0 * 8;
          ctx = sha1_update ctx0 [0x80];
          ctx = while (\<lambda>c. length (c32_buf c) \<noteq> 56) (\<lambda>c. sha1_update c [0]) ctx;
          ctx = sha1_update ctx (put_be64 bits)
      in concat (map put_be32 (take 5 (c32_h ctx))))"

definition sha1 :: "u8 list \<Rightarrow> u8 list" where
  "sha1 data = sha1_final (sha1_update sha1_init data)"

definition sha256_init :: sha32_ctx where
  "sha256_init = \<lparr> c32_h = [0x6a09e667, 0xbb67ae85, 0x3c6ef372, 0xa54ff53a,
     0x510e527f, 0x9b05688c, 0x1f83d9ab, 0x5be0cd19], c32_len = 0, c32_buf = [] \<rparr>"

definition sha256_update :: "sha32_ctx \<Rightarrow> u8 list \<Rightarrow> sha32_ctx" where
  "sha256_update ctx data =
     (let (h, buf) = absorb sha256_block 64 (c32_h ctx, c32_buf ctx) data
      in ctx\<lparr> c32_h := h, c32_len := c32_len ctx + of_nat (length data), c32_buf := buf \<rparr>)"

definition sha256_final :: "sha32_ctx \<Rightarrow> u8 list" where
  "sha256_final ctx0 =
     (let bits = c32_len ctx0 * 8;
          ctx = sha256_update ctx0 [0x80];
          ctx = while (\<lambda>c. length (c32_buf c) \<noteq> 56) (\<lambda>c. sha256_update c [0]) ctx;
          ctx = sha256_update ctx (put_be64 bits)
      in concat (map put_be32 (take 8 (c32_h ctx))))"

definition sha256 :: "u8 list \<Rightarrow> u8 list" where
  "sha256 data = sha256_final (sha256_update sha256_init data)"

definition sha512_init :: sha64_ctx where
  "sha512_init = \<lparr> c64_h = [0x6a09e667f3bcc908, 0xbb67ae8584caa73b, 0x3c6ef372fe94f82b,
     0xa54ff53a5f1d36f1, 0x510e527fade682d1, 0x9b05688c2b3e6c1f, 0x1f83d9abfb41bd6b,
     0x5be0cd19137e2179], c64_len0 = 0, c64_len1 = 0, c64_buf = [] \<rparr>"

definition sha512_update :: "sha64_ctx \<Rightarrow> u8 list \<Rightarrow> sha64_ctx" where
  "sha512_update ctx data =
     (let old = c64_len0 ctx;
          lo = old + of_nat (length data);
          hi = (if lo < old then c64_len1 ctx + 1 else c64_len1 ctx);
          (h, buf) = absorb sha512_block 128 (c64_h ctx, c64_buf ctx) data
      in ctx\<lparr> c64_h := h, c64_len0 := lo, c64_len1 := hi, c64_buf := buf \<rparr>)"

definition sha512_final :: "sha64_ctx \<Rightarrow> u8 list" where
  "sha512_final ctx0 =
     (let bhi = push_bit 3 (c64_len1 ctx0) OR drop_bit 61 (c64_len0 ctx0);
          blo = push_bit 3 (c64_len0 ctx0);
          ctx = sha512_update ctx0 [0x80];
          ctx = while (\<lambda>c. length (c64_buf c) \<noteq> 112) (\<lambda>c. sha512_update c [0]) ctx;
          ctx = sha512_update ctx (put_be64 bhi @ put_be64 blo)
      in concat (map put_be64 (take 8 (c64_h ctx))))"

definition sha512 :: "u8 list \<Rightarrow> u8 list" where
  "sha512 data = sha512_final (sha512_update sha512_init data)"

section \<open>Dispatch helpers\<close>

text \<open>
  \<^verbatim>\<open>streq\<close> compares the characters it stopped at, so it is equality of C strings; the
  hash identifiers are the macros of \<^verbatim>\<open>sha.h\<close>, and an unknown name gives \<open>-1\<close>.
\<close>

fun streq :: "char list \<Rightarrow> char list \<Rightarrow> bool" where
  "streq (a # as) (b # bs) = (if a \<noteq> NUL \<and> b \<noteq> NUL \<and> a = b then streq as bs else a = b)"
| "streq [] bs = (NUL = peek bs)"
| "streq as [] = (peek as = NUL)"

definition HASH_SHA1 :: int where "HASH_SHA1 = 1"
definition HASH_SHA256 :: int where "HASH_SHA256 = 2"
definition HASH_SHA512 :: int where "HASH_SHA512 = 3"

lemmas hash_ids = HASH_SHA1_def HASH_SHA256_def HASH_SHA512_def

definition hash_id :: "char list \<Rightarrow> int" where
  "hash_id name =
     (if streq name ''sha1'' then HASH_SHA1
      else if streq name ''sha256'' then HASH_SHA256
      else if streq name ''sha512'' then HASH_SHA512 else -1)"

definition hash_digest_size :: "int \<Rightarrow> nat" where
  "hash_digest_size i =
     (if i = HASH_SHA1 then 20 else if i = HASH_SHA256 then 32
      else if i = HASH_SHA512 then 64 else 0)"

text \<open>The bytes written to \<^verbatim>\<open>out\<close>; none for an unknown identifier.\<close>

definition hash_compute :: "int \<Rightarrow> u8 list \<Rightarrow> u8 list" where
  "hash_compute i data =
     (if i = HASH_SHA1 then sha1 data else if i = HASH_SHA256 then sha256 data
      else if i = HASH_SHA512 then sha512 data else [])"

section \<open>The streaming interface\<close>

text \<open>
  What the three contexts have in common: the pair of chaining value and pending bytes
  that \<open>view\<close> reads from a context is changed by an update exactly as \<open>absorb\<close> does.
\<close>

locale md_stream =
  fixes block :: "'h \<Rightarrow> u8 list \<Rightarrow> 'h"
    and bs :: nat
    and pad_to :: nat
    and view :: "'c \<Rightarrow> 'h \<times> u8 list"
    and upd :: "'c \<Rightarrow> u8 list \<Rightarrow> 'c"
  assumes pad_to: "pad_to < bs"
    and view_upd: "view (upd c d) = absorb block bs (view c) d"
begin

lemma bs_pos: "0 < bs"
  using pad_to by simp

lemma blocks_length: "length (snd (absorb_blocks block bs h s)) = length s mod bs"
proof (induction "length s" arbitrary: h s rule: less_induct)
  case less
  show ?case
    using less[of "drop bs s" "block h (take bs s)"] bs_pos
    by (subst absorb_blocks.simps) (auto simp: le_mod_geq)
qed

lemma blocks_append:
  "absorb_blocks block bs h (s @ d) =
     (let (h', t) = absorb_blocks block bs h s in absorb_blocks block bs h' (t @ d))"
proof (induction "length s" arbitrary: h s rule: less_induct)
  case less
  show ?case
  proof (cases "bs \<le> length s")
    case True
    then show ?thesis
      using less[of "drop bs s" "block h (take bs s)"] bs_pos
      by (simp add: absorb_blocks.simps[of block bs h "s @ d"] absorb_blocks.simps[of block bs h s])
  next
    case False
    then show ?thesis by (simp add: absorb_blocks.simps[of block bs h s])
  qed
qed

lemma absorb_fresh:
  assumes "length buf < bs"
  shows "absorb block bs (h, buf) d = absorb_blocks block bs h (buf @ d)"
proof (cases "buf = [] \<or> length d < bs - length buf")
  case True
  then show ?thesis
    using assms by (auto simp: absorb_def absorb_blocks.simps[of block bs h] split: prod.splits)
next
  case False
  then show ?thesis
    using assms
    by (auto simp: absorb_def Let_def absorb_blocks.simps[of block bs h "buf @ d"] split: prod.splits)
qed

text \<open>Absorbing more data continues the hash of the concatenation.\<close>

lemma absorb_append:
  "absorb block bs (absorb_blocks block bs h s) d = absorb_blocks block bs h (s @ d)"
proof -
  obtain h' t where ht: "absorb_blocks block bs h s = (h', t)" by fastforce
  then have "length t < bs"
    using blocks_length[of h s] bs_pos by simp
  then have "absorb block bs (h', t) d = absorb_blocks block bs h' (t @ d)"
    by (rule absorb_fresh)
  then show ?thesis
    using blocks_append[of h s d] ht by simp
qed

lemma view_upd_append:
  "view c = absorb_blocks block bs h s \<Longrightarrow> view (upd c d) = absorb_blocks block bs h (s @ d)"
  by (simp add: view_upd absorb_append)

lemma foldl_upd:
  "view c = absorb_blocks block bs h s \<Longrightarrow>
     view (foldl upd c ds) = absorb_blocks block bs h (s @ concat ds)"
proof (induction ds arbitrary: c s)
  case (Cons d ds)
  show ?case using Cons.IH[OF view_upd_append[OF Cons.prems]] by simp
qed simp

end

text \<open>
  The number of zero bytes that take a message of \<open>n\<close> bytes to the place of the length
  field, and the padded message of FIPS 180-4 with the given length field.
\<close>

definition pad_zeros :: "nat \<Rightarrow> nat \<Rightarrow> nat \<Rightarrow> nat" where
  "pad_zeros bs p n = (p + bs - n mod bs) mod bs"

definition md_pad :: "nat \<Rightarrow> nat \<Rightarrow> u8 list \<Rightarrow> u8 list \<Rightarrow> u8 list" where
  "md_pad bs p lenfield s =
     s @ [0x80] @ replicate (pad_zeros bs p (Suc (length s))) 0 @ lenfield"

fun chunks :: "nat \<Rightarrow> 'a list \<Rightarrow> 'a list list" where
  "chunks 0 s = []"
| "chunks (Suc n) [] = []"
| "chunks (Suc n) s = take (Suc n) s # chunks (Suc n) (drop (Suc n) s)"

lemma pad_zeros_step:
  assumes "p < bs"
  shows "pad_zeros bs p n = 0 \<longleftrightarrow> n mod bs = p"
    and "n mod bs \<noteq> p \<Longrightarrow> pad_zeros bs p n = Suc (pad_zeros bs p (Suc n))"
proof -
  obtain r where r: "n mod bs = r" and lt: "r < bs" using assms by simp
  have form: "pad_zeros bs p m = (if m mod bs \<le> p then p - m mod bs else p + bs - m mod bs)" for m
  proof (cases "m mod bs \<le> p")
    case True
    then have "p + bs - m mod bs = (p - m mod bs) + bs" by simp
    then have "pad_zeros bs p m = ((p - m mod bs) + bs) mod bs"
      by (simp only: pad_zeros_def)
    also have "\<dots> = p - m mod bs"
      using assms by (simp only: mod_add_self2) simp
    finally show ?thesis using True by simp
  next
    case False
    then have "p + bs - m mod bs < bs"
      using assms by linarith
    then show ?thesis using False by (simp add: pad_zeros_def)
  qed
  show "pad_zeros bs p n = 0 \<longleftrightarrow> n mod bs = p"
    using lt assms by (auto simp: form r)
  show "n mod bs \<noteq> p \<Longrightarrow> pad_zeros bs p n = Suc (pad_zeros bs p (Suc n))"
    using lt assms by (auto simp: form r mod_Suc)
qed

lemma pad_zeros_mod:
  assumes "p < bs"
  shows "(n + pad_zeros bs p n) mod bs = p"
proof (induction "pad_zeros bs p n" arbitrary: n)
  case 0
  then show ?case using pad_zeros_step(1)[OF assms, of n] by simp
next
  case (Suc k)
  then have "n mod bs \<noteq> p" using pad_zeros_step(1)[OF assms, of n] by simp
  then have "pad_zeros bs p n = Suc (pad_zeros bs p (Suc n))"
    by (rule pad_zeros_step(2)[OF assms])
  then show ?case using Suc.hyps(1)[of "Suc n"] Suc.hyps(2) by simp
qed

lemma length_md_pad_mod:
  assumes "p < bs" "length lenfield = bs - p"
  shows "length (md_pad bs p lenfield s) mod bs = 0"
proof -
  have "length (md_pad bs p lenfield s) =
      (Suc (length s) + pad_zeros bs p (Suc (length s))) + (bs - p)"
    using assms by (simp add: md_pad_def)
  also have "\<dots> mod bs = (p + (bs - p)) mod bs"
    using pad_zeros_mod[OF assms(1), of "Suc (length s)"] by (metis mod_add_left_eq)
  finally show ?thesis using assms by simp
qed

context md_stream
begin

text \<open>The padding loop \<^verbatim>\<open>while (buf_len != pad_to) update(0)\<close> ends at the length field.\<close>

lemma pad_loop:
  assumes "view c = absorb_blocks block bs h s"
  shows "\<exists>c'. while_option (\<lambda>c. length (snd (view c)) \<noteq> pad_to) (\<lambda>c. upd c [0]) c = Some c' \<and>
    view c' = absorb_blocks block bs h (s @ replicate (pad_zeros bs pad_to (length s)) 0)"
  using assms
proof (induction "pad_zeros bs pad_to (length s)" arbitrary: c s)
  case 0
  then have "length s mod bs = pad_to"
    using pad_zeros_step(1)[OF pad_to, of "length s"] by simp
  then show ?case
    using 0 blocks_length[of h s] by (subst while_option_unfold) simp
next
  case (Suc k)
  then have ne: "length s mod bs \<noteq> pad_to"
    using pad_zeros_step(1)[OF pad_to, of "length s"] by simp
  then have k: "pad_zeros bs pad_to (length s) = Suc (pad_zeros bs pad_to (length (s @ [0])))"
    using pad_zeros_step(2)[OF pad_to] by simp
  have v: "view (upd c [0]) = absorb_blocks block bs h (s @ [0])"
    by (rule view_upd_append) (rule Suc.prems)
  obtain c' where
      "while_option (\<lambda>c. length (snd (view c)) \<noteq> pad_to) (\<lambda>c. upd c [0]) (upd c [0]) = Some c'"
      "view c' = absorb_blocks block bs h ((s @ [0]) @ replicate k 0)"
    using Suc.hyps(1)[OF _ v] Suc.hyps(2) k by auto
  then show ?case
    using ne Suc.prems Suc.hyps(2)[symmetric] blocks_length[of h s]
    by (subst while_option_unfold) simp
qed

lemma blocks_chunks:
  assumes "length s mod bs = 0"
  shows "absorb_blocks block bs h s = (foldl block h (chunks bs s), [])"
  using assms
proof (induction "length s" arbitrary: h s rule: less_induct)
  case less
  obtain n where n: "bs = Suc n" using bs_pos gr0_conv_Suc by blast
  show ?case
  proof (cases s)
    case Nil
    then show ?thesis using n by (simp add: absorb_blocks.simps)
  next
    case (Cons x xs)
    then have le: "bs \<le> length s" using less.prems
      by (metis bs_pos length_0_conv linorder_not_le list.distinct(1) mod_less)
    then have m: "length (drop bs s) mod bs = 0"
      using less.prems by (simp add: le_mod_geq)
    have "chunks bs s = take bs s # chunks bs (drop bs s)"
      using Cons n by simp
    then show ?thesis
      using less.hyps[OF _ m, of "block h (take bs s)"] le bs_pos Cons
      by (subst absorb_blocks.simps) simp
  qed
qed

text \<open>Padding followed by the length field hashes the padded message, block by block.\<close>

lemma finish:
  assumes "view c = absorb_blocks block bs h s"
    and "length lenfield = bs - pad_to"
  shows "view (upd (while (\<lambda>c. length (snd (view c)) \<noteq> pad_to) (\<lambda>c. upd c [0]) (upd c [0x80])) lenfield)
    = (foldl block h (chunks bs (md_pad bs pad_to lenfield s)), [])"
proof -
  have v: "view (upd c [0x80]) = absorb_blocks block bs h (s @ [0x80])"
    by (rule view_upd_append) (rule assms(1))
  obtain c' where c': "while_option (\<lambda>c. length (snd (view c)) \<noteq> pad_to) (\<lambda>c. upd c [0])
        (upd c [0x80]) = Some c'"
      "view c' = absorb_blocks block bs h
        ((s @ [0x80]) @ replicate (pad_zeros bs pad_to (length (s @ [0x80]))) 0)"
    using pad_loop[OF v] by blast
  then have "view (upd c' lenfield) = absorb_blocks block bs h (md_pad bs pad_to lenfield s)"
    using view_upd_append[OF c'(2), of lenfield] by (simp add: md_pad_def)
  then show ?thesis
    using c'(1) blocks_chunks[OF length_md_pad_mod[OF pad_to assms(2)]]
    by (simp add: while_def)
qed

end

section \<open>The three hashes\<close>

definition view32 :: "sha32_ctx \<Rightarrow> u32 list \<times> u8 list" where
  "view32 c = (c32_h c, c32_buf c)"

definition view64 :: "sha64_ctx \<Rightarrow> u64 list \<times> u8 list" where
  "view64 c = (c64_h c, c64_buf c)"

interpretation sha1_md: md_stream sha1_block 64 56 view32 sha1_update
  by unfold_locales (auto simp: view32_def sha1_update_def Let_def split: prod.splits)

interpretation sha256_md: md_stream sha256_block 64 56 view32 sha256_update
  by unfold_locales (auto simp: view32_def sha256_update_def Let_def split: prod.splits)

interpretation sha512_md: md_stream sha512_block 128 112 view64 sha512_update
  by unfold_locales (auto simp: view64_def sha512_update_def Let_def split: prod.splits)

lemma absorb_blocks_Nil: "0 < bs \<Longrightarrow> absorb_blocks block bs h [] = (h, [])"
  by (simp add: absorb_blocks.simps)

text \<open>The length counters.\<close>

lemma sha_len:
  "c32_len (foldl sha1_update c ds) = c32_len c + of_nat (length (concat ds))"
  "c32_len (foldl sha256_update c ds) = c32_len c + of_nat (length (concat ds))"
proof -
  have 1: "c32_len (sha1_update c d) = c32_len c + of_nat (length d)"
    "c32_len (sha256_update c d) = c32_len c + of_nat (length d)" for c d
    by (simp_all add: sha1_update_def sha256_update_def Let_def split: prod.splits)
  show "c32_len (foldl sha1_update c ds) = c32_len c + of_nat (length (concat ds))"
    by (induction ds arbitrary: c) (simp_all add: 1)
  show "c32_len (foldl sha256_update c ds) = c32_len c + of_nat (length (concat ds))"
    by (induction ds arbitrary: c) (simp_all add: 1)
qed

lemma sha512_len1:
  assumes "unat (c64_len0 c) + length d < 2 ^ 64"
  shows "c64_len0 (sha512_update c d) = c64_len0 c + of_nat (length d)"
    and "c64_len1 (sha512_update c d) = c64_len1 c"
proof -
  have "unat (of_nat (length d) :: u64) = length d"
    using assms by (simp add: unat_of_nat)
  then have "\<not> c64_len0 c + of_nat (length d) < c64_len0 c"
    using assms by (simp add: word_less_nat_alt unat_word_ariths)
  then show "c64_len0 (sha512_update c d) = c64_len0 c + of_nat (length d)"
    and "c64_len1 (sha512_update c d) = c64_len1 c"
    by (simp_all add: sha512_update_def Let_def split: prod.splits)
qed

lemma sha512_len:
  assumes "unat (c64_len0 c) + length (concat ds) < 2 ^ 64"
  shows "c64_len0 (foldl sha512_update c ds) = c64_len0 c + of_nat (length (concat ds)) \<and>
    c64_len1 (foldl sha512_update c ds) = c64_len1 c"
  using assms
proof (induction ds arbitrary: c)
  case (Cons d ds)
  let ?c = "sha512_update c d"
  have d: "unat (c64_len0 c) + length d < 2 ^ 64" using Cons.prems by simp
  have "unat (c64_len0 ?c) \<le> unat (c64_len0 c) + length d"
    unfolding sha512_len1(1)[OF d] by (simp add: unat_word_ariths unat_of_nat mod_add_right_eq)
  then have "unat (c64_len0 ?c) + length (concat ds) < 2 ^ 64"
    using Cons.prems by simp
  from Cons.IH[OF this] show ?case
    by (simp add: sha512_len1[OF d])
qed simp

text \<open>A context into which the pieces \<open>ds\<close> were streamed.\<close>

lemma view_stream:
  "view32 (foldl sha1_update sha1_init ds) =
     absorb_blocks sha1_block 64 (c32_h sha1_init) (concat ds)"
  "view32 (foldl sha256_update sha256_init ds) =
     absorb_blocks sha256_block 64 (c32_h sha256_init) (concat ds)"
  "view64 (foldl sha512_update sha512_init ds) =
     absorb_blocks sha512_block 128 (c64_h sha512_init) (concat ds)"
  using sha1_md.foldl_upd[of sha1_init "c32_h sha1_init" "[]" ds]
    sha256_md.foldl_upd[of sha256_init "c32_h sha256_init" "[]" ds]
    sha512_md.foldl_upd[of sha512_init "c64_h sha512_init" "[]" ds]
  by (simp_all add: absorb_blocks_Nil view32_def view64_def sha1_init_def sha256_init_def
      sha512_init_def)

definition sha1_spec :: "u8 list \<Rightarrow> u8 list" where
  "sha1_spec s = concat (map put_be32 (foldl sha1_block (c32_h sha1_init)
     (chunks 64 (md_pad 64 56 (put_be64 (of_nat (8 * length s))) s))))"

definition sha256_spec :: "u8 list \<Rightarrow> u8 list" where
  "sha256_spec s = concat (map put_be32 (foldl sha256_block (c32_h sha256_init)
     (chunks 64 (md_pad 64 56 (put_be64 (of_nat (8 * length s))) s))))"

definition sha512_spec :: "u8 list \<Rightarrow> u8 list" where
  "sha512_spec s = concat (map put_be64 (foldl sha512_block (c64_h sha512_init)
     (chunks 128 (md_pad 128 112 (put_be64 0 @ put_be64 (of_nat (8 * length s))) s))))"

text \<open>The chaining value keeps its number of words.\<close>

lemma fold_length:
  assumes "\<And>i v. length (f i v) = n" "length v = n"
  shows "length (fold f is v) = n"
  using assms(2) by (induction "is" arbitrary: v) (auto simp: assms(1))

lemma length_block:
  "length h = 5 \<Longrightarrow> length (sha1_block h b) = 5"
  "length h = 8 \<Longrightarrow> length (sha256_block h b) = 8"
  "length h' = 8 \<Longrightarrow> length (sha512_block h' b) = 8"
  by (simp_all add: sha1_block_def sha256_block_def sha512_block_def add_words_def Let_def
      fold_length[of _ 5] fold_length[of _ 8] sha1_round_def sha256_round_def sha512_round_def
      split: prod.splits)

lemma length_blocks:
  "length h = 5 \<Longrightarrow> length (foldl sha1_block h bs) = 5"
  "length h = 8 \<Longrightarrow> length (foldl sha256_block h bs) = 8"
  "length h' = 8 \<Longrightarrow> length (foldl sha512_block h' bs) = 8"
  by (induction bs arbitrary: h h') (simp_all add: length_block)

lemma length_init:
  "length (c32_h sha1_init) = 5" "length (c32_h sha256_init) = 8" "length (c64_h sha512_init) = 8"
  by (simp_all add: sha1_init_def sha256_init_def sha512_init_def)

lemmas sha_lengths = length_block length_blocks length_init

lemma sha1_final_stream: "sha1_final (foldl sha1_update sha1_init ds) = sha1_spec (concat ds)"
proof -
  have "c32_len (foldl sha1_update sha1_init ds) * 8 = of_nat (8 * length (concat ds))"
    by (simp add: sha_len sha1_init_def)
  then show ?thesis
    using sha1_md.finish[OF view_stream(1), of "put_be64 (of_nat (8 * length (concat ds)))" ds]
    by (simp add: sha1_final_def sha1_spec_def Let_def view32_def sha_lengths)
qed

lemma sha256_final_stream:
  "sha256_final (foldl sha256_update sha256_init ds) = sha256_spec (concat ds)"
proof -
  have "c32_len (foldl sha256_update sha256_init ds) * 8 = of_nat (8 * length (concat ds))"
    by (simp add: sha_len sha256_init_def)
  then show ?thesis
    using sha256_md.finish[OF view_stream(2), of "put_be64 (of_nat (8 * length (concat ds)))" ds]
    by (simp add: sha256_final_def sha256_spec_def Let_def view32_def sha_lengths)
qed

lemma sha512_final_stream:
  assumes "length (concat ds) < 2 ^ 32"
  shows "sha512_final (foldl sha512_update sha512_init ds) = sha512_spec (concat ds)"
proof -
  let ?c = "foldl sha512_update sha512_init ds" and ?n = "length (concat ds)"
  have len: "c64_len0 ?c = of_nat ?n" "c64_len1 ?c = 0"
    using sha512_len[of sha512_init ds] assms by (simp_all add: sha512_init_def)
  have "unat (drop_bit 61 (of_nat ?n :: u64)) = 0"
    using assms by (subst unat_drop_bit_eq) (simp add: unat_of_nat drop_bit_eq_div)
  then have hi: "push_bit 3 (c64_len1 ?c) OR drop_bit 61 (c64_len0 ?c) = 0"
    by (simp only: len unat_zero_iff) simp
  have lo: "push_bit 3 (c64_len0 ?c) = of_nat (8 * ?n)"
    by (simp add: len push_bit_eq_mult)
  show ?thesis
    using sha512_md.finish[OF view_stream(3), of "put_be64 0 @ put_be64 (of_nat (8 * ?n))" ds]
    by (simp add: sha512_final_def sha512_spec_def Let_def hi lo view64_def sha_lengths)
qed

section \<open>Properties\<close>

lemma sha_fold1:
  "sha1 s = sha1_final (foldl sha1_update sha1_init [s])"
  "sha256 s = sha256_final (foldl sha256_update sha256_init [s])"
  "sha512 s = sha512_final (foldl sha512_update sha512_init [s])"
  by (simp_all add: sha1_def sha256_def sha512_def)

text \<open>
  Streaming a message into a context in any pieces gives the digest of the one-shot
  function on the whole message, for SHA-1, SHA-256 and SHA-512; messages are shorter than
  \<open>2 ^ 32\<close> bytes, as the one-shot functions take a \<^verbatim>\<open>u32\<close> length.
\<close>

theorem sha_streaming:
  assumes "length (concat ds) < 2 ^ 32"
  shows "sha1_final (foldl sha1_update sha1_init ds) = sha1 (concat ds) \<and>
    sha256_final (foldl sha256_update sha256_init ds) = sha256 (concat ds) \<and>
    sha512_final (foldl sha512_update sha512_init ds) = sha512 (concat ds)"
  using assms
  by (simp only: sha_fold1 sha1_final_stream sha256_final_stream sha512_final_stream
      concat.simps append_Nil2)

theorem sha_streaming_witness:
  "sha1_final (foldl sha1_update sha1_init [[97], [98, 99]]) = sha1 [97, 98, 99] \<and>
   sha512_final (foldl sha512_update sha512_init [[97], [98, 99]]) = sha512 [97, 98, 99]"
  using sha_streaming[of "[[97], [98, 99]]"] by simp



lemma length_concat_const: "(\<And>x. length (f x) = n) \<Longrightarrow> length (concat (map f xs)) = n * length xs"
  by (induction xs) simp_all


lemma length_sha:
  assumes "length s < 2 ^ 32"
  shows "length (sha1 s) = 20" "length (sha256 s) = 32" "length (sha512 s) = 64"
  using assms
  by (simp_all only: sha_fold1 sha1_final_stream sha256_final_stream sha512_final_stream
      concat.simps append_Nil2)
    (simp_all add: sha1_spec_def sha256_spec_def sha512_spec_def sha_lengths
      length_concat_const[of put_be32 4] length_concat_const[of put_be64 8])

lemma length_hash_compute:
  "length s < 2 ^ 32 \<Longrightarrow> length (hash_compute i s) = hash_digest_size i"
  by (simp add: hash_compute_def hash_digest_size_def length_sha)

lemma sha_two:
  "sha1_final (sha1_update (sha1_update sha1_init a) b) = sha1 (a @ b)"
  "sha256_final (sha256_update (sha256_update sha256_init a) b) = sha256 (a @ b)"
  "length a + length b < 2 ^ 32 \<Longrightarrow>
     sha512_final (sha512_update (sha512_update sha512_init a) b) = sha512 (a @ b)"
  using sha1_final_stream[of "[a, b]"] sha1_final_stream[of "[a @ b]"]
    sha256_final_stream[of "[a, b]"] sha256_final_stream[of "[a @ b]"]
    sha512_final_stream[of "[a, b]"] sha512_final_stream[of "[a @ b]"]
  by (simp_all add: sha1_def sha256_def sha512_def)

lemma streq_cstr: "streq a b \<longleftrightarrow> cstr a = cstr b"
  by (induction a b rule: streq.induct) (auto simp: peek_def split: list.splits)

text \<open>
  \<^verbatim>\<open>hash_id\<close>, \<^verbatim>\<open>hash_digest_size\<close> and \<^verbatim>\<open>hash_compute\<close> agree: the digest written has the
  announced length, and the announced length is 0 exactly for a name other than
  \<^verbatim>\<open>sha1\<close>, \<^verbatim>\<open>sha256\<close> and \<^verbatim>\<open>sha512\<close> (compared as C strings).
\<close>

theorem hash_dispatch:
  assumes "length s < 2 ^ 32"
  shows "length (hash_compute i s) = hash_digest_size i \<and>
   (hash_digest_size (hash_id n) = 0 \<longleftrightarrow> cstr n \<notin> {''sha1'', ''sha256'', ''sha512''})"
proof
  show "length (hash_compute i s) = hash_digest_size i"
    by (rule length_hash_compute[OF assms])
  have "cstr ''sha1'' = ''sha1''" "cstr ''sha256'' = ''sha256''" "cstr ''sha512'' = ''sha512''"
    by code_simp+
  then show "hash_digest_size (hash_id n) = 0 \<longleftrightarrow> cstr n \<notin> {''sha1'', ''sha256'', ''sha512''}"
    by (simp add: hash_id_def hash_digest_size_def streq_cstr hash_ids)
qed

theorem hash_dispatch_witness:
  "length (hash_compute HASH_SHA512 [97]) = 64 \<and> hash_digest_size (hash_id ''sha512'') \<noteq> 0 \<and>
   hash_digest_size (hash_id ''md5'') = 0"
  using hash_dispatch[of "[97]" HASH_SHA512 "''sha512''"] hash_dispatch[of "[97]" 0 "''md5''"]
  by (simp add: hash_digest_size_def hash_ids)

end
