(* ===== verification/Cipher.thy ===== *)
theory Cipher
  imports Aes Sha
begin

text \<open>
  The disk encryption modes of \<^verbatim>\<open>src/crypto/cipher.c\<close>: XTS and CBC with the IV schemes
  plain, plain64 and ESSIV, over the AES of \<open>Aes\<close>.  The locale \<open>block_cipher\<close> is the
  interface the modes rely on (a 16-byte permutation with its inverse); the two block loops
  are proved to invert each other once in it, and it is interpreted on AES contexts.
  \<^verbatim>\<open>cipher.c\<close> has no CBC encryption: \<open>cbc_encrypt_blocks\<close> is the textbook chaining that
  its decryption has to undo.
\<close>

section \<open>Mode names\<close>

fun strpfx :: "string \<Rightarrow> string \<Rightarrow> bool" where
  "strpfx s [] = True"
| "strpfx s (c # pfx) = (if c = NUL then True else if peek s \<noteq> c then False else strpfx (tl s) pfx)"

definition CIPHER_XTS :: int where "CIPHER_XTS = 1"
definition CIPHER_CBC_PLAIN :: int where "CIPHER_CBC_PLAIN = 2"
definition CIPHER_CBC_PLAIN64 :: int where "CIPHER_CBC_PLAIN64 = 3"
definition CIPHER_CBC_ESSIV :: int where "CIPHER_CBC_ESSIV = 4"

lemmas cipher_ids = CIPHER_XTS_def CIPHER_CBC_PLAIN_def CIPHER_CBC_PLAIN64_def CIPHER_CBC_ESSIV_def

definition cipher_mode_id :: "string \<Rightarrow> int" where
  "cipher_mode_id m =
     (if strpfx m ''xts'' then CIPHER_XTS
      else if strpfx m ''cbc-essiv'' then CIPHER_CBC_ESSIV
      else if strpfx m ''cbc-plain64'' then CIPHER_CBC_PLAIN64
      else if strpfx m ''cbc-plain'' then CIPHER_CBC_PLAIN
      else CIPHER_XTS)"

section \<open>XTS\<close>

text \<open>The doubling loop carries the top bit of each byte into the next.\<close>

fun gf128_shift :: "u8 \<Rightarrow> u8 list \<Rightarrow> u8 list \<times> u8" where
  "gf128_shift carry [] = ([], carry)"
| "gf128_shift carry (b # t) =
     (let (t', c) = gf128_shift (drop_bit 7 b AND 1) t in ((push_bit 1 b OR carry) # t', c))"

definition gf128_mul_x_le :: "u8 list \<Rightarrow> u8 list" where
  "gf128_mul_x_le t =
     (let (t', carry) = gf128_shift 0 t
      in if carry \<noteq> 0 then t'[0 := t' ! 0 XOR 0x87] else t')"

text \<open>\<^verbatim>\<open>for (i = 0; i < 8; i++) { tweak[i] = sector & 0xff; sector >>= 8; }\<close>\<close>

definition le64_bytes :: "u64 \<Rightarrow> u8 list" where
  "le64_bytes n = map (\<lambda>i. ucast (drop_bit (8 * i) n)) [0..<8]"

definition sector_iv :: "u64 \<Rightarrow> u8 list" where
  "sector_iv n = le64_bytes n @ replicate 8 0"

record XTS_CTX =
  xts_data_ctx :: AES_CTX
  xts_tweak_ctx :: AES_CTX

definition xts_init :: "u8 list \<Rightarrow> nat \<Rightarrow> bool \<Rightarrow> XTS_CTX" where
  "xts_init key key_len decrypt =
     (let half = key_len div 2
      in \<lparr> xts_data_ctx = (if decrypt then aes_init_dec key half else aes_init_enc key half),
           xts_tweak_ctx = aes_init_enc (drop half key) half \<rparr>)"

text \<open>The block loop for a block function \<open>f\<close>; a last partial block is not written.\<close>

function xts_blocks :: "(u8 list \<Rightarrow> u8 list) \<Rightarrow> u8 list \<Rightarrow> u8 list \<Rightarrow> u8 list" where
  "xts_blocks f tweak inp =
     (if 16 \<le> length inp then
        xor_bytes (f (xor_bytes (take 16 inp) tweak)) tweak
          @ xts_blocks f (gf128_mul_x_le tweak) (drop 16 inp)
      else [])"
  by pat_completeness auto
termination
  by (relation "measure (\<lambda>(_, _, d). length d)") auto

declare xts_blocks.simps [simp del]

definition xts_crypt :: "XTS_CTX \<Rightarrow> u64 \<Rightarrow> u8 list \<Rightarrow> bool \<Rightarrow> u8 list" where
  "xts_crypt ctx sector_num inp decrypt =
     (let tweak = aes_encrypt_block (xts_tweak_ctx ctx) (sector_iv sector_num)
      in xts_blocks (if decrypt then aes_decrypt_block (xts_data_ctx ctx)
                     else aes_encrypt_block (xts_data_ctx ctx)) tweak inp)"

section \<open>CBC\<close>

record CBC_CTX =
  cbc_enc_ctx :: AES_CTX
  cbc_dec_ctx :: AES_CTX
  cbc_mode :: int
  cbc_essiv_ctx :: AES_CTX

text \<open>
  \<^verbatim>\<open>essiv_hash\<close> is a possibly null pointer with its length; only its presence and length
  are looked at.  The previous \<^verbatim>\<open>essiv_ctx\<close> is kept when no ESSIV key is derived.
\<close>

definition cbc_init :: "CBC_CTX \<Rightarrow> u8 list \<Rightarrow> nat \<Rightarrow> int \<Rightarrow> (u8 list \<times> nat) option \<Rightarrow> CBC_CTX" where
  "cbc_init ctx key key_len mode essiv_hash =
     (let ctx = ctx\<lparr> cbc_enc_ctx := aes_init_enc key key_len,
                     cbc_dec_ctx := aes_init_dec key key_len, cbc_mode := mode \<rparr>
      in if mode = CIPHER_CBC_ESSIV \<and> (\<exists>h\<in>set_option essiv_hash. 32 \<le> snd h)
         then ctx\<lparr> cbc_essiv_ctx := aes_init_enc (sha256 (take key_len key)) 32 \<rparr>
         else ctx)"

definition make_cbc_iv :: "CBC_CTX \<Rightarrow> u64 \<Rightarrow> u8 list" where
  "make_cbc_iv ctx sector_num =
     (if cbc_mode ctx = CIPHER_CBC_PLAIN then
        map (\<lambda>i. ucast (drop_bit (8 * i) sector_num)) [0..<4] @ replicate 12 0
      else if cbc_mode ctx = CIPHER_CBC_PLAIN64 then sector_iv sector_num
      else if cbc_mode ctx = CIPHER_CBC_ESSIV then
        aes_encrypt_block (cbc_essiv_ctx ctx) (sector_iv sector_num)
      else replicate 16 0)"

function cbc_blocks :: "(u8 list \<Rightarrow> u8 list) \<Rightarrow> u8 list \<Rightarrow> u8 list \<Rightarrow> u8 list" where
  "cbc_blocks dec iv inp =
     (if 16 \<le> length inp then
        xor_bytes (dec (take 16 inp)) iv @ cbc_blocks dec (take 16 inp) (drop 16 inp)
      else [])"
  by pat_completeness auto
termination
  by (relation "measure (\<lambda>(_, _, d). length d)") auto

declare cbc_blocks.simps [simp del]

definition cbc_decrypt_sector :: "CBC_CTX \<Rightarrow> u64 \<Rightarrow> u8 list \<Rightarrow> u8 list" where
  "cbc_decrypt_sector ctx sector_num inp =
     cbc_blocks (aes_decrypt_block (cbc_dec_ctx ctx)) (make_cbc_iv ctx sector_num) inp"

text \<open>Reference CBC encryption.\<close>

function cbc_encrypt_blocks :: "(u8 list \<Rightarrow> u8 list) \<Rightarrow> u8 list \<Rightarrow> u8 list \<Rightarrow> u8 list" where
  "cbc_encrypt_blocks enc iv inp =
     (if 16 \<le> length inp then
        let c = enc (xor_bytes (take 16 inp) iv)
        in c @ cbc_encrypt_blocks enc c (drop 16 inp)
      else [])"
  by pat_completeness auto
termination
  by (relation "measure (\<lambda>(_, _, d). length d)") auto

declare cbc_encrypt_blocks.simps [simp del]

section \<open>The block cipher interface\<close>

lemma length_gf128_shift: "length (fst (gf128_shift c t)) = length t"
  by (induction c t rule: gf128_shift.induct) (auto simp: Let_def split: prod.splits)

lemma length_gf128_mul_x_le [simp]: "length (gf128_mul_x_le t) = length t"
  using length_gf128_shift[of 0 t] by (auto simp: gf128_mul_x_le_def Let_def split: prod.splits)

lemma length_sector_iv [simp]: "length (sector_iv n) = 16"
  by (simp add: sector_iv_def le64_bytes_def)

locale block_cipher =
  fixes enc dec :: "u8 list \<Rightarrow> u8 list"
  assumes length_enc: "length b = 16 \<Longrightarrow> length (enc b) = 16"
    and dec_enc: "length b = 16 \<Longrightarrow> dec (enc b) = b"
begin

lemma xts_inverse:
  assumes "length tweak = 16" and "length inp mod 16 = 0"
  shows "xts_blocks dec tweak (xts_blocks enc tweak inp) = inp"
  using assms
proof (induction "length inp" arbitrary: tweak inp rule: less_induct)
  case less
  show ?case
  proof (cases "16 \<le> length inp")
    case True
    let ?x = "xor_bytes (take 16 inp) tweak"
    let ?c = "xor_bytes (enc ?x) tweak"
    have x: "length ?x = 16" and c: "length ?c = 16"
      using True less.prems length_enc[of ?x] by simp_all
    have IH: "xts_blocks dec (gf128_mul_x_le tweak)
        (xts_blocks enc (gf128_mul_x_le tweak) (drop 16 inp)) = drop 16 inp"
      using less.hyps[of "drop 16 inp" "gf128_mul_x_le tweak"] less.prems True
      by (simp add: le_mod_geq)
    have "xor_bytes (dec (xor_bytes ?c tweak)) tweak = take 16 inp"
      using x length_enc[OF x] less.prems by (simp add: dec_enc[OF x])
    then show ?thesis
      using True c IH
      by (simp add: xts_blocks.simps[of enc tweak inp] xts_blocks.simps[of dec tweak])
  next
    case False
    then show ?thesis using less.prems by (simp add: xts_blocks.simps)
  qed
qed

lemma cbc_inverse:
  assumes "length iv = 16" and "length inp mod 16 = 0"
  shows "cbc_blocks dec iv (cbc_encrypt_blocks enc iv inp) = inp"
  using assms
proof (induction "length inp" arbitrary: iv inp rule: less_induct)
  case less
  show ?case
  proof (cases "16 \<le> length inp")
    case True
    let ?x = "xor_bytes (take 16 inp) iv"
    have x: "length ?x = 16" using True less.prems by simp
    have IH: "cbc_blocks dec (enc ?x) (cbc_encrypt_blocks enc (enc ?x) (drop 16 inp)) = drop 16 inp"
      using less.hyps[of "drop 16 inp" "enc ?x"] less.prems True length_enc[OF x]
      by (simp add: le_mod_geq)
    have "xor_bytes (dec (enc ?x)) iv = take 16 inp"
      using less.prems True by (simp add: dec_enc[OF x])
    then show ?thesis
      using True IH length_enc[OF x]
      by (simp add: cbc_encrypt_blocks.simps[of enc iv inp] cbc_blocks.simps[of dec iv] Let_def)
  next
    case False
    then show ?thesis
      using less.prems by (simp add: cbc_blocks.simps cbc_encrypt_blocks.simps)
  qed
qed

end

lemma length_aes_dec: "length b = 16 \<Longrightarrow> length (aes_decrypt_block ctx b) = 16"
proof -
  assume b: "length b = 16"
  have "length (fold (dec_round ctx) rs s) = 16" if "length s = 16" for rs s
    using that by (induction rs arbitrary: s) (simp_all add: dec_round_def Let_def)
  then show ?thesis using b by (simp add: aes_decrypt_block_def)
qed

interpretation aes_fwd: block_cipher
  "aes_encrypt_block (aes_init_enc key n)" "aes_decrypt_block (aes_init_enc key n)" for key n
  by unfold_locales (simp_all add: length_aes aes_dec_enc)

interpretation aes_bwd: block_cipher
  "aes_decrypt_block (aes_init_enc key n)" "aes_encrypt_block (aes_init_enc key n)" for key n
  by unfold_locales (simp_all add: length_aes_dec aes_enc_dec)

lemma xts_crypt_inverse:
  assumes "length inp mod 16 = 0"
  shows "xts_crypt (xts_init key n True) sec (xts_crypt (xts_init key n False) sec inp False) True = inp"
    "xts_crypt (xts_init key n False) sec (xts_crypt (xts_init key n True) sec inp True) False = inp"
  using assms
  by (simp_all add: xts_crypt_def xts_init_def aes_init_dec_def Let_def length_aes
      aes_fwd.xts_inverse aes_bwd.xts_inverse)

lemma length_cbc_iv: "length (make_cbc_iv ctx n) = 16"
  by (simp add: make_cbc_iv_def length_aes)

lemma cbc_crypt_inverse:
  assumes "length inp mod 16 = 0" and "ctx = cbc_init ctx0 key n mode eh"
  shows "cbc_decrypt_sector ctx sec
    (cbc_encrypt_blocks (aes_encrypt_block (cbc_enc_ctx ctx)) (make_cbc_iv ctx sec) inp) = inp"
proof -
  have "cbc_enc_ctx ctx = aes_init_enc key n" "cbc_dec_ctx ctx = aes_init_enc key n"
    by (simp_all add: assms(2) cbc_init_def aes_init_dec_def Let_def)
  then show ?thesis
    using assms(1) by (simp add: cbc_decrypt_sector_def aes_fwd.cbc_inverse length_cbc_iv)
qed

section \<open>Properties\<close>

text \<open>
  XTS: decrypting a sector that was encrypted under the same key and sector number
  gives the plaintext back, and encrypting a decrypted sector the ciphertext, for every
  key, sector number and whole number of blocks.
\<close>

theorem xts_sector_inverse:
  assumes "length inp mod 16 = 0"
  shows "xts_crypt (xts_init key n True) sec (xts_crypt (xts_init key n False) sec inp False) True = inp \<and>
    xts_crypt (xts_init key n False) sec (xts_crypt (xts_init key n True) sec inp True) False = inp"
  using xts_crypt_inverse[OF assms] by simp

theorem xts_sector_inverse_witness:
  "xts_crypt (xts_init (replicate 64 3) 64 True) 5
     (xts_crypt (xts_init (replicate 64 3) 64 False) 5 (replicate 512 9) False) True = replicate 512 9"
  using xts_sector_inverse[of "replicate 512 9" "replicate 64 3" 64 5] by simp

text \<open>
  CBC: \<^verbatim>\<open>cbc_decrypt_sector\<close> undoes CBC encryption under the same key and under the IV
  that the context derives for the sector, in every IV mode.
\<close>

theorem cbc_sector_decrypts:
  assumes "length inp mod 16 = 0" and "ctx = cbc_init ctx0 key n mode eh"
  shows "cbc_decrypt_sector ctx sec
    (cbc_encrypt_blocks (aes_encrypt_block (cbc_enc_ctx ctx)) (make_cbc_iv ctx sec) inp) = inp"
  by (rule cbc_crypt_inverse[OF assms])

theorem cbc_sector_decrypts_witness:
  "let ctx = cbc_init \<lparr> cbc_enc_ctx = aes_init_enc [] 16, cbc_dec_ctx = aes_init_enc [] 16,
       cbc_mode = 0, cbc_essiv_ctx = aes_init_enc [] 16 \<rparr>
       (replicate 32 1) 32 CIPHER_CBC_ESSIV (Some (replicate 32 0, 32))
   in cbc_decrypt_sector ctx 7 (cbc_encrypt_blocks (aes_encrypt_block (cbc_enc_ctx ctx))
        (make_cbc_iv ctx 7) (replicate 512 2)) = replicate 512 2"
  unfolding Let_def by (rule cbc_sector_decrypts[OF _ refl]) simp

end
