(* ===== verification/Luks1.thy ===== *)
theory Luks1
  imports Cipher Hmac_Pbkdf2 "HOL-Library.Monad_Syntax"
begin

text \<open>
  LUKS1 unlocking, \<^verbatim>\<open>src/luks/luks1.c\<close>.  The block device is a function
  \<open>read_fn lba count\<close> that gives the \<open>512 * count\<close> bytes read, or \<open>None\<close> when the read
  fails.  The static buffers of the file are the record \<open>luks1_static\<close>; they keep their
  contents from one key slot, and from one call, to the next.

  Results are nested options: \<open>None\<close> is an access outside a buffer, a division by zero
  or a computation that does not return; \<open>Some (st, None)\<close> is the return value \<open>-1\<close>;
  \<open>Some (st, Some k)\<close> is success with the key \<open>k\<close>.
\<close>

section \<open>Byte order and strings\<close>

definition be16r :: "u8 list \<Rightarrow> u16" where
  "be16r p = push_bit 8 (ucast (p ! 0)) OR ucast (p ! 1)"

definition be32r :: "u8 list \<Rightarrow> u32" where
  "be32r p = push_bit 24 (ucast (p ! 0)) OR push_bit 16 (ucast (p ! 1))
     OR push_bit 8 (ucast (p ! 2)) OR ucast (p ! 3)"

definition chars_at :: "u8 list \<Rightarrow> nat \<Rightarrow> string" where
  "chars_at p off = map (\<lambda>b. char_of (unat b)) (drop off p)"

definition luks1_probe :: "u8 list \<Rightarrow> bool" where
  "luks1_probe buf \<longleftrightarrow> buf ! 0 = 0x4C \<and> buf ! 1 = 0x55 \<and> buf ! 2 = 0x4B \<and> buf ! 3 = 0x53 \<and>
     buf ! 4 = 0xba \<and> buf ! 5 = 0xbe"

section \<open>Anti-forensic merge\<close>

definition af_xor :: "u8 list \<Rightarrow> u8 list \<Rightarrow> nat \<Rightarrow> u8 list" where
  "af_xor dst src n = xor_bytes (take n dst) (take n src) @ drop n dst"

definition af_hash_sector :: "int \<Rightarrow> u32 \<Rightarrow> nat \<Rightarrow> u8 list \<Rightarrow> u8 list" where
  "af_hash_sector hid sector key_bytes data =
     hash_compute hid (take key_bytes data @ u32_to_be sector)"

text \<open>One stripe; the hash overwrites the first bytes of \<^verbatim>\<open>d\<close>.\<close>

definition af_stripe :: "int \<Rightarrow> u8 list \<Rightarrow> u32 \<Rightarrow> nat \<Rightarrow> u8 list \<Rightarrow> u8 list option" where
  "af_stripe hid split key_bytes s d =
     (let off = unat (of_nat s * key_bytes); kb = unat key_bytes
      in if off + kb \<le> length split then
           let d = af_xor d (drop off split) kb
           in Some (write_at d 0 (af_hash_sector hid (of_nat s) kb d))
         else None)"

definition af_merge :: "int \<Rightarrow> u8 list \<Rightarrow> u32 \<Rightarrow> u32 \<Rightarrow> u8 list option" where
  "af_merge hid split stripes key_bytes = do {
     d \<leftarrow> fold_opt (af_stripe hid split key_bytes) [0..<unat (stripes - 1)] (replicate 64 0);
     let off = unat ((stripes - 1) * key_bytes);
     if off + unat key_bytes \<le> length split
     then Some (take (unat key_bytes) (af_xor d (drop off split) (unat key_bytes)))
     else None }"

section \<open>Key material\<close>

text \<open>
  Key lengths for which the key schedule neither divides by zero nor reads outside
  \<^verbatim>\<open>RCON[11]\<close>.
\<close>

definition aes_key_ok :: "nat \<Rightarrow> bool" where
  "aes_key_ok n \<longleftrightarrow> n div 4 = 4 \<or> 6 \<le> n div 4"

text \<open>\<^verbatim>\<open>xts_init\<close> on a buffer: both halves of the key have to lie in it.\<close>

definition xts_init_at :: "u8 list \<Rightarrow> nat \<Rightarrow> XTS_CTX option" where
  "xts_init_at buf key_len =
     (if key_len \<le> length buf \<and> aes_key_ok (key_len div 2) then Some (xts_init buf key_len True) else None)"

definition align16 :: "nat \<Rightarrow> nat" where
  "align16 n = (n + 15) div 16 * 16"

text \<open>The loop over 512-byte chunks in XTS mode, on the bytes from offset \<open>512 * sec\<close>.\<close>

function xts_chunks :: "XTS_CTX \<Rightarrow> u64 \<Rightarrow> u8 list \<Rightarrow> u8 list" where
  "xts_chunks ctx sec enc =
     (if enc = [] then []
      else
        let chunk = min 512 (length enc);
            tmp = take chunk enc @ replicate (512 - chunk) 0
        in take chunk (xts_crypt ctx sec (take (align16 chunk) tmp) True)
             @ xts_chunks ctx (sec + 1) (drop chunk enc))"
  by pat_completeness auto
termination
  by (relation "measure (\<lambda>(_, _, e). length e)") auto

declare xts_chunks.simps [simp del]

text \<open>In CBC mode a last part of less than 16 bytes keeps the old contents of the output.\<close>

function cbc_chunks :: "CBC_CTX \<Rightarrow> u64 \<Rightarrow> u8 list \<Rightarrow> u8 list \<Rightarrow> u8 list" where
  "cbc_chunks ctx sec enc old =
     (if enc = [] then []
      else
        let chunk = min 512 (length enc);
            out = cbc_decrypt_sector ctx sec (take chunk enc)
        in out @ take (chunk - length out) (drop (length out) old)
             @ cbc_chunks ctx (sec + 1) (drop chunk enc) (drop chunk old))"
  by pat_completeness auto
termination
  by (relation "measure (\<lambda>(_, _, e, _). length e)") auto

declare cbc_chunks.simps [simp del]

text \<open>
  \<open>stack\<close> is the uninitialised \<^verbatim>\<open>CBC_CTX\<close> on the stack: with a null ESSIV hash \<^verbatim>\<open>cbc_init\<close>
  leaves its ESSIV part as it is.
\<close>

definition decrypt_key_material ::
    "CBC_CTX \<Rightarrow> string \<Rightarrow> u8 list \<Rightarrow> u32 \<Rightarrow> u8 list \<Rightarrow> u8 list \<Rightarrow> nat \<Rightarrow> u8 list option" where
  "decrypt_key_material stack cipher_mode slot_key key_bytes enc decb total_len =
     (let mode = cipher_mode_id cipher_mode
      in if total_len > length enc \<or> total_len > length decb then None
         else if mode = CIPHER_XTS then do {
           ctx \<leftarrow> xts_init_at slot_key (unat (key_bytes * 2));
           Some (xts_chunks ctx 0 (take total_len enc) @ drop total_len decb) }
         else if unat key_bytes \<le> length slot_key \<and> aes_key_ok (unat key_bytes) then
           let ctx = cbc_init stack slot_key (unat key_bytes) mode None
           in Some (cbc_chunks ctx 0 (take total_len enc) (take total_len decb) @ drop total_len decb)
         else None)"

section \<open>Unlocking\<close>

definition KM_READ_SECTORS :: u32 where "KM_READ_SECTORS = 256"
definition LUKS1_KEY_ENABLED :: u32 where "LUKS1_KEY_ENABLED = 0x00AC71F3"

record luks1_static =
  s_km_enc :: "u8 list"
  s_km_dec :: "u8 list"
  s_slot_key :: "u8 list"

record luks_key =
  lk_key :: "u8 list"
  lk_key_bytes :: u32
  lk_payload_offset :: u64
  lk_cipher_mode :: int

type_synonym read_fn = "u64 \<Rightarrow> nat \<Rightarrow> u8 list option"

text \<open>Fields of \<^verbatim>\<open>Luks1Header\<close> and \<^verbatim>\<open>Luks1KeySlot\<close> (both packed), by their byte offsets.\<close>

definition h1_cipher_mode :: "u8 list \<Rightarrow> string" where "h1_cipher_mode h = chars_at h 40"
definition h1_hash_spec :: "u8 list \<Rightarrow> string" where "h1_hash_spec h = chars_at h 72"
definition h1_payload_offset :: "u8 list \<Rightarrow> u32" where "h1_payload_offset h = be32r (drop 104 h)"
definition h1_key_bytes :: "u8 list \<Rightarrow> u32" where "h1_key_bytes h = be32r (drop 108 h)"
definition h1_mk_digest :: "u8 list \<Rightarrow> u8 list" where "h1_mk_digest h = slice h 112 20"
definition h1_mk_digest_salt :: "u8 list \<Rightarrow> u8 list" where "h1_mk_digest_salt h = slice h 132 32"
definition h1_mk_digest_iter :: "u8 list \<Rightarrow> u32" where "h1_mk_digest_iter h = be32r (drop 164 h)"
definition ks_active :: "u8 list \<Rightarrow> nat \<Rightarrow> u32" where "ks_active h i = be32r (drop (208 + 48 * i) h)"
definition ks_iterations :: "u8 list \<Rightarrow> nat \<Rightarrow> u32" where "ks_iterations h i = be32r (drop (208 + 48 * i + 4) h)"
definition ks_salt :: "u8 list \<Rightarrow> nat \<Rightarrow> u8 list" where "ks_salt h i = slice h (208 + 48 * i + 8) 32"
definition ks_km_offset :: "u8 list \<Rightarrow> nat \<Rightarrow> u32" where "ks_km_offset h i = be32r (drop (208 + 48 * i + 40) h)"
definition ks_stripes :: "u8 list \<Rightarrow> nat \<Rightarrow> u32" where "ks_stripes h i = be32r (drop (208 + 48 * i + 44) h)"

text \<open>The hash identifier used: an unknown name falls back to SHA-1.\<close>

definition h1_hid :: "u8 list \<Rightarrow> int" where
  "h1_hid h = (let hid = hash_id (h1_hash_spec h) in if hid < 0 then HASH_SHA1 else hid)"

text \<open>One pass of the loop over the key slots: \<open>Some (st, None)\<close> is \<^verbatim>\<open>continue\<close>.\<close>

definition luks1_try_slot ::
    "read_fn \<Rightarrow> CBC_CTX \<Rightarrow> u8 list \<Rightarrow> u8 list \<Rightarrow> nat \<Rightarrow> luks1_static \<Rightarrow> (luks1_static \<times> luks_key option) option" where
  "luks1_try_slot read_fn stack h pass slot st =
     (let key_bytes = h1_key_bytes h; hid = h1_hid h
      in if ks_active h slot \<noteq> LUKS1_KEY_ENABLED then Some (st, None)
      else do {
        let stripes = ks_stripes h slot;
        let km_len = key_bytes * stripes;
        sk \<leftarrow> pbkdf2 hid pass (ks_salt h slot) (ks_iterations h slot) key_bytes;
        let st = st\<lparr> s_slot_key := write_at (s_slot_key st) 0 sk \<rparr>;
        let km_sectors = (km_len + 511) div 512;
        if km_sectors > KM_READ_SECTORS then Some (st, None)
        else case read_fn (ucast (ks_km_offset h slot)) (unat km_sectors) of
          None \<Rightarrow> Some (st, None)
        | Some km \<Rightarrow> do {
            let st = st\<lparr> s_km_enc := write_at (s_km_enc st) 0 km \<rparr>;
            decb \<leftarrow> decrypt_key_material stack (h1_cipher_mode h) (s_slot_key st) key_bytes
                     (s_km_enc st) (s_km_dec st) (unat km_len);
            let st = st\<lparr> s_km_dec := decb \<rparr>;
            candidate_mk \<leftarrow> af_merge hid (s_km_dec st) stripes key_bytes;
            digest \<leftarrow> pbkdf2 hid candidate_mk (h1_mk_digest_salt h) (h1_mk_digest_iter h) 20;
            Some (st, if digest \<noteq> h1_mk_digest h then None
                      else Some \<lparr> lk_key = candidate_mk, lk_key_bytes = key_bytes,
                             lk_payload_offset = ucast (h1_payload_offset h),
                             lk_cipher_mode = cipher_mode_id (h1_cipher_mode h) \<rparr>) } })"

fun luks1_slots ::
    "read_fn \<Rightarrow> CBC_CTX \<Rightarrow> u8 list \<Rightarrow> u8 list \<Rightarrow> nat list \<Rightarrow> luks1_static \<Rightarrow> (luks1_static \<times> luks_key option) option" where
  "luks1_slots read_fn stack h pass [] st = Some (st, None)"
| "luks1_slots read_fn stack h pass (slot # slots) st =
     (case luks1_try_slot read_fn stack h pass slot st of
        None \<Rightarrow> None
      | Some (st, Some k) \<Rightarrow> Some (st, Some k)
      | Some (st, None) \<Rightarrow> luks1_slots read_fn stack h pass slots st)"

definition luks1_unlock ::
    "read_fn \<Rightarrow> CBC_CTX \<Rightarrow> u8 list \<Rightarrow> luks1_static \<Rightarrow> (luks1_static \<times> luks_key option) option" where
  "luks1_unlock read_fn stack pass st =
     (case read_fn 0 4 of
        None \<Rightarrow> Some (st, None)
      | Some h \<Rightarrow>
          if \<not> luks1_probe h then Some (st, None)
          else if be16r (drop 6 h) \<noteq> 1 then Some (st, None)
          else if h1_key_bytes h > 64 then Some (st, None)
          else luks1_slots read_fn stack h pass [0..<8] st)"

section \<open>No faults on a regular header\<close>

definition static_ok :: "luks1_static \<Rightarrow> bool" where
  "static_ok st \<longleftrightarrow> length (s_km_enc st) = 131072 \<and> length (s_km_dec st) = 131072 \<and>
     length (s_slot_key st) = 64"

definition dev_ok :: "read_fn \<Rightarrow> bool" where
  "dev_ok read_fn \<longleftrightarrow> (\<forall>lba n d. read_fn lba n = Some d \<longrightarrow> length d = 512 * n)"

text \<open>
  Headers within the limits of the code: a key schedule that exists, key material that fits
  the scratch buffers, and at least one stripe in every enabled slot.
\<close>

definition slot_regular :: "u8 list \<Rightarrow> nat \<Rightarrow> bool" where
  "slot_regular h i \<longleftrightarrow> 0 < unat (ks_stripes h i) \<and>
     unat (h1_key_bytes h) * unat (ks_stripes h i) \<le> 131072"

definition header_regular :: "u8 list \<Rightarrow> bool" where
  "header_regular h \<longleftrightarrow> aes_key_ok (unat (h1_key_bytes h)) \<and>
     (if cipher_mode_id (h1_cipher_mode h) = CIPHER_XTS then unat (h1_key_bytes h) \<le> 32
      else unat (h1_key_bytes h) \<le> 64) \<and>
     (\<forall>i<8. ks_active h i = LUKS1_KEY_ENABLED \<longrightarrow> slot_regular h i)"

lemma h1_hid_known: "known_hash (h1_hid h)"
  by (simp add: h1_hid_def hash_id_def known_hash_def hash_ids Let_def)

lemma length_slice_le: "length (slice b off n) \<le> n"
  by (simp add: slice_def)

lemma length_af_xor [simp]: "length (af_xor d s n) = length d" if "n \<le> length d" "n \<le> length s"
  using that by (simp add: af_xor_def)

lemma af_merge_ok:
  assumes "known_hash hid" and "0 < unat stripes" and "unat key_bytes \<le> 64"
    and "unat key_bytes * unat stripes \<le> length split" and "length split \<le> 131072"
  shows "\<exists>mk. af_merge hid split stripes key_bytes = Some mk \<and> length mk = unat key_bytes"
proof -
  let ?kb = "unat key_bytes" and ?n = "unat (stripes - 1)"
  have "stripes \<noteq> 0" using assms(2) by auto
  then have n: "?n = unat stripes - 1" by (simp add: unat_minus_one)
  have off: "s * ?kb + ?kb \<le> length split" if "s \<le> ?n" for s
  proof -
    have "s * ?kb + ?kb = (s + 1) * ?kb" by simp
    also have "\<dots> \<le> unat stripes * ?kb" using that n assms(2) by (intro mult_le_mono1) simp
    finally show ?thesis using assms(4) by (simp add: mult.commute)
  qed
  have small: "s * ?kb < 2 ^ 32" if "s \<le> ?n" for s
    using off[OF that] assms(5) by simp
  have u: "unat (of_nat s * key_bytes) = s * ?kb" if "s \<le> ?n" for s
    using small[OF that] that unat_u32_less[of "stripes - 1"]
    by (simp add: unat_word_ariths unat_of_nat)
  have step: "\<exists>d'. af_stripe hid split key_bytes s d = Some d' \<and> length d' = 64"
    if "s < ?n" "length d = 64" for s d
  proof -
    have "length (af_hash_sector hid (of_nat s) ?kb d0) \<le> 64" if "length d0 = 64" for d0
      using that assms(3) length_hash_compute[of "take ?kb d0 @ u32_to_be (of_nat s)" hid] digest_le[of hid]
      by (simp add: af_hash_sector_def)
    then show ?thesis
      using that off[of s] u[of s] assms(3)
      by (simp add: af_stripe_def Let_def length_write_at)
  qed
  obtain d where d: "fold_opt (af_stripe hid split key_bytes) [0..<?n] (replicate 64 0) = Some d" "length d = 64"
    using fold_opt_inv[where I = "\<lambda>d. length d = 64" and xs = "[0..<?n]"
        and f = "af_stripe hid split key_bytes" and s = "replicate 64 0"] step by auto
  have "unat ((stripes - 1) * key_bytes) = ?n * ?kb"
    using u[of ?n] by simp
  then show ?thesis
    using d off[of ?n] assms(3) by (simp add: af_merge_def)
qed

lemma length_xts_blocks:
  assumes "\<And>b. length b = 16 \<Longrightarrow> length (f b) = 16" and "length tweak = 16" and "length inp mod 16 = 0"
  shows "length (xts_blocks f tweak inp) = length inp"
  using assms(2,3)
proof (induction "length inp" arbitrary: tweak inp rule: less_induct)
  case less
  show ?case
  proof (cases "16 \<le> length inp")
    case True
    have "length (f (xor_bytes (take 16 inp) tweak)) = 16"
      by (rule assms(1)) (use True less.prems in simp)
    then show ?thesis
      using less.hyps[of "drop 16 inp" "gf128_mul_x_le tweak"] less.prems True
      by (subst xts_blocks.simps) (simp add: le_mod_geq)
  next
    case False
    then show ?thesis using less.prems by (simp add: xts_blocks.simps)
  qed
qed

lemma length_xts_crypt: "length inp mod 16 = 0 \<Longrightarrow> length (xts_crypt ctx s inp dc) = length inp"
  by (auto simp: xts_crypt_def Let_def intro!: length_xts_blocks length_aes length_aes_dec)

lemma align16_bounds: "n \<le> 512 \<Longrightarrow> n \<le> align16 n \<and> align16 n \<le> 512 \<and> align16 n mod 16 = 0"
  unfolding align16_def by (auto intro: order_trans[OF _ mult_le_mono1])

lemma length_xts_chunks: "length (xts_chunks ctx sec e) = length e"
proof (induction ctx sec e rule: xts_chunks.induct)
  case (1 ctx sec e)
  show ?case
  proof (cases "e = []")
    case False
    define c where "c = min 512 (length e)"
    have c: "c \<le> 512" "c \<le> length e" by (simp_all add: c_def)
    note a = align16_bounds[OF c(1)]
    have "length (take c e @ replicate (512 - c) 0) = 512" using c by simp
    then have "length (take (align16 c) (take c e @ replicate (512 - c) 0)) = align16 c"
      using a by (simp only: length_take min_absorb2)
    then have "length (xts_crypt ctx sec (take (align16 c) (take c e @ replicate (512 - c) 0)) True) = align16 c"
      using a by (simp only: length_xts_crypt)
    then show ?thesis
      using 1(1)[OF False refl refl] False a c
      by (subst xts_chunks.simps) (simp add: c_def[symmetric])
  qed (simp add: xts_chunks.simps)
qed

lemma length_cbc_blocks: "length (cbc_blocks dec iv inp) \<le> length inp"
  if "\<And>b. length b = 16 \<Longrightarrow> length (dec b) = 16" "length iv = 16"
  using that(2)
proof (induction "length inp" arbitrary: iv inp rule: less_induct)
  case less
  show ?case
  proof (cases "16 \<le> length inp")
    case True
    then have "length (cbc_blocks dec (take 16 inp) (drop 16 inp)) \<le> length inp - 16"
      using less.hyps[of "drop 16 inp" "take 16 inp"] by simp
    then have "16 + length (cbc_blocks dec (take 16 inp) (drop 16 inp)) \<le> length inp"
      using True by linarith
    then show ?thesis
      using less.prems that(1)[of "take 16 inp"] True by (subst cbc_blocks.simps) simp
  qed (simp add: cbc_blocks.simps)
qed

lemma length_cbc_chunks: "length e \<le> length old \<Longrightarrow> length (cbc_chunks ctx sec e old) = length e"
proof (induction ctx sec e old rule: cbc_chunks.induct)
  case (1 ctx sec e old)
  show ?case
  proof (cases "e = []")
    case False
    define c where "c = min 512 (length e)"
    have c: "c \<le> length e" by (simp add: c_def)
    have "length (cbc_decrypt_sector ctx sec (take c e)) \<le> c"
      using length_cbc_blocks[of "aes_decrypt_block (cbc_dec_ctx ctx)" "make_cbc_iv ctx sec" "take c e"] c
      by (simp add: cbc_decrypt_sector_def length_aes_dec length_cbc_iv)
    then show ?thesis
      using 1(1)[OF False refl refl] 1(2) False c
      by (subst cbc_chunks.simps) (simp add: c_def[symmetric] Let_def)
  qed (simp add: cbc_chunks.simps)
qed

lemma decrypt_key_material_ok:
  assumes "length sk = 64" and "length enc = 131072" and "length decb = 131072" and "n \<le> 131072"
    and "aes_key_ok (unat kb)"
    and "if cipher_mode_id m = CIPHER_XTS then unat kb \<le> 32 else unat kb \<le> 64"
  shows "\<exists>d. decrypt_key_material stack m sk kb enc decb n = Some d \<and> length d = 131072"
proof (cases "cipher_mode_id m = CIPHER_XTS")
  case True
  then have "unat (kb * 2) = unat kb * 2" using assms(6) by (simp add: unat_word_ariths)
  then show ?thesis
    using True assms by (simp add: decrypt_key_material_def xts_init_at_def length_xts_chunks)
next
  case False
  then show ?thesis
    using assms by (simp add: decrypt_key_material_def length_cbc_chunks Let_def)
qed

lemma luks1_try_slot_ok:
  assumes "static_ok st" and "dev_ok read_fn" and "header_regular h" and "slot < 8"
    and "length pass < 2 ^ 32"
  shows "\<exists>st' k. luks1_try_slot read_fn stack h pass slot st = Some (st', k) \<and> static_ok st'"
proof (cases "ks_active h slot = LUKS1_KEY_ENABLED")
  case True
  let ?kb = "h1_key_bytes h" and ?s = "ks_stripes h slot" and ?hid = "h1_hid h"
  have reg: "0 < unat ?s" "unat ?kb * unat ?s \<le> 131072"
    using assms(3,4) True by (simp_all add: header_regular_def slot_regular_def)
  have kb: "unat ?kb \<le> 64" "aes_key_ok (unat ?kb)"
    using assms(3) by (simp_all add: header_regular_def split: if_splits)
  have km: "unat (?kb * ?s) = unat ?kb * unat ?s" using reg(2) by (simp add: unat_word_ariths)
  have salt: "length (slice h a 32) \<le> 508" for a using length_slice_le[of h a 32] by simp
  obtain sk where sk: "pbkdf2 ?hid pass (ks_salt h slot) (ks_iterations h slot) ?kb = Some sk"
      "length sk = unat ?kb"
    using pbkdf2_returns[OF h1_hid_known assms(5) salt] unfolding ks_salt_def by blast
  let ?st1 = "st\<lparr> s_slot_key := write_at (s_slot_key st) 0 sk \<rparr>"
  have st1: "static_ok ?st1"
    using assms(1) sk(2) kb(1) by (simp add: static_ok_def length_write_at)
  let ?secs = "(?kb * ?s + 511) div 512"
  have secs: "unat ?secs \<le> 256"
    using km reg(2) by (simp add: unat_div_distrib unat_word_ariths)
  show ?thesis
  proof (cases "read_fn (ucast (ks_km_offset h slot)) (unat ?secs)")
    case None
    then show ?thesis using True sk(1) st1 by (simp add: luks1_try_slot_def Let_def)
  next
    case (Some d)
    let ?st2 = "?st1\<lparr> s_km_enc := write_at (s_km_enc ?st1) 0 d \<rparr>"
    have "length d \<le> 131072" using assms(2) Some secs by (simp add: dev_ok_def)
    then have st2: "static_ok ?st2" using st1 by (simp add: static_ok_def length_write_at)
    obtain dk where dk: "decrypt_key_material stack (h1_cipher_mode h) (s_slot_key ?st2) ?kb (s_km_enc ?st2)
        (s_km_dec ?st2) (unat (?kb * ?s)) = Some dk" "length dk = 131072"
      using decrypt_key_material_ok[of "s_slot_key ?st2" "s_km_enc ?st2" "s_km_dec ?st2" "unat (?kb * ?s)" ?kb
          "h1_cipher_mode h" stack] st2 km reg(2) kb(2) assms(3)
      by (auto simp: static_ok_def header_regular_def)
    obtain mk where mk: "af_merge ?hid dk ?s ?kb = Some mk" "length mk = unat ?kb"
      using af_merge_ok[OF h1_hid_known[of h] reg(1) kb(1), of dk] reg(2) dk(2) by auto
    obtain dg where dg: "pbkdf2 ?hid mk (h1_mk_digest_salt h) (h1_mk_digest_iter h) 20 = Some dg"
      using pbkdf2_returns[OF h1_hid_known _ salt, of mk] mk(2) kb(1) unfolding h1_mk_digest_salt_def by fastforce
    have "static_ok (?st2\<lparr> s_km_dec := dk \<rparr>)" using st2 dk(2) by (simp add: static_ok_def)
    then show ?thesis
      using True sk(1) Some dk(1) mk(1) dg st1 by (simp add: luks1_try_slot_def Let_def)
  qed
next
  case False
  then show ?thesis using assms(1) by (simp add: luks1_try_slot_def)
qed

lemma luks1_slots_ok:
  assumes "dev_ok read_fn" and "header_regular h" and "length pass < 2 ^ 32"
    and "static_ok st" and "\<forall>s\<in>set slots. s < 8"
  shows "\<exists>st' k. luks1_slots read_fn stack h pass slots st = Some (st', k) \<and> static_ok st'"
  using assms(4,5)
proof (induction slots arbitrary: st)
  case (Cons s slots)
  obtain st' k where "luks1_try_slot read_fn stack h pass s st = Some (st', k)" "static_ok st'"
    using luks1_try_slot_ok[OF Cons.prems(1) assms(1,2) _ assms(3), of s stack] Cons.prems(2) by auto
  then show ?case using Cons by (cases k) auto
qed simp

section \<open>Only verified keys are returned\<close>

definition key_verified :: "u8 list \<Rightarrow> luks_key \<Rightarrow> bool" where
  "key_verified h k \<longleftrightarrow>
     pbkdf2 (h1_hid h) (lk_key k) (h1_mk_digest_salt h) (h1_mk_digest_iter h) 20 = Some (h1_mk_digest h) \<and>
     lk_key_bytes k = h1_key_bytes h \<and> lk_payload_offset k = ucast (h1_payload_offset h) \<and>
     lk_cipher_mode k = cipher_mode_id (h1_cipher_mode h)"

lemma luks1_try_slot_verified:
  "luks1_try_slot read_fn stack h pass slot st = Some (st', Some k) \<Longrightarrow> key_verified h k"
  by (auto simp: luks1_try_slot_def Let_def key_verified_def bind_eq_Some_conv
      split: if_splits option.splits)

lemma luks1_slots_verified:
  "luks1_slots read_fn stack h pass slots st = Some (st', Some k) \<Longrightarrow> key_verified h k"
proof (induction slots arbitrary: st)
  case (Cons s slots)
  then show ?case
    by (auto split: option.splits dest: luks1_try_slot_verified)
qed simp

section \<open>A sample header\<close>

text \<open>
  A header of 2048 bytes with one enabled slot; the digest is a parameter.  The hash and
  cipher names are empty, which the code reads as SHA-1 and XTS.
\<close>

definition sample_pre :: "u8 \<Rightarrow> u8 list" where
  "sample_pre kb = [0x4C, 0x55, 0x4B, 0x53, 0xba, 0xbe, 0, 1] @ replicate 96 0 @ [0, 0, 16, 0, 0, 0, 0, kb]"

definition sample_mid :: "u8 \<Rightarrow> u8 \<Rightarrow> u8 list" where
  "sample_mid s1 s0 = replicate 32 0 @ [0, 0, 0, 1] @ replicate 40 0 @
     [0, 0xAC, 0x71, 0xF3, 0, 0, 0, 1] @ replicate 32 0 @ [0, 0, 0, 8, 0, 0, s1, s0]"

definition sample_post :: "u8 \<Rightarrow> u8 \<Rightarrow> u8 list" where
  "sample_post s1 s0 = sample_mid s1 s0 @ replicate 1792 0"

definition sample_header :: "u8 \<Rightarrow> u8 \<Rightarrow> u8 \<Rightarrow> u8 list \<Rightarrow> u8 list" where
  "sample_header kb s1 s0 dg = sample_pre kb @ dg @ sample_post s1 s0"

definition sample_dev :: "u8 \<Rightarrow> u8 \<Rightarrow> u8 \<Rightarrow> u8 list \<Rightarrow> read_fn" where
  "sample_dev kb s1 s0 dg lba n =
     (if lba = 0 \<and> n = 4 then Some (sample_header kb s1 s0 dg) else Some (replicate (512 * n) 0))"

definition sample_stack :: CBC_CTX where
  "sample_stack = \<lparr> cbc_enc_ctx = \<lparr> aes_rk = [], aes_nr = 10 \<rparr>, cbc_dec_ctx = \<lparr> aes_rk = [], aes_nr = 10 \<rparr>,
     cbc_mode = 0, cbc_essiv_ctx = \<lparr> aes_rk = [], aes_nr = 10 \<rparr> \<rparr>"

definition sample_static :: luks1_static where
  "sample_static = \<lparr> s_km_enc = replicate 131072 0, s_km_dec = replicate 131072 0, s_slot_key = replicate 64 0 \<rparr>"

lemma sample_lengths: "length (sample_pre kb) = 112" "length (sample_mid s1 s0) = 124"
  "length (sample_post s1 s0) = 1916"
  by (simp_all add: sample_pre_def sample_post_def sample_mid_def)

lemma sample_prefix:
  assumes "length dg = 20"
  shows "luks1_probe (sample_header kb s1 s0 dg)" "be16r (drop 6 (sample_header kb s1 s0 dg)) = 1"
    "h1_key_bytes (sample_header kb s1 s0 dg) = ucast kb"
  using assms
  by (simp_all add: luks1_probe_def sample_header_def sample_pre_def be16r_def h1_key_bytes_def be32r_def)

lemma sample_drop:
  assumes "length dg = 20" and "132 \<le> n"
  shows "drop n (sample_header kb s1 s0 dg) = drop (n - 132) (sample_post s1 s0)"
  using assms by (simp add: sample_header_def sample_lengths)

lemma sample_zeros:
  assumes "124 \<le> n" "n + 4 \<le> 1916"
  shows "be32r (drop n (sample_post s1 s0)) = 0"
proof -
  have "drop n (sample_post s1 s0) = replicate (1916 - n) 0"
    using assms(1) by (simp add: sample_post_def sample_lengths)
  then show ?thesis using assms(2) by (simp add: be32r_def)
qed

lemma sample_fields:
  assumes "length dg = 20"
  shows "h1_mk_digest (sample_header kb s1 s0 dg) = dg"
    "ks_active (sample_header kb s1 s0 dg) 0 = LUKS1_KEY_ENABLED"
    "ks_stripes (sample_header kb s1 s0 dg) 0 = push_bit 8 (ucast s1) OR ucast s0"
    "\<And>i. 0 < i \<Longrightarrow> i < 8 \<Longrightarrow> ks_active (sample_header kb s1 s0 dg) i = 0"
    "ks_salt (sample_header kb s1 s0 dg) 0 = replicate 32 0"
    "h1_mk_digest_salt (sample_header kb s1 s0 dg) = replicate 32 0"
    "ks_iterations (sample_header kb s1 s0 dg) 0 = 1"
    "h1_mk_digest_iter (sample_header kb s1 s0 dg) = 1"
proof -
  note d = sample_drop[OF assms]
  show "h1_mk_digest (sample_header kb s1 s0 dg) = dg"
    using assms by (simp add: h1_mk_digest_def slice_def sample_header_def sample_lengths)
  show "ks_active (sample_header kb s1 s0 dg) i = 0" if "0 < i" "i < 8" for i
    using that by (simp add: ks_active_def d sample_zeros)
qed (simp_all add: ks_active_def ks_stripes_def ks_salt_def ks_iterations_def h1_mk_digest_salt_def
    h1_mk_digest_iter_def slice_def sample_drop[OF assms] sample_post_def sample_mid_def be32r_def LUKS1_KEY_ENABLED_def)

lemma chars_at_NUL:
  assumes "n < length h" and "h ! n = 0"
  shows "\<exists>r. chars_at h n = NUL # r"
proof -
  have "drop n h = 0 # drop (Suc n) h" using Cons_nth_drop_Suc[OF assms(1)] assms(2) by simp
  moreover have "char_of (0 :: nat) = NUL" by code_simp
  ultimately show ?thesis by (simp add: chars_at_def)
qed

lemma sample_strings:
  assumes "length dg = 20"
  shows "h1_hid (sample_header kb s1 s0 dg) = HASH_SHA1"
    "cipher_mode_id (h1_cipher_mode (sample_header kb s1 s0 dg)) = CIPHER_XTS"
proof -
  let ?h = "sample_header kb s1 s0 dg"
  have z: "n < length ?h \<and> ?h ! n = 0" if "8 \<le> n" "n < 104" for n
    using that assms by (auto simp: sample_header_def sample_pre_def sample_lengths nth_append nth_Cons')
  obtain r where "h1_hash_spec ?h = NUL # r" using chars_at_NUL[of 72 ?h] z[of 72] by (auto simp: h1_hash_spec_def)
  then show "h1_hid ?h = HASH_SHA1" by (simp add: h1_hid_def hash_id_def)
  obtain r where "h1_cipher_mode ?h = NUL # r" using chars_at_NUL[of 40 ?h] z[of 40] by (auto simp: h1_cipher_mode_def)
  then show "cipher_mode_id (h1_cipher_mode ?h) = CIPHER_XTS" by (simp add: cipher_mode_id_def)
qed

lemma sample_dev_ok: "length dg = 20 \<Longrightarrow> dev_ok (sample_dev kb s1 s0 dg)"
  by (auto simp: dev_ok_def sample_dev_def sample_header_def sample_lengths)

lemma sample_static_ok: "static_ok sample_static"
  by (simp add: static_ok_def sample_static_def)

lemma sample_regular: "length dg = 20 \<Longrightarrow> header_regular (sample_header 16 0 1 dg)"
proof -
  assume dg: "length dg = 20"
  have "slot_regular (sample_header 16 0 1 dg) 0"
    by (simp add: slot_regular_def sample_fields[OF dg] sample_prefix[OF dg])
  moreover have "ks_active (sample_header 16 0 1 dg) i \<noteq> LUKS1_KEY_ENABLED" if "0 < i" "i < 8" for i
    using sample_fields(4)[OF dg that] by (simp add: LUKS1_KEY_ENABLED_def)
  ultimately show ?thesis
    by (auto simp: header_regular_def sample_strings[OF dg] sample_prefix[OF dg] aes_key_ok_def)
      (metis gr0I)
qed

section \<open>Properties\<close>

text \<open>
  C5. Soundness of LUKS1 unlocking: a key is returned only for a device with a LUKS1
  header of version 1, and only if the PBKDF2 digest of that key under the header's digest
  salt and iteration count equals the digest in the header.
\<close>

theorem luks1_unlock_sound:
  assumes "luks1_unlock read_fn stack pass st = Some (st', Some k)"
  shows "\<exists>h. read_fn 0 4 = Some h \<and> luks1_probe h \<and> be16r (drop 6 h) = 1 \<and> h1_key_bytes h \<le> 64 \<and>
    key_verified h k"
  using assms luks1_slots_verified
  by (auto simp: luks1_unlock_def split: option.splits if_splits)

lemma sample_unlocks:
  "\<exists>dg st' k. length dg = 20 \<and> luks1_unlock (sample_dev 16 0 1 dg) stack [] sample_static = Some (st', Some k)"
proof -
  let ?H = "sample_header 16 0 1" and ?D = "replicate 20 0 :: u8 list"
  have D: "length ?D = 20" by simp
  have salt: "length (replicate 32 (0 :: u8)) \<le> 508" by simp
  have known: "known_hash HASH_SHA1" by (simp add: known_hash_def)
  obtain sk where sk: "pbkdf2 HASH_SHA1 [] (replicate 32 0) 1 16 = Some sk" "length sk = 16"
    using pbkdf2_returns[OF known _ salt, of "[]" 1 16] by auto
  let ?slot = "write_at (replicate 64 0) 0 sk" and ?enc = "write_at (replicate 131072 0) 0 (replicate 512 0)"
  obtain dk where dk: "decrypt_key_material stack (h1_cipher_mode (?H ?D)) ?slot 16 ?enc
      (replicate 131072 0) 16 = Some dk" "length dk = 131072"
    using decrypt_key_material_ok[of ?slot ?enc "replicate 131072 0" 16 16 "h1_cipher_mode (?H ?D)" stack] sk(2)
    by (auto simp: length_write_at aes_key_ok_def sample_strings[OF D])
  obtain mk where mk: "af_merge HASH_SHA1 dk 1 16 = Some mk" "length mk = 16"
    using af_merge_ok[OF known, of 1 16 dk] dk(2) by auto
  obtain dg where dg: "pbkdf2 HASH_SHA1 mk (replicate 32 0) 1 20 = Some dg" "length dg = 20"
    using pbkdf2_returns[OF known _ salt, of mk 1 20] mk(2) by auto
  have cm: "decrypt_key_material stack (h1_cipher_mode (?H dg)) = decrypt_key_material stack (h1_cipher_mode (?H ?D))"
    by (intro ext) (simp add: decrypt_key_material_def sample_strings[OF dg(2)] sample_strings[OF D] Let_def)
  have "\<exists>st' k. luks1_try_slot (sample_dev 16 0 1 dg) stack (?H dg) [] 0 sample_static = Some (st', Some k)"
    using sk(1) dk(1) mk(1) dg(1)
    by (simp add: luks1_try_slot_def sample_fields[OF dg(2)] sample_prefix[OF dg(2)] sample_strings[OF dg(2)]
        KM_READ_SECTORS_def sample_dev_def sample_static_def cm Let_def)
  then obtain st' k where "luks1_try_slot (sample_dev 16 0 1 dg) stack (?H dg) [] 0 sample_static = Some (st', Some k)"
    by blast
  then have "luks1_unlock (sample_dev 16 0 1 dg) stack [] sample_static = Some (st', Some k)"
    by (simp add: luks1_unlock_def sample_dev_def sample_prefix[OF dg(2)] upt_conv_Cons
        word_less_nat_alt)
  then show ?thesis using dg(2) by blast
qed

theorem luks1_unlock_sound_witness:
  "\<exists>dg st' k h. luks1_unlock (sample_dev 16 0 1 dg)
       sample_stack [] sample_static = Some (st', Some k) \<and>
     sample_dev 16 0 1 dg 0 4 = Some h \<and> key_verified h k"
proof -
  obtain dg st' k where u: "luks1_unlock (sample_dev 16 0 1 dg)
      sample_stack [] sample_static = Some (st', Some k)"
    using sample_unlocks by blast
  from luks1_unlock_sound[OF u] show ?thesis using u by blast
qed



lemma luks1_big_slot:
  assumes "h1_key_bytes h = 64" and "ks_active h s = LUKS1_KEY_ENABLED \<Longrightarrow> ks_stripes h s = 4000"
    and "length pass < 2 ^ 32"
  shows "\<exists>st'. luks1_try_slot read_fn stack h pass s st = Some (st', None)"
proof (cases "ks_active h s = LUKS1_KEY_ENABLED")
  case True
  have "length (ks_salt h s) \<le> 508" using length_slice_le[of h "208 + 48 * s + 8" 32] by (simp add: ks_salt_def)
  then obtain sk where "pbkdf2 (h1_hid h) pass (ks_salt h s) (ks_iterations h s) 64 = Some sk"
    using pbkdf2_returns[OF h1_hid_known assms(3)] by blast
  then show ?thesis
    using True assms(1,2) by (simp add: luks1_try_slot_def KM_READ_SECTORS_def Let_def)
qed (simp add: luks1_try_slot_def)

text \<open>
  A LUKS1 volume with 64-byte keys and the standard 4000 stripes can never be
  unlocked: its key material takes 500 sectors, more than the scratch buffer of 256, so
  every slot is skipped whatever the passphrase.
\<close>

theorem luks1_512bit_never_unlocks:
  assumes "read_fn 0 4 = Some h" and "h1_key_bytes h = 64" and "length pass < 2 ^ 32"
    and "\<forall>i<8. ks_active h i = LUKS1_KEY_ENABLED \<longrightarrow> ks_stripes h i = 4000"
  shows "\<exists>st'. luks1_unlock read_fn stack pass st = Some (st', None)"
proof -
  have "\<exists>st'. luks1_slots read_fn stack h pass slots st = Some (st', None)" if "\<forall>s\<in>set slots. s < 8" for slots
    using that
  proof (induction slots arbitrary: st)
    case (Cons s slots)
    then obtain st' where "luks1_try_slot read_fn stack h pass s st = Some (st', None)"
      using luks1_big_slot[OF assms(2) _ assms(3), of s read_fn stack st] assms(4) by auto
    then show ?case using Cons by auto
  qed simp
  then show ?thesis using assms(1) by (auto simp: luks1_unlock_def)
qed

theorem luks1_512bit_never_unlocks_witness:
  "\<exists>st'. luks1_unlock (sample_dev 64 0x0F 0xA0 (replicate 20 0)) sample_stack
     [112, 119] sample_static = Some (st', None)"
proof (rule luks1_512bit_never_unlocks)
  let ?dg = "replicate 20 0 :: u8 list"
  have dg: "length ?dg = 20" by simp
  show "sample_dev 64 0x0F 0xA0 ?dg 0 4 = Some (sample_header 64 0x0F 0xA0 ?dg)" by (simp add: sample_dev_def)
  show "h1_key_bytes (sample_header 64 0x0F 0xA0 ?dg) = 64" by (simp add: sample_prefix[OF dg])
  show "\<forall>i<8. ks_active (sample_header 64 0x0F 0xA0 ?dg) i = LUKS1_KEY_ENABLED \<longrightarrow>
      ks_stripes (sample_header 64 0x0F 0xA0 ?dg) i = 4000"
  proof (intro allI impI)
    fix i assume i: "i < 8" "ks_active (sample_header 64 0x0F 0xA0 ?dg) i = LUKS1_KEY_ENABLED"
    then have "i = 0" using sample_fields(4)[OF dg, of i 64 "0x0F" "0xA0"] by (auto simp: LUKS1_KEY_ENABLED_def)
    then show "ks_stripes (sample_header 64 0x0F 0xA0 ?dg) i = 4000"
      by (simp add: sample_fields(3)[OF dg])
  qed
qed simp

end
