(* ===== verification/Blake2b.thy ===== *)
theory Blake2b
  imports Sha
begin

text \<open>
  Blake2b, \<^verbatim>\<open>src/crypto/blake2b.c\<close>.  The context's buffer is the list of the \<^verbatim>\<open>buf_len\<close>
  bytes waiting (never more than 128; a full buffer is compressed only when another byte
  arrives, so that the last block can be flagged).  The byte-wise update is proved to
  compute the block-wise hash of RFC 7693.
\<close>

section \<open>Compression\<close>

definition blake2b_IV :: "u64 list" where
  "blake2b_IV = [0x6a09e667f3bcc908, 0xbb67ae8584caa73b, 0x3c6ef372fe94f82b, 0xa54ff53a5f1d36f1,
     0x510e527fade682d1, 0x9b05688c2b3e6c1f, 0x1f83d9abfb41bd6b, 0x5be0cd19137e2179]"

definition BLAKE_SIGMA :: "nat list list" where
  "BLAKE_SIGMA = [
     [0, 1, 2, 3, 4, 5, 6, 7, 8, 9, 10, 11, 12, 13, 14, 15],
     [14, 10, 4, 8, 9, 15, 13, 6, 1, 12, 0, 2, 11, 7, 5, 3],
     [11, 8, 12, 0, 5, 2, 15, 13, 10, 14, 3, 6, 7, 1, 9, 4],
     [7, 9, 3, 1, 13, 12, 11, 14, 2, 6, 5, 10, 4, 0, 15, 8],
     [9, 0, 5, 7, 2, 4, 10, 15, 14, 1, 11, 12, 6, 8, 3, 13],
     [2, 12, 6, 10, 0, 11, 8, 3, 4, 13, 7, 5, 15, 14, 1, 9],
     [12, 5, 1, 15, 14, 13, 4, 10, 0, 7, 6, 3, 9, 2, 8, 11],
     [13, 11, 7, 14, 12, 1, 3, 9, 5, 0, 15, 4, 8, 6, 2, 10],
     [6, 15, 14, 9, 11, 3, 0, 8, 12, 2, 13, 7, 1, 4, 10, 5],
     [10, 2, 8, 4, 7, 6, 1, 5, 15, 11, 9, 14, 3, 12, 13, 0],
     [0, 1, 2, 3, 4, 5, 6, 7, 8, 9, 10, 11, 12, 13, 14, 15],
     [14, 10, 4, 8, 9, 15, 13, 6, 1, 12, 0, 2, 11, 7, 5, 3]]"

definition le64r :: "u8 list \<Rightarrow> u64" where
  "le64r p = fold (\<lambda>i v. push_bit 8 v OR ucast (p ! i)) (rev [0..<8]) 0"

definition put_le64 :: "u64 \<Rightarrow> u8 list" where
  "put_le64 v = map (\<lambda>i. ucast (drop_bit (8 * i) v)) [0..<8]"

definition blake2b_G :: "u64 list \<Rightarrow> nat \<Rightarrow> nat \<Rightarrow> nat \<Rightarrow> nat \<Rightarrow> nat \<Rightarrow> nat \<Rightarrow> u64 list \<Rightarrow> u64 list" where
  "blake2b_G m r i pa pb pc pd v =
     (let a = v ! pa + v ! pb + m ! (BLAKE_SIGMA ! r ! (2 * i)); d = ror64 (v ! pd XOR a) 32;
          c = v ! pc + d;                                  b = ror64 (v ! pb XOR c) 24;
          a = a + b + m ! (BLAKE_SIGMA ! r ! (2 * i + 1));       d = ror64 (d XOR a) 16;
          c = c + d;                                       b = ror64 (b XOR c) 63
      in v[pa := a, pb := b, pc := c, pd := d])"

definition blake2b_round :: "u64 list \<Rightarrow> nat \<Rightarrow> u64 list \<Rightarrow> u64 list" where
  "blake2b_round m r v =
     (let v = blake2b_G m r 0 0 4 8 12 v;
          v = blake2b_G m r 1 1 5 9 13 v;
          v = blake2b_G m r 2 2 6 10 14 v;
          v = blake2b_G m r 3 3 7 11 15 v;
          v = blake2b_G m r 4 0 5 10 15 v;
          v = blake2b_G m r 5 1 6 11 12 v;
          v = blake2b_G m r 6 2 7 8 13 v
      in blake2b_G m r 7 3 4 9 14 v)"

record blake2b_ctx =
  b2_h :: "u64 list"
  b2_t0 :: u64
  b2_t1 :: u64
  b2_f0 :: u64
  b2_f1 :: u64
  b2_buf :: "u8 list"
  b2_out_len :: nat

text \<open>The chaining value after compressing a block of 128 bytes.\<close>

definition blake2b_compress_h :: "u64 list \<Rightarrow> u64 \<Rightarrow> u64 \<Rightarrow> u8 list \<Rightarrow> bool \<Rightarrow> u64 list" where
  "blake2b_compress_h h t0 t1 blk is_last =
     (let v = h @ blake2b_IV;
          v = v[12 := v ! 12 XOR t0];
          v = v[13 := v ! 13 XOR t1];
          v = (if is_last then v[14 := NOT (v ! 14)] else v);
          m = map (\<lambda>i. le64r (drop (i * 8) blk)) [0..<16];
          v = fold (blake2b_round m) [0..<12] v
      in map (\<lambda>i. h ! i XOR (v ! i XOR v ! (8 + i))) [0..<8])"

definition blake2b_compress :: "blake2b_ctx \<Rightarrow> u8 list \<Rightarrow> bool \<Rightarrow> blake2b_ctx" where
  "blake2b_compress ctx blk is_last =
     ctx\<lparr> b2_h := blake2b_compress_h (b2_h ctx) (b2_t0 ctx) (b2_t1 ctx) blk is_last \<rparr>"

section \<open>Streaming\<close>

definition blake2b_init :: "nat \<Rightarrow> u8 list \<Rightarrow> blake2b_ctx" where
  "blake2b_init out_len key =
     \<lparr> b2_h = blake2b_IV[0 := blake2b_IV ! 0 XOR (0x01010000 XOR push_bit 8 (of_nat (length key)) XOR of_nat out_len)],
       b2_t0 = 0, b2_t1 = 0, b2_f0 = 0, b2_f1 = 0,
       b2_buf = (if key = [] then [] else key @ replicate (128 - length key) 0),
       b2_out_len = out_len \<rparr>"

text \<open>\<^verbatim>\<open>t[0] += n; if (t[0] < n) t[1]++\<close>\<close>

definition blake2b_count :: "nat \<Rightarrow> blake2b_ctx \<Rightarrow> blake2b_ctx" where
  "blake2b_count n ctx =
     (let t0 = b2_t0 ctx + of_nat n
      in ctx\<lparr> b2_t0 := t0, b2_t1 := (if t0 < of_nat n then b2_t1 ctx + 1 else b2_t1 ctx) \<rparr>)"

definition blake2b_flush :: "blake2b_ctx \<Rightarrow> blake2b_ctx" where
  "blake2b_flush ctx = (blake2b_compress (blake2b_count 128 ctx) (b2_buf ctx) False)\<lparr> b2_buf := [] \<rparr>"

definition blake2b_byte :: "u8 \<Rightarrow> blake2b_ctx \<Rightarrow> blake2b_ctx" where
  "blake2b_byte b ctx =
     (let ctx = (if length (b2_buf ctx) = 128 then blake2b_flush ctx else ctx)
      in ctx\<lparr> b2_buf := b2_buf ctx @ [b] \<rparr>)"

definition blake2b_update :: "blake2b_ctx \<Rightarrow> u8 list \<Rightarrow> blake2b_ctx" where
  "blake2b_update ctx data = fold blake2b_byte data ctx"

definition blake2b_final :: "blake2b_ctx \<Rightarrow> u8 list" where
  "blake2b_final ctx =
     (let ctx = blake2b_count (length (b2_buf ctx)) ctx;
          ctx = ctx\<lparr> b2_f0 := NOT 0 \<rparr>;
          blk = b2_buf ctx @ replicate (128 - length (b2_buf ctx)) 0;
          ctx = blake2b_compress ctx blk True
      in take (b2_out_len ctx) (concat (map put_le64 (b2_h ctx))))"

definition blake2b :: "u8 list \<Rightarrow> u8 list \<Rightarrow> nat \<Rightarrow> u8 list" where
  "blake2b data key out_len = blake2b_final (blake2b_update (blake2b_init out_len key) data)"

section \<open>RFC 7693\<close>

text \<open>
  All blocks but the last, each with the number of bytes up to its end; the last block is
  padded with zeros and flagged.  A key is a first block of its own.
\<close>

function rfc7693_blocks :: "u64 list \<Rightarrow> nat \<Rightarrow> u8 list \<Rightarrow> u64 list \<times> nat \<times> u8 list" where
  "rfc7693_blocks h n msg =
     (if 128 < length msg
      then rfc7693_blocks (blake2b_compress_h h (of_nat (n + 128)) 0 (take 128 msg) False) (n + 128) (drop 128 msg)
      else (h, n, msg))"
  by pat_completeness auto
termination
  by (relation "measure (\<lambda>(_, _, m). length m)") auto

declare rfc7693_blocks.simps [simp del]

definition rfc7693 :: "u8 list \<Rightarrow> u8 list \<Rightarrow> nat \<Rightarrow> u8 list" where
  "rfc7693 data key nn =
     (let h = blake2b_IV[0 := blake2b_IV ! 0 XOR (0x01010000 XOR push_bit 8 (of_nat (length key)) XOR of_nat nn)];
          msg = (if key = [] then [] else key @ replicate (128 - length key) 0) @ data;
          (h, n, m) = rfc7693_blocks h 0 msg;
          h = blake2b_compress_h h (of_nat (n + length m)) 0 (m @ replicate (128 - length m) 0) True
      in take nn (concat (map put_le64 h)))"

lemma length_compress_h [simp]: "length (blake2b_compress_h h t0 t1 b l) = 8"
  by (simp add: blake2b_compress_h_def Let_def)

lemma length_put_le64 [simp]: "length (put_le64 v) = 8"
  by (simp add: put_le64_def)

lemma update_fill:
  "length (b2_buf ctx) + length d \<le> 128 \<Longrightarrow> blake2b_update ctx d = ctx\<lparr> b2_buf := b2_buf ctx @ d \<rparr>"
proof (induction d arbitrary: ctx)
  case (Cons b d)
  then have "blake2b_byte b ctx = ctx\<lparr> b2_buf := b2_buf ctx @ [b] \<rparr>"
    by (simp add: blake2b_byte_def)
  then show ?case
    using Cons.IH[of "ctx\<lparr> b2_buf := b2_buf ctx @ [b] \<rparr>"] Cons.prems by (simp add: blake2b_update_def)
qed (simp add: blake2b_update_def)

lemma update_append: "blake2b_update ctx (a @ b) = blake2b_update (blake2b_update ctx a) b"
  by (simp add: blake2b_update_def)

lemma update_full:
  assumes "length (b2_buf ctx) = 128" and "d \<noteq> []"
  shows "blake2b_update ctx d = blake2b_update (blake2b_flush ctx) d"
proof -
  have "b2_buf (blake2b_flush ctx) = []" by (simp add: blake2b_flush_def)
  then have "blake2b_byte b (blake2b_flush ctx) = blake2b_byte b ctx" for b
    using assms(1) by (simp add: blake2b_byte_def Let_def)
  then show ?thesis using assms(2) by (cases d) (simp_all add: blake2b_update_def)
qed

lemma count_small:
  assumes "n + k < 2 ^ 64" and "b2_t0 ctx = of_nat n"
  shows "blake2b_count k ctx = ctx\<lparr> b2_t0 := of_nat (n + k) \<rparr>"
proof -
  have "\<not> (of_nat (n + k) :: u64) < of_nat k"
    using assms(1) by (simp add: word_less_nat_alt unat_of_nat del: of_nat_add)
  then show ?thesis
    using assms(2) by (simp add: blake2b_count_def Let_def)
qed

text \<open>Updating a context with an empty buffer runs the blocks of RFC 7693.\<close>

lemma update_blocks:
  assumes "b2_buf ctx = []" and "b2_t0 ctx = of_nat n" and "b2_t1 ctx = 0"
    and "n + length msg < 2 ^ 64" and "rfc7693_blocks (b2_h ctx) n msg = (h', n', m')"
  shows "blake2b_update ctx msg = ctx\<lparr> b2_h := h', b2_t0 := of_nat n', b2_buf := m' \<rparr> \<and>
    length m' \<le> 128 \<and> n' + length m' = n + length msg"
  using assms
proof (induction "length msg" arbitrary: ctx n msg rule: less_induct)
  case less
  show ?case
  proof (cases "128 < length msg")
    case True
    let ?c1 = "ctx\<lparr> b2_buf := take 128 msg \<rparr>"
    let ?h = "blake2b_compress_h (b2_h ctx) (of_nat (n + 128)) 0 (take 128 msg) False"
    let ?c2 = "ctx\<lparr> b2_h := ?h, b2_t0 := of_nat (n + 128) \<rparr>"
    have "blake2b_update ctx msg = blake2b_update (blake2b_update ctx (take 128 msg)) (drop 128 msg)"
      by (simp add: update_append[symmetric])
    also have "blake2b_update ctx (take 128 msg) = ?c1"
      using update_fill[of ctx "take 128 msg"] True less.prems(1) by simp
    also have "blake2b_update ?c1 (drop 128 msg) = blake2b_update (blake2b_flush ?c1) (drop 128 msg)"
      by (rule update_full) (use True in simp_all)
    also have "blake2b_flush ?c1 = ?c2"
      using less.prems(1-4) True count_small[of n 128 ?c1]
      by (simp add: blake2b_flush_def blake2b_compress_def)
    finally have upd: "blake2b_update ctx msg = blake2b_update ?c2 (drop 128 msg)" .
    have blk: "rfc7693_blocks ?h (n + 128) (drop 128 msg) = (h', n', m')"
      using less.prems(5) True by (subst (asm) rfc7693_blocks.simps) simp
    show ?thesis
      using less.hyps[of "drop 128 msg" ?c2 "n + 128"] True less.prems(1-4) blk upd by simp
  next
    case False
    then show ?thesis using less.prems update_fill[of ctx msg]
      by (auto simp: rfc7693_blocks.simps[of _ _ msg])
  qed
qed

lemma update_key:
  assumes "length key \<le> 128"
  shows "blake2b_update (blake2b_init n key) data =
    blake2b_update (blake2b_init n key\<lparr> b2_buf := [] \<rparr>) (b2_buf (blake2b_init n key) @ data)"
proof -
  have "length (b2_buf (blake2b_init n key)) \<le> 128" using assms by (simp add: blake2b_init_def)
  then show ?thesis
    using update_fill[of "blake2b_init n key\<lparr> b2_buf := [] \<rparr>" "b2_buf (blake2b_init n key)"]
    by (simp add: update_append)
qed

lemma blake2b_stream:
  assumes "length data < 2 ^ 32" and "length key \<le> 128"
  shows "blake2b_final (blake2b_update (blake2b_init nn key) data) = rfc7693 data key nn"
proof -
  let ?c = "blake2b_init nn key\<lparr> b2_buf := [] \<rparr>"
  let ?msg = "b2_buf (blake2b_init nn key) @ data"
  obtain h n m where hnm: "rfc7693_blocks (b2_h ?c) 0 ?msg = (h, n, m)" by (metis prod_cases3)
  have len: "length ?msg \<le> length data + 128"
    using assms(2) by (simp add: blake2b_init_def)
  then have upd: "blake2b_update ?c ?msg = ?c\<lparr> b2_h := h, b2_t0 := of_nat n, b2_buf := m \<rparr>"
    and m: "length m \<le> 128" and n: "n + length m = length ?msg"
    using update_blocks[OF _ _ _ _ hnm] assms(1) by (simp_all add: blake2b_init_def)
  have small: "n + length m < 2 ^ 64" using n len assms(1) by simp
  have "blake2b_final (blake2b_update (blake2b_init nn key) data) =
      take nn (concat (map put_le64 (blake2b_compress_h h (of_nat (n + length m)) 0
        (m @ replicate (128 - length m) 0) True)))"
    using count_small[OF small, of "?c\<lparr> b2_h := h, b2_t0 := of_nat n, b2_buf := m \<rparr>"]
    by (simp add: update_key[OF assms(2)] upd blake2b_final_def blake2b_compress_def Let_def)
      (simp add: blake2b_init_def)
  then show ?thesis
    using hnm by (simp add: rfc7693_def blake2b_init_def Let_def)
qed

lemma length_blake2b_final: "length (blake2b_final ctx) = min (b2_out_len ctx) 64"
proof -
  have "length (concat (map put_le64 hs)) = 8 * length hs" for hs
    by (induction hs) simp_all
  then show ?thesis
    by (simp add: blake2b_final_def blake2b_compress_def blake2b_count_def Let_def min.commute)
qed

lemma out_len_update [simp]: "b2_out_len (blake2b_update ctx d) = b2_out_len ctx"
proof (induction d arbitrary: ctx)
  case (Cons b d)
  have "b2_out_len (blake2b_byte b ctx) = b2_out_len ctx"
    by (simp add: blake2b_byte_def blake2b_flush_def blake2b_compress_def blake2b_count_def Let_def)
  then show ?case using Cons by (simp add: blake2b_update_def)
qed (simp add: blake2b_update_def)

lemma out_len_init [simp]: "b2_out_len (blake2b_init n key) = n"
  by (simp add: blake2b_init_def)

section \<open>Properties\<close>

text \<open>
  C35. Blake2b, fed byte by byte and in any pieces, computes the hash of RFC 7693: every
  block but the last is compressed with the running byte count, the last one zero-padded
  and flagged, for keyed and unkeyed hashing; the digest has the requested length.
\<close>

theorem blake2b_is_rfc7693:
  assumes "length (concat ds) < 2 ^ 32" and "length key \<le> 128" and "nn \<le> 64"
  shows "blake2b_final (foldl blake2b_update (blake2b_init nn key) ds) = rfc7693 (concat ds) key nn \<and>
    blake2b (concat ds) key nn = rfc7693 (concat ds) key nn \<and> length (blake2b (concat ds) key nn) = nn"
proof -
  have "foldl blake2b_update c ds = blake2b_update c (concat ds)" for c
    by (induction ds arbitrary: c) (simp_all add: update_append, simp add: blake2b_update_def)
  then show ?thesis
    using blake2b_stream[OF assms(1,2), of nn] assms(3)
      length_blake2b_final[of "blake2b_update (blake2b_init nn key) (concat ds)"]
    by (simp add: blake2b_def)
qed

theorem blake2b_is_rfc7693_witness:
  "blake2b_final (foldl blake2b_update (blake2b_init 64 []) [[97], [98, 99]]) = rfc7693 [97, 98, 99] [] 64"
  using blake2b_is_rfc7693[of "[[97], [98, 99]]" "[]" 64] by simp

end
