(* ===== verification/Argon2.thy ===== *)
theory Argon2
  imports Blake2b
begin

text \<open>
  Argon2, \<^verbatim>\<open>src/crypto/argon2.c\<close>.  The block memory \<^verbatim>\<open>B\<close> is the list of the bytes that were
  allocated; the byte offsets are computed in 32 bits, as in the code, and an access
  outside the allocation is the value \<open>None\<close> (\<open>ArgonOOB\<close> for the whole function).  Loop
  counters are natural numbers: their bounds are 32-bit values.  It is proved that no
  access leaves the allocation whenever its size did not wrap, and that the size does
  wrap for 4 GiB and more.  The allocator is a parameter that says whether a request of
  a given size is granted.
\<close>

section \<open>Helpers\<close>

definition put_le32 :: "u32 \<Rightarrow> u8 list" where
  "put_le32 v = [ucast v, ucast (drop_bit 8 v), ucast (drop_bit 16 v), ucast (drop_bit 24 v)]"

text \<open>\<^verbatim>\<open>while (remaining > 64)\<close> of \<^verbatim>\<open>H_prime\<close>; the digest \<open>prev\<close> of the previous round is hashed.\<close>

function H_prime_loop :: "u8 list \<Rightarrow> nat \<Rightarrow> u8 list" where
  "H_prime_loop prev remaining =
     (if remaining > 64 then
        let a = blake2b prev [] 64 in take 32 a @ H_prime_loop a (remaining - 32)
      else blake2b prev [] remaining)"
  by pat_completeness auto
termination
  by (relation "measure (\<lambda>(_, r). r)") auto

declare H_prime_loop.simps [simp del]

definition H_prime :: "u8 list \<Rightarrow> nat \<Rightarrow> u8 list" where
  "H_prime inp out_len =
     (let len_enc = put_le32 (of_nat out_len)
      in if out_len \<le> 64 then
           blake2b_final (blake2b_update (blake2b_update (blake2b_init out_len []) len_enc) inp)
         else
           let a = blake2b_final (blake2b_update (blake2b_update (blake2b_init 64 []) len_enc) inp)
           in take 32 a @ H_prime_loop a (out_len - 32))"

section \<open>Mixing\<close>

definition fBlaMka :: "u64 \<Rightarrow> u64 \<Rightarrow> u64" where
  "fBlaMka x y =
     (let xy = ucast (ucast x :: u32) * ucast (ucast y :: u32) in x + y + push_bit 1 xy)"

definition rotr64 :: "u64 \<Rightarrow> nat \<Rightarrow> u64" where
  "rotr64 x n = drop_bit n x OR push_bit (64 - n) x"

definition G_BLAMKA :: "nat \<Rightarrow> nat \<Rightarrow> nat \<Rightarrow> nat \<Rightarrow> u64 list \<Rightarrow> u64 list" where
  "G_BLAMKA pa pb pc pd v =
     (let a = fBlaMka (v ! pa) (v ! pb); d = rotr64 (v ! pd XOR a) 32;
          c = fBlaMka (v ! pc) d;        b = rotr64 (v ! pb XOR c) 24;
          a = fBlaMka a b;               d = rotr64 (d XOR a) 16;
          c = fBlaMka c d;               b = rotr64 (b XOR c) 63
      in v[pa := a, pb := b, pc := c, pd := d])"

definition permute_block :: "u64 list \<Rightarrow> u64 list" where
  "permute_block v =
     (let v = fold (\<lambda>i v.
            let j = i * 2;
                v = G_BLAMKA j (j + 1) (j + 2) (j + 3) v;
                v = G_BLAMKA (j + 4) (j + 5) (j + 6) (j + 7) v;
                v = G_BLAMKA (j + 8) (j + 9) (j + 10) (j + 11) v
            in G_BLAMKA (j + 12) (j + 13) (j + 14) (j + 15) v) [0..<8] v
      in fold (\<lambda>i v.
            let v = G_BLAMKA i (i + 8) (i + 16) (i + 24) v;
                v = G_BLAMKA (i + 32) (i + 40) (i + 48) (i + 56) v;
                v = G_BLAMKA (i + 64) (i + 72) (i + 80) (i + 88) v
            in G_BLAMKA (i + 96) (i + 104) (i + 112) (i + 120) v) [0..<8] v)"

definition GB_block :: "u8 list \<Rightarrow> u8 list \<Rightarrow> u8 list" where
  "GB_block x y =
     (let r = map (\<lambda>i. le64r (drop (i * 8) x) XOR le64r (drop (i * 8) y)) [0..<128];
          tmp = permute_block r
      in concat (map (\<lambda>i. put_le64 (tmp ! i XOR r ! i)) [0..<128]))"

section \<open>Index derivation\<close>

definition index_alpha :: "u32 \<Rightarrow> u32 \<Rightarrow> u32 \<Rightarrow> u32 \<Rightarrow> u32 \<Rightarrow> bool \<Rightarrow> u32" where
  "index_alpha pass slice_no lane_len index pseudo_rand same_lane =
     (let q = lane_len div 4;
          ref_area =
            (if pass = 0 then
               (if slice_no = 0 then index - 1
                else if same_lane then slice_no * q + index - 1
                else slice_no * q - (if index = 0 then 1 else 0))
             else
               (if same_lane then lane_len - q + index - 1
                else lane_len - q - (if index = 0 then 1 else 0)));
          rp = drop_bit 32 (ucast pseudo_rand * ucast pseudo_rand :: u64);
          rp = drop_bit 32 (ucast ref_area * rp);
          start_pos = (if pass \<noteq> 0 then (if slice_no = 3 then 0 else (slice_no + 1) * q) else 0)
      in ucast ((ucast (start_pos + ref_area - 1) - rp) mod ucast lane_len))"

section \<open>Block memory\<close>

text \<open>The byte offset \<^verbatim>\<open>(lane*lane_length + idx)*ARGON2_BLOCK_SIZE\<close>, in 32 bits.\<close>

definition blk_off :: "u32 \<Rightarrow> u32 \<Rightarrow> u32 \<Rightarrow> nat" where
  "blk_off lane_length lane idx = unat ((lane * lane_length + idx) * 1024)"

definition read_blk :: "u8 list \<Rightarrow> nat \<Rightarrow> u8 list option" where
  "read_blk B off = (if off + 1024 \<le> length B then Some (slice B off 1024) else None)"

definition write_blk :: "u8 list \<Rightarrow> nat \<Rightarrow> u8 list \<Rightarrow> u8 list option" where
  "write_blk B off d = (if off + 1024 \<le> length B then Some (write_at B off d) else None)"

record argon_params =
  ap_time_cost :: u32
  ap_memory_blocks :: u32
  ap_lane_length :: u32
  ap_segment_length :: u32
  ap_parallelism :: u32
  ap_type :: int

abbreviation (input) ARGON2_TYPE_D :: int where "ARGON2_TYPE_D \<equiv> 0"
abbreviation (input) ARGON2_TYPE_I :: int where "ARGON2_TYPE_I \<equiv> 1"
abbreviation (input) ARGON2_TYPE_ID :: int where "ARGON2_TYPE_ID \<equiv> 2"

definition argon_sizes :: "u32 \<Rightarrow> u32 \<Rightarrow> u32 \<times> u32 \<times> u32" where
  "argon_sizes memory_kb parallelism =
     (let memory_blocks = (if memory_kb < 8 * parallelism then 8 * parallelism else memory_kb);
          segment_length = memory_blocks div (parallelism * 4);
          segment_length = (if segment_length = 0 then 1 else segment_length);
          lane_length = segment_length * 4
      in (lane_length * parallelism, segment_length, lane_length))"

definition argon_h0 :: "u32 \<Rightarrow> u32 \<Rightarrow> u32 \<Rightarrow> u32 \<Rightarrow> int \<Rightarrow> u8 list \<Rightarrow> u8 list \<Rightarrow> u8 list" where
  "argon_h0 parallelism out_len memory_kb time_cost type password salt =
     (let params = concat (map put_le32 [parallelism, out_len, memory_kb, time_cost, 0x13,
            word_of_int type, of_nat (length password)])
      in blake2b_final (foldl blake2b_update (blake2b_init 64 [])
           [params, put_le32 (of_nat (length password)), password,
            put_le32 (of_nat (length salt)), salt, put_le32 0, put_le32 0]))"

definition argon_init_lane :: "u8 list \<Rightarrow> u32 \<Rightarrow> nat \<Rightarrow> u8 list \<Rightarrow> u8 list option" where
  "argon_init_lane h0 lane_length l B =
     (case write_blk B (blk_off lane_length (of_nat l) 0)
             (H_prime (h0 @ put_le32 0 @ put_le32 (of_nat l)) 1024) of
        None \<Rightarrow> None
      | Some B \<Rightarrow> write_blk B (blk_off lane_length (of_nat l) 1)
             (H_prime (h0 @ put_le32 1 @ put_le32 (of_nat l)) 1024))"

text \<open>\<^verbatim>\<open>pseudo_rand\<close>: from the previous block, or from a block derived from the indices.\<close>

definition argon_rand :: "argon_params \<Rightarrow> nat \<Rightarrow> nat \<Rightarrow> nat \<Rightarrow> nat \<Rightarrow> u8 list \<Rightarrow> u32" where
  "argon_rand ap pass slice_no lane idx prev_block =
     (if ap_type ap = ARGON2_TYPE_D \<or> (ap_type ap = ARGON2_TYPE_ID \<and> pass \<ge> 1) \<or>
         (ap_type ap = ARGON2_TYPE_ID \<and> slice_no \<ge> 2)
      then ucast (le64r prev_block)
      else
        let prand_input = concat (map put_le32 [of_nat pass, of_nat lane, of_nat slice_no,
              ap_memory_blocks ap, ap_time_cost ap, word_of_int (ap_type ap), of_nat (idx div 128 + 1)]);
            prand_block = H_prime prand_input 1024
        in ucast (le64r (drop ((idx mod 128) * 8) prand_block)))"

definition argon_step :: "argon_params \<Rightarrow> nat \<Rightarrow> nat \<Rightarrow> nat \<Rightarrow> nat \<Rightarrow> u8 list \<Rightarrow> u8 list option" where
  "argon_step ap pass slice_no lane idx B =
     (let ll = ap_lane_length ap;
          cur = of_nat slice_no * ap_segment_length ap + of_nat idx;
          prev_idx = (if cur = 0 then ll - 1 else cur - 1)
      in case read_blk B (blk_off ll (of_nat lane) prev_idx) of
           None \<Rightarrow> None
         | Some prev_block \<Rightarrow>
             let pseudo_rand = argon_rand ap pass slice_no lane idx prev_block;
                 ref_lane = (if pass = 0 \<and> slice_no = 0 then of_nat lane
                             else drop_bit 16 pseudo_rand mod ap_parallelism ap);
                 ref_idx = index_alpha (of_nat pass) (of_nat slice_no) ll (of_nat idx) pseudo_rand
                             (ref_lane = of_nat lane)
             in case (read_blk B (blk_off ll ref_lane ref_idx), read_blk B (blk_off ll (of_nat lane) cur)) of
                  (Some ref_block, Some curr_block) \<Rightarrow>
                    let tmp_block = GB_block prev_block ref_block
                    in write_blk B (blk_off ll (of_nat lane) cur)
                         (if pass = 0 then tmp_block else xor_bytes curr_block tmp_block)
                | _ \<Rightarrow> None)"

definition argon_fill :: "argon_params \<Rightarrow> u8 list \<Rightarrow> u8 list option" where
  "argon_fill ap B =
     fold_opt (\<lambda>pass. fold_opt (\<lambda>slice_no. fold_opt (\<lambda>lane.
       fold_opt (\<lambda>idx. argon_step ap pass slice_no lane idx)
         [(if pass = 0 \<and> slice_no = 0 then 2 else 0)..<unat (ap_segment_length ap)])
       [0..<unat (ap_parallelism ap)]) [0..<4]) [0..<unat (ap_time_cost ap)] B"

definition argon_finish :: "argon_params \<Rightarrow> u8 list \<Rightarrow> u8 list option" where
  "argon_finish ap B =
     (let ll = ap_lane_length ap
      in case read_blk B (blk_off ll 0 (ll - 1)) of
           None \<Rightarrow> None
         | Some b \<Rightarrow> fold_opt (\<lambda>l b. case read_blk B (blk_off ll (of_nat l) (ll - 1)) of
               None \<Rightarrow> None | Some x \<Rightarrow> Some (xor_bytes b x)) [1..<unat (ap_parallelism ap)] b)"

datatype argon_result = ArgonNoMemory | ArgonOOB | ArgonOut "u8 list"

text \<open>
  \<open>alloc n\<close> says whether a request of \<open>n\<close> bytes succeeds.  \<open>ArgonOOB\<close> also stands for the
  division by zero when \<^verbatim>\<open>parallelism * 4\<close> is 0.
\<close>

definition argon2 ::
    "(u32 \<Rightarrow> bool) \<Rightarrow> u8 list \<Rightarrow> u8 list \<Rightarrow> u32 \<Rightarrow> u32 \<Rightarrow> u32 \<Rightarrow> int \<Rightarrow> u32 \<Rightarrow> argon_result" where
  "argon2 alloc password salt time_cost memory_kb parallelism type out_len =
     (let (memory_blocks, segment_length, lane_length) = argon_sizes memory_kb parallelism;
          size = memory_blocks * 1024
      in if parallelism * 4 = 0 then ArgonOOB
         else if \<not> alloc size then ArgonNoMemory
         else
           let B = replicate (unat size) 0;
               h0 = argon_h0 parallelism out_len memory_kb time_cost type password salt;
               ap = \<lparr> ap_time_cost = time_cost, ap_memory_blocks = memory_blocks,
                      ap_lane_length = lane_length, ap_segment_length = segment_length,
                      ap_parallelism = parallelism, ap_type = type \<rparr>
           in case fold_opt (argon_init_lane h0 lane_length) [0..<unat parallelism] B of
                None \<Rightarrow> ArgonOOB
              | Some B \<Rightarrow> (case argon_fill ap B of
                  None \<Rightarrow> ArgonOOB
                | Some B \<Rightarrow> (case argon_finish ap B of
                    None \<Rightarrow> ArgonOOB
                  | Some final_block \<Rightarrow> ArgonOut (H_prime final_block (unat out_len)))))"

section \<open>Output lengths\<close>

lemma length_blake2b: "length (blake2b d k n) = min n 64"
  by (simp add: blake2b_def length_blake2b_final)

lemma length_H_prime_loop: "length (H_prime_loop prev r) = r"
proof (induction prev r rule: H_prime_loop.induct)
  case (1 prev r)
  then show ?case
    by (subst H_prime_loop.simps) (auto simp: length_blake2b Let_def)
qed

lemma length_H_prime: "length (H_prime inp n) = n"
  by (simp add: H_prime_def Let_def length_blake2b_final length_H_prime_loop)

lemma length_GB_block: "length (GB_block x y) = 1024"
proof -
  have "length (concat (map (\<lambda>i. put_le64 (f i)) is)) = 8 * length is" for f and "is" :: "nat list"
    by (induction "is") simp_all
  then show ?thesis by (simp add: GB_block_def Let_def)
qed

section \<open>Bounds\<close>

text \<open>Lane geometry that fits the allocation of \<^verbatim>\<open>memory_blocks * 1024\<close> bytes.\<close>

definition geom_ok :: "argon_params \<Rightarrow> nat \<Rightarrow> bool" where
  "geom_ok ap n \<longleftrightarrow> unat (ap_lane_length ap) = 4 * unat (ap_segment_length ap) \<and>
     0 < unat (ap_segment_length ap) \<and> 0 < unat (ap_parallelism ap) \<and>
     n = unat (ap_lane_length ap) * unat (ap_parallelism ap) * 1024 \<and> n < 2 ^ 32"

lemma blk_off_bound:
  assumes "geom_ok ap n" and "unat lane < unat (ap_parallelism ap)" and "unat idx < unat (ap_lane_length ap)"
  shows "blk_off (ap_lane_length ap) lane idx + 1024 \<le> n"
proof -
  let ?ll = "unat (ap_lane_length ap)" and ?p = "unat (ap_parallelism ap)"
  have "unat lane * ?ll + unat idx < Suc (unat lane) * ?ll" using assms(3) by simp
  also have "\<dots> \<le> ?p * ?ll" using assms(2) by (intro mult_le_mono1) simp
  finally have lt: "unat lane * ?ll + unat idx < ?p * ?ll" .
  then have le: "(unat lane * ?ll + unat idx) * 1024 + 1024 \<le> ?ll * ?p * 1024"
    by (simp add: mult.commute)
  have n: "n = ?ll * ?p * 1024" "n < 2 ^ 32"
    using assms(1) unfolding geom_ok_def by blast+
  have "unat ((lane * ap_lane_length ap + idx) * 1024) = (unat lane * ?ll + unat idx) * 1024"
    using le n by (simp add: unat_word_ariths mod_mult_left_eq mod_add_left_eq)
  then show ?thesis using le n by (simp add: blk_off_def)
qed

lemma index_alpha_bound:
  assumes "0 < unat ll"
  shows "unat (index_alpha pass sl ll i pr same) < unat ll"
proof -
  have "unat (ucast (x mod ucast ll :: u64) :: u32) < unat ll" for x :: u64
  proof -
    have "unat (ucast ll :: u64) = unat ll" 
      using unat_u32_less[of ll] by (simp add: unsigned_ucast_eq take_bit_nat_eq_self)
    then have lt: "unat (x mod ucast ll :: u64) < unat ll"
      using assms by (simp add: unat_mod_distrib)
    then have "unat (x mod ucast ll :: u64) < 2 ^ 32" using unat_u32_less[of ll] by linarith
    then have "unat (ucast (x mod ucast ll :: u64) :: u32) = unat (x mod ucast ll :: u64)"
      by (simp add: unsigned_ucast_eq take_bit_nat_eq_self)
    then show ?thesis using lt by simp
  qed
  then show ?thesis by (simp add: index_alpha_def Let_def)
qed

lemma write_blk_ok:
  "off + 1024 \<le> length B \<Longrightarrow> length d = 1024 \<Longrightarrow> \<exists>B'. write_blk B off d = Some B' \<and> length B' = length B"
  by (simp add: write_blk_def length_write_at)

lemma read_blk_ok:
  "off + 1024 \<le> length B \<Longrightarrow> \<exists>b. read_blk B off = Some b \<and> length b = 1024"
  by (simp add: read_blk_def length_slice)

lemma cur_bound:
  assumes "geom_ok ap n" and "sl < 4" and "idx < unat (ap_segment_length ap)"
  defines "cur \<equiv> of_nat sl * ap_segment_length ap + of_nat idx"
  shows "unat cur < unat (ap_lane_length ap)"
    and "unat (if cur = 0 then ap_lane_length ap - 1 else cur - 1) < unat (ap_lane_length ap)"
proof -
  let ?s = "unat (ap_segment_length ap)" and ?l = "unat (ap_lane_length ap)"
  have g: "?l = 4 * ?s" "0 < ?s" using assms(1) by (simp_all add: geom_ok_def)
  have "sl * ?s + idx < Suc sl * ?s" using assms(3) by simp
  also have "\<dots> \<le> 4 * ?s" using assms(2) by (intro mult_le_mono1) simp
  finally have lt: "sl * ?s + idx < ?l" using g by simp
  have "sl * ?s + idx < 2 ^ 32" using lt unat_u32_less[of "ap_lane_length ap"] by linarith
  then have "unat cur = sl * ?s + idx"
    by (simp add: cur_def unat_word_ariths unat_of_nat mod_simps)
  then show c: "unat cur < ?l" using lt by simp
  have "unat (x - 1) < ?l" if "x \<noteq> 0" "unat x \<le> ?l" for x :: u32
  proof -
    have "0 < unat x" using that(1) by (simp add: unat_gt_0)
    then show ?thesis using that(2) unat_minus_one[OF that(1)] by linarith
  qed
  then show "unat (if cur = 0 then ap_lane_length ap - 1 else cur - 1) < ?l"
    using c g less_imp_le[OF c] by (cases "ap_lane_length ap = 0") auto
qed

lemma argon_step_ok:
  assumes geom: "geom_ok ap n" and len: "length B = n"
    and "sl < 4" and "lane < unat (ap_parallelism ap)" and "idx < unat (ap_segment_length ap)"
  shows "\<exists>B'. argon_step ap pass sl lane idx B = Some B' \<and> length B' = n"
proof -
  note assms = geom[folded len] assms(3-5)
  let ?ll = "ap_lane_length ap" and ?lane = "of_nat lane :: u32"
  let ?cur = "of_nat sl * ap_segment_length ap + of_nat idx"
  let ?prev = "if ?cur = 0 then ?ll - 1 else ?cur - 1"
  have lane: "unat ?lane < unat (ap_parallelism ap)"
    using assms(3) unat_u32_less[of "ap_parallelism ap"] by (simp add: unat_of_nat)
  note off = blk_off_bound[OF assms(1)]
  obtain prev where prev: "read_blk B (blk_off ?ll ?lane ?prev) = Some prev" "length prev = 1024"
    using read_blk_ok[OF off[OF lane cur_bound(2)[OF assms(1,2,4)]]] by blast
  define pr where "pr = argon_rand ap pass sl lane idx prev"
  define rl where "rl = (if pass = 0 \<and> sl = 0 then ?lane else drop_bit 16 pr mod ap_parallelism ap)"
  have rl: "unat rl < unat (ap_parallelism ap)"
    using lane assms(1) by (simp add: rl_def unat_mod_distrib geom_ok_def)
  have "0 < unat ?ll" using assms(1) by (simp add: geom_ok_def)
  note ri = index_alpha_bound[OF this]
  obtain ref where ref: "read_blk B (blk_off ?ll rl (index_alpha (of_nat pass) (of_nat sl) ?ll (of_nat idx) pr
      (rl = ?lane))) = Some ref" "length ref = 1024"
    using read_blk_ok[OF off[OF rl ri]] by blast
  note c = off[OF lane cur_bound(1)[OF assms(1,2,4)]]
  obtain cur where cur: "read_blk B (blk_off ?ll ?lane ?cur) = Some cur" "length cur = 1024"
    using read_blk_ok[OF c] by blast
  have "\<exists>B'. write_blk B (blk_off ?ll ?lane ?cur)
      (if pass = 0 then GB_block prev ref else xor_bytes cur (GB_block prev ref)) = Some B' \<and>
      length B' = n"
    using write_blk_ok[OF c] len by (simp add: length_GB_block cur)
  then show ?thesis
    using prev(1) ref(1) cur(1) unfolding pr_def rl_def by (simp add: argon_step_def Let_def)
qed

lemma argon_fill_ok:
  assumes "geom_ok ap (length B)"
  shows "\<exists>B'. argon_fill ap B = Some B' \<and> length B' = length B"
  unfolding argon_fill_def
  by (intro fold_opt_inv[where I = "\<lambda>B'. length B' = length B"]) (auto intro: argon_step_ok[OF assms])

lemma argon_init_ok:
  assumes geom: "geom_ok ap n" and len: "length B = n" and l: "l < unat (ap_parallelism ap)"
  shows "\<exists>B'. argon_init_lane h0 (ap_lane_length ap) l B = Some B' \<and> length B' = n"
proof -
  have l': "unat (of_nat l :: u32) < unat (ap_parallelism ap)"
    using l unat_u32_less[of "ap_parallelism ap"] by (simp add: unat_of_nat)
  have ll: "1 < unat (ap_lane_length ap)" using geom by (auto simp: geom_ok_def)
  let ?d = "\<lambda>k. H_prime (h0 @ put_le32 k @ put_le32 (of_nat l)) 1024"
  have w: "\<exists>B'. write_blk B (blk_off (ap_lane_length ap) (of_nat l) k) (?d k) = Some B' \<and> length B' = n"
    if "length B = n" "unat k < unat (ap_lane_length ap)" for B k
    using write_blk_ok[of _ B "?d k"] blk_off_bound[OF geom l' that(2)] that(1)
    by (simp add: length_H_prime)
  obtain B1 where "write_blk B (blk_off (ap_lane_length ap) (of_nat l) 0) (?d 0) = Some B1" "length B1 = n"
    using w[OF len, of 0] ll by auto
  then show ?thesis using w[of B1 1] ll by (simp add: argon_init_lane_def)
qed

lemma argon_finish_ok:
  assumes "geom_ok ap (length B)"
  shows "\<exists>b. argon_finish ap B = Some b \<and> length b = 1024"
proof -
  let ?ll = "ap_lane_length ap"
  have pos: "0 < unat ?ll" "0 < unat (ap_parallelism ap)" using assms by (auto simp: geom_ok_def)
  then have "?ll \<noteq> 0" by auto
  then have last_idx: "unat (?ll - 1) < unat ?ll" using pos(1) unat_minus_one by fastforce
  have r: "\<exists>b. read_blk B (blk_off ?ll (of_nat l) (?ll - 1)) = Some b \<and> length b = 1024"
    if "l < unat (ap_parallelism ap)" for l
    using read_blk_ok[OF blk_off_bound[OF assms _ last_idx, of "of_nat l"]] that
      unat_u32_less[of "ap_parallelism ap"] by (simp add: unat_of_nat)
  obtain b0 where b0: "read_blk B (blk_off ?ll 0 (?ll - 1)) = Some b0" "length b0 = 1024"
    using r[of 0] pos(2) by auto
  have "\<exists>b. fold_opt (\<lambda>l b. case read_blk B (blk_off ?ll (of_nat l) (?ll - 1)) of
      None \<Rightarrow> None | Some x \<Rightarrow> Some (xor_bytes b x)) [1..<unat (ap_parallelism ap)] b0 = Some b \<and> length b = 1024"
  proof (rule fold_opt_inv[where I = "\<lambda>b. length b = 1024"])
    fix l and b :: "u8 list"
    assume "l \<in> set [1..<unat (ap_parallelism ap)]" "length b = 1024"
    then show "\<exists>s'. (case read_blk B (blk_off ?ll (of_nat l) (?ll - 1)) of
        None \<Rightarrow> None | Some x \<Rightarrow> Some (xor_bytes b x)) = Some s' \<and> length s' = 1024"
      using r[of l] by auto
  qed (rule b0(2))
  then show ?thesis using b0(1) by (simp add: argon_finish_def Let_def)
qed

text \<open>The geometry computed from parameters below 4 GiB.\<close>

lemma argon_sizes_geom:
  assumes "argon_sizes kb p = (mb, sl, ll)" and "0 < p" and "p < 2 ^ 19" and "kb < 2 ^ 22"
  shows "geom_ok \<lparr> ap_time_cost = t, ap_memory_blocks = mb, ap_lane_length = ll,
      ap_segment_length = sl, ap_parallelism = p, ap_type = ty \<rparr> (unat (mb * 1024)) "
proof -
  let ?p = "unat p"
  have p: "0 < ?p" "?p < 2 ^ 19" "unat kb < 2 ^ 22"
    using assms(2-4) by (simp_all add: word_less_nat_alt unat_gt_0 word_gt_0)
  define m where "m = (if kb < 8 * p then 8 * p else kb)"
  have u8p: "unat (8 * p) = 8 * ?p" "unat (p * 4) = 4 * ?p"
    using p by (simp_all add: unat_word_ariths)
  have m: "8 * ?p \<le> unat m" "unat m < 2 ^ 22"
    using p u8p by (auto simp: m_def word_less_nat_alt)
  have s: "unat (m div (p * 4)) = unat m div (4 * ?p)" by (simp add: unat_div_distrib u8p)
  have "2 * (4 * ?p) \<le> unat m" using m by simp
  then have s2: "2 \<le> unat m div (4 * ?p)" using p by (simp add: less_eq_div_iff_mult_less_eq)
  then have "m div (p * 4) \<noteq> 0" using s by (metis not_numeral_le_zero unat_0)
  then have sl: "sl = m div (p * 4)" and ll: "ll = sl * 4" and mb: "mb = ll * p"
    using assms(1) by (auto simp: argon_sizes_def Let_def m_def split: if_splits)
  have bound: "unat sl * (4 * ?p) \<le> unat m" unfolding sl s by simp
  have "unat sl * 4 \<le> unat sl * (4 * ?p)" using p by simp
  also have "\<dots> < 2 ^ 32"
    by (rule le_less_trans[OF bound], rule less_trans[OF m(2)]) simp
  finally have "unat sl * 4 < 2 ^ 32" .
  then have ull: "unat ll = 4 * unat sl"
    by (simp add: ll unat_word_ariths)
  have "unat ll * ?p \<le> unat m" using bound by (simp add: ull mult.assoc mult.left_commute)
  then have umb: "unat mb = unat ll * ?p" "unat mb < 2 ^ 22"
    using m by (simp_all add: mb unat_word_ariths)
  have "unat (mb * 1024) = unat mb * 1024" using umb(2) by (simp add: unat_word_ariths)
  then show ?thesis
    using umb ull s2 s sl p by (simp add: geom_ok_def)
qed

section \<open>Properties\<close>

text \<open>
  C34. Below 4 GiB of memory (and below \<open>2 ^ 19\<close> lanes) Argon2 never reads or writes
  outside its allocation, whatever the passwords, passes and variant, and once the
  allocation succeeds it returns exactly \<^verbatim>\<open>out_len\<close> bytes.
\<close>

theorem argon2_in_bounds:
  assumes "0 < p" and "p < 2 ^ 19" and "kb < 2 ^ 22"
  shows "case argon2 alloc pw salt t kb p ty n of
      ArgonNoMemory \<Rightarrow> \<not> alloc (fst (argon_sizes kb p) * 1024)
    | ArgonOOB \<Rightarrow> False
    | ArgonOut out \<Rightarrow> alloc (fst (argon_sizes kb p) * 1024) \<and> length out = unat n"
proof -
  obtain mb sl ll where sz: "argon_sizes kb p = (mb, sl, ll)" by (metis prod_cases3)
  define ap where "ap = \<lparr> ap_time_cost = t, ap_memory_blocks = mb, ap_lane_length = ll,
      ap_segment_length = sl, ap_parallelism = p, ap_type = ty \<rparr>"
  have geom: "geom_ok ap (unat (mb * 1024))"
    unfolding ap_def by (rule argon_sizes_geom[OF sz assms])
  let ?B = "replicate (unat (mb * 1024)) (0 :: u8)"
  let ?h0 = "argon_h0 p n kb t ty pw salt"
  obtain B1 where B1: "fold_opt (argon_init_lane ?h0 ll) [0..<unat p] ?B = Some B1"
      "length B1 = unat (mb * 1024)"
    using fold_opt_inv[where I = "\<lambda>B. length B = unat (mb * 1024)" and xs = "[0..<unat p]"
        and f = "argon_init_lane ?h0 ll" and s = ?B] argon_init_ok[OF geom, of _ _ ?h0]
    by (auto simp: ap_def)
  obtain B2 where B2: "argon_fill ap B1 = Some B2" "length B2 = unat (mb * 1024)"
    using argon_fill_ok[of ap B1] geom B1(2) by auto
  obtain b where b: "argon_finish ap B2 = Some b"
    using argon_finish_ok[of ap B2] geom B2(2) by auto
  have "unat (p * 4) = unat p * 4" using assms(2) by (simp add: unat_word_ariths word_less_nat_alt)
  moreover have "0 < unat p" using assms(1) by (simp add: word_less_nat_alt)
  ultimately have "unat (p * 4) \<noteq> 0" by linarith
  then have "p * 4 \<noteq> 0" by auto
  then show ?thesis
    using B1(1) B2(1) b by (simp add: argon2_def sz ap_def[symmetric] Let_def length_H_prime)
qed

theorem argon2_in_bounds_witness:
  "case argon2 (\<lambda>_. True) [112] (replicate 16 1) 1 32 4 ARGON2_TYPE_ID 32 of
      ArgonNoMemory \<Rightarrow> False | ArgonOOB \<Rightarrow> False | ArgonOut out \<Rightarrow> length out = 32"
  using argon2_in_bounds[where alloc = "\<lambda>_. True" and pw = "[112]" and salt = "replicate 16 1"
      and t = 1 and kb = 32 and p = 4 and ty = ARGON2_TYPE_ID and n = 32]
  by (simp split: argon_result.splits)

text \<open>
  From 4 GiB on the size of the allocation wraps around: with a memory cost of
  \<open>2 ^ 22\<close> kibibytes and one lane the code allocates 0 bytes and its first block access
  is out of bounds.
\<close>

theorem argon2_size_wraps:
  "fst (argon_sizes 4194304 1) * 1024 = 0 \<and>
   argon2 alloc pw salt t 4194304 1 ty n = (if alloc 0 then ArgonOOB else ArgonNoMemory)"
proof -
  have sz: "argon_sizes 4194304 1 = (4194304, 1048576, 4194304)"
    by (simp add: argon_sizes_def)
  have z: "(4294967296 :: u32) = 0" by simp
  show ?thesis
    by (simp add: argon2_def sz Let_def argon_init_lane_def write_blk_def z)
qed

end
