(* ===== verification/Luks2.thy ===== *)
theory Luks2
  imports Luks1 Argon2 Config
begin

text \<open>
  LUKS2 unlocking, \<^verbatim>\<open>src/luks/luks2.c\<close>: the Base64 decoder, the flat JSON lookups and the
  key slot loop.  Conventions (device, results, buffers) are those of \<open>Luks1\<close>; the JSON
  text is the list of the bytes of the area that was read, as characters.  A value copied
  into a zero-filled buffer is the list of its characters, with the terminating NUL implicit.
  Decoding into one of the 64-byte buffers is a fault (\<open>None\<close>) when it produces more bytes.
\<close>

section \<open>Strings and Base64\<close>

definition le64r_l :: "u8 list \<Rightarrow> u64" where
  "le64r_l p = fold (\<lambda>i v. push_bit 8 v OR ucast (p ! i)) (rev [0..<8]) 0"

fun streqn :: "string \<Rightarrow> string \<Rightarrow> bool" where
  "streqn a [] = True"
| "streqn [] (b # bs) = False"
| "streqn (a # as) (b # bs) = (if a \<noteq> b then False else streqn as bs)"

text \<open>The text after the first occurrence of \<open>needle\<close>; \<open>None\<close> for the result \<^verbatim>\<open>-1\<close>.\<close>

fun strfind :: "string \<Rightarrow> string \<Rightarrow> string option" where
  "strfind [] needle = (if streqn [] needle then Some [] else None)"
| "strfind (c # hay) needle =
     (if streqn (c # hay) needle then Some (drop (length needle) (c # hay)) else strfind hay needle)"

definition b64_val :: "char \<Rightarrow> int" where
  "b64_val c =
     (if 65 \<le> ord c \<and> ord c \<le> 90 then int (ord c) - 65
      else if 97 \<le> ord c \<and> ord c \<le> 122 then int (ord c) - 97 + 26
      else if 48 \<le> ord c \<and> ord c \<le> 57 then int (ord c) - 48 + 52
      else if c = CHR ''+'' then 62
      else if c = CHR ''/'' then 63
      else -1)"

text \<open>The decoder's loop: the 32-bit accumulator \<^verbatim>\<open>buf\<close> and the number \<^verbatim>\<open>bits\<close> of pending bits.\<close>

fun base64_loop :: "u32 \<Rightarrow> nat \<Rightarrow> string \<Rightarrow> u8 list" where
  "base64_loop buf bits [] = []"
| "base64_loop buf bits (c # src) =
     (let v = b64_val c
      in if v < 0 then base64_loop buf bits src
         else
           let buf = push_bit 6 buf OR word_of_int v; bits = bits + 6
           in if 8 \<le> bits then ucast (drop_bit (bits - 8) buf) # base64_loop buf (bits - 8) src
              else base64_loop buf bits src)"

definition base64_decode :: "string \<Rightarrow> u8 list" where
  "base64_decode src = base64_loop 0 0 src"

section \<open>JSON lookups\<close>

abbreviation json_ws :: "char \<Rightarrow> bool" where
  "json_ws c \<equiv> c \<in> {CHR '' '', TAB, LF, CR}"

abbreviation json_digit :: "char \<Rightarrow> bool" where
  "json_digit c \<equiv> 48 \<le> ord c \<and> ord c \<le> 57"

abbreviation quote :: char where "quote \<equiv> CHR 0x22"

definition json_value :: "string \<Rightarrow> string option" where
  "json_value rest =
     (case dropWhile json_ws rest of
        [] \<Rightarrow> None
      | c # v \<Rightarrow>
          if c = quote then Some (takeWhile (\<lambda>c. c \<noteq> quote) v)
          else if json_digit c then Some (takeWhile json_digit (c # v))
          else None)"

text \<open>The first value in the text that follows \<open>"key":\<close>, wherever it stands.\<close>

definition json_find_key :: "string \<Rightarrow> string \<Rightarrow> string option" where
  "json_find_key j key =
     (case strfind j ([quote] @ key @ [quote, CHR '':'']) of
        None \<Rightarrow> None
      | Some rest \<Rightarrow> json_value rest)"

definition schar :: "char \<Rightarrow> int" where
  "schar c = (if ord c < 128 then int (ord c) else int (ord c) - 256)"

definition json_int :: "string \<Rightarrow> int" where
  "json_int v = foldl (\<lambda>n c. c_int (n * 10 + (schar c - 48))) 0 v"

definition json_get_int :: "string \<Rightarrow> string \<Rightarrow> int" where
  "json_get_int j key = (case json_find_key j key of None \<Rightarrow> 0 | Some v \<Rightarrow> json_int v)"

definition json_get_str :: "string \<Rightarrow> string \<Rightarrow> nat \<Rightarrow> string" where
  "json_get_str j key out_max =
     (case json_find_key j key of None \<Rightarrow> [] | Some v \<Rightarrow> take (out_max - 1) v)"

section \<open>Header and key material\<close>

definition luks2_probe :: "u8 list \<Rightarrow> bool" where
  "luks2_probe buf \<longleftrightarrow>
     (buf ! 0 = 0x4C \<and> buf ! 1 = 0x55 \<and> buf ! 2 = 0x4B \<and> buf ! 3 = 0x53 \<and> buf ! 4 = 0xba \<and> buf ! 5 = 0xbe) \<or>
     (buf ! 0 = 0x53 \<and> buf ! 1 = 0x4B \<and> buf ! 2 = 0x55 \<and> buf ! 3 = 0x4C \<and> buf ! 4 = 0xba \<and> buf ! 5 = 0xbe)"

definition af2_hash_sector :: "int \<Rightarrow> u32 \<Rightarrow> nat \<Rightarrow> u8 list \<Rightarrow> u8 list" where
  "af2_hash_sector hid sector key_bytes data =
     hash_compute hid (take key_bytes data @ u32_to_be sector)"

definition af2_stripe :: "int \<Rightarrow> u8 list \<Rightarrow> u32 \<Rightarrow> nat \<Rightarrow> u8 list \<Rightarrow> u8 list option" where
  "af2_stripe hid split key_bytes s d =
     (let off = unat (of_nat s * key_bytes); kb = unat key_bytes
      in if off + kb \<le> length split then
           let d = af_xor d (drop off split) kb
           in Some (write_at d 0 (af2_hash_sector hid (of_nat s) kb d))
         else None)"

definition af2_merge :: "int \<Rightarrow> u8 list \<Rightarrow> u32 \<Rightarrow> u32 \<Rightarrow> u8 list option" where
  "af2_merge hid split stripes key_bytes = do {
     d \<leftarrow> fold_opt (af2_stripe hid split key_bytes) [0..<unat (stripes - 1)] (replicate 64 0);
     let off = unat ((stripes - 1) * key_bytes);
     if off + unat key_bytes \<le> length split
     then Some (take (unat key_bytes) (af_xor d (drop off split) (unat key_bytes)))
     else None }"

definition LUKS2_KM_BUF :: nat where "LUKS2_KM_BUF = 256 * 512"

record luks2_static =
  s2_enc :: "u8 list"
  s2_dec :: "u8 list"
  s2_dk :: "u8 list"

text \<open>The mode name: what follows the second dash of the cipher specification.\<close>

fun after_dash :: "string \<Rightarrow> string option" where
  "after_dash [] = None"
| "after_dash (c # s) = (if c = NUL then None else if c = CHR ''-'' then Some s else after_dash s)"

definition luks2_cmode :: "string \<Rightarrow> int" where
  "luks2_cmode seg_enc =
     (case after_dash seg_enc of
        None \<Rightarrow> CIPHER_XTS
      | Some s \<Rightarrow> (case after_dash s of None \<Rightarrow> CIPHER_XTS | Some m \<Rightarrow> cipher_mode_id m))"

text \<open>A 64-byte buffer filled by the decoder.\<close>

definition decode64 :: "string \<Rightarrow> u8 list option" where
  "decode64 b64 = (let d = base64_decode b64 in if length d \<le> 64 then Some d else None)"

definition luks2_key_size :: "string \<Rightarrow> int" where
  "luks2_key_size j =
     (let key_size = json_get_int j ''key_size''
      in if key_size \<le> 0 \<or> 64 < key_size then 32 else key_size)"

text \<open>
  The derived key of a slot: \<open>None\<close> is a fault or no return, \<open>Some None\<close> the failure of
  Argon2's allocation, which skips the slot.
\<close>

definition or_default :: "u32 \<Rightarrow> u32 \<Rightarrow> u32" where
  "or_default v d = (if v = 0 then d else v)"

definition luks2_hid :: "string \<Rightarrow> int" where
  "luks2_hid j = (let hid = hash_id (json_get_str j ''hash'' 32) in if hid < 0 then HASH_SHA256 else hid)"

definition luks2_derive :: "(u32 \<Rightarrow> bool) \<Rightarrow> string \<Rightarrow> u8 list \<Rightarrow> u8 list \<Rightarrow> u32 \<Rightarrow> u8 list option option" where
  "luks2_derive alloc j pass salt key_size =
     (let kdf_type = json_get_str j ''type'' 32; u = (\<lambda>k. word_of_int (json_get_int j k) :: u32)
      in if peek kdf_type = CHR ''a'' then
           let a2_type = (if peek (drop 6 kdf_type) = CHR ''d'' then ARGON2_TYPE_ID else ARGON2_TYPE_I)
           in case argon2 alloc pass salt (or_default (u ''time'') 3) (or_default (u ''memory'') 65536)
                     (or_default (u ''cpus'') 4) a2_type key_size of
                ArgonNoMemory \<Rightarrow> Some None
              | ArgonOOB \<Rightarrow> None
              | ArgonOut dk \<Rightarrow> Some (Some dk)
         else
           map_option Some (pbkdf2 (luks2_hid j) pass salt (or_default (u ''iterations'') 100000) key_size))"

text \<open>The decryption loop over the 512-byte chunks of the key material.\<close>

definition xts2_chunk :: "XTS_CTX \<Rightarrow> u8 list \<Rightarrow> nat \<Rightarrow> nat \<Rightarrow> u8 list \<Rightarrow> u8 list" where
  "xts2_chunk xts enc km_size k decb =
     (let off = 512 * k; chunk = min 512 (km_size - off)
      in write_at decb off (xts_crypt xts (of_nat k) (slice enc off (align16 chunk)) True))"

definition xts2_chunks :: "XTS_CTX \<Rightarrow> u8 list \<Rightarrow> nat \<Rightarrow> u8 list \<Rightarrow> u8 list" where
  "xts2_chunks xts enc km_size decb = fold (xts2_chunk xts enc km_size) [0..<(km_size + 511) div 512] decb"

definition luks2_stripes :: "string \<Rightarrow> u32" where
  "luks2_stripes j =
     (let stripes = json_get_int j ''stripes'' in if stripes \<le> 0 then 4000 else word_of_int stripes)"

definition luks2_dig_iters :: "string \<Rightarrow> u32" where
  "luks2_dig_iters j =
     (let n = json_get_int j ''iterations'' in if n \<le> 0 then 100000 else word_of_int n)"

text \<open>Comparison of the PBKDF2 digest of a candidate key with the one in the header.\<close>

definition luks2_verify :: "string \<Rightarrow> u8 list \<Rightarrow> bool option" where
  "luks2_verify j candidate_mk = do {
     dig_salt \<leftarrow> decode64 (json_get_str j ''salt'' 128);
     expected_dig \<leftarrow> decode64 (json_get_str j ''digest'' 128);
     let dsize = hash_digest_size (luks2_hid j);
     computed_dig \<leftarrow> pbkdf2 (luks2_hid j) candidate_mk dig_salt (luks2_dig_iters j) (of_nat dsize);
     Some (computed_dig = take dsize (expected_dig @ replicate (64 - length expected_dig) 0)) }"

section \<open>Unlocking\<close>

definition luks2_key :: "string \<Rightarrow> u8 list \<Rightarrow> luks_key" where
  "luks2_key j mk = \<lparr> lk_key = mk, lk_key_bytes = word_of_int (luks2_key_size j),
     lk_payload_offset = word_of_int (json_get_int j ''offset'') div 512,
     lk_cipher_mode = luks2_cmode (json_get_str j ''encryption'' 64) \<rparr>"

definition luks2_material ::
    "read_fn \<Rightarrow> string \<Rightarrow> luks2_static \<Rightarrow> (luks2_static \<times> luks_key option) option" where
  "luks2_material read_fn j st =
     (let km_offset = json_get_int j ''offset''; km_size = json_get_int j ''size'';
          key_size = word_of_int (luks2_key_size j) :: u32;
          km_secs = ((word_of_int km_size :: u32) + 511) div 512
      in if km_offset \<le> 0 \<or> km_size \<le> 0 then Some (st, None)
      else if unat (km_secs * 512) > LUKS2_KM_BUF then Some (st, None)
      else case read_fn (word_of_int km_offset div 512) (unat km_secs) of
        None \<Rightarrow> Some (st, None)
      | Some km \<Rightarrow> do {
          let st = st\<lparr> s2_enc := write_at (s2_enc st) 0 km \<rparr>;
          xts \<leftarrow> xts_init_at (s2_dk st) (unat key_size * 2);
          let st = st\<lparr> s2_dec := xts2_chunks xts (s2_enc st) (nat km_size) (s2_dec st) \<rparr>;
          candidate_mk \<leftarrow> af2_merge HASH_SHA256 (s2_dec st) (luks2_stripes j) key_size;
          match \<leftarrow> luks2_verify j candidate_mk;
          Some (st, if match then Some (luks2_key j candidate_mk) else None) })"

definition luks2_try_slot ::
    "read_fn \<Rightarrow> (u32 \<Rightarrow> bool) \<Rightarrow> string \<Rightarrow> u8 list \<Rightarrow> luks2_static \<Rightarrow> (luks2_static \<times> luks_key option) option" where
  "luks2_try_slot read_fn alloc j pass st = do {
     salt \<leftarrow> decode64 (json_get_str j ''salt'' 128);
     let salt = (if salt = [] then replicate 32 0 else salt);
     dk \<leftarrow> luks2_derive alloc j pass salt (word_of_int (luks2_key_size j));
     case dk of
       None \<Rightarrow> Some (st, None)
     | Some dk \<Rightarrow> luks2_material read_fn j (st\<lparr> s2_dk := write_at (s2_dk st) 0 dk \<rparr>) }"

text \<open>The loop over the slots; \<open>n\<close> slots are left.  No lookup depends on the slot.\<close>

fun luks2_slots ::
    "read_fn \<Rightarrow> (u32 \<Rightarrow> bool) \<Rightarrow> string \<Rightarrow> u8 list \<Rightarrow> nat \<Rightarrow> luks2_static \<Rightarrow> (luks2_static \<times> luks_key option) option" where
  "luks2_slots read_fn alloc j pass 0 st = Some (st, None)"
| "luks2_slots read_fn alloc j pass (Suc n) st =
     (if json_find_key j ''key_size'' = None then Some (st, None)
      else case luks2_try_slot read_fn alloc j pass st of
        None \<Rightarrow> None
      | Some (st, Some k) \<Rightarrow> Some (st, Some k)
      | Some (st, None) \<Rightarrow> luks2_slots read_fn alloc j pass n st)"

text \<open>The JSON text: its size is cut to 65535 and rounded up to at most 128 sectors.\<close>

definition luks2_json :: "read_fn \<Rightarrow> u8 list \<Rightarrow> string option" where
  "luks2_json read_fn hdr =
     (let json_off = le64r_l (drop 24 hdr);
          json_size = le64r_l (drop 32 hdr);
          json_size = (if json_size > 65535 then 65535 else json_size);
          json_secs = min 128 (unat ((json_size + 511) div 512))
      in map_option (\<lambda>d. take (unat json_size) (chars_at d 0)) (read_fn (json_off div 512) json_secs))"

definition luks2_unlock ::
    "read_fn \<Rightarrow> (u32 \<Rightarrow> bool) \<Rightarrow> u8 list \<Rightarrow> luks2_static \<Rightarrow> (luks2_static \<times> luks_key option) option" where
  "luks2_unlock read_fn alloc pass st =
     (case read_fn 0 8 of
        None \<Rightarrow> Some (st, None)
      | Some hdr \<Rightarrow>
          if \<not> luks2_probe hdr then Some (st, None)
          else case luks2_json read_fn hdr of
            None \<Rightarrow> Some (st, None)
          | Some j \<Rightarrow> luks2_slots read_fn alloc j pass 32 st)"

section \<open>Base64 round trip\<close>

text \<open>The encoder of RFC 4648: groups of 24 bits, four characters each, with padding.\<close>

definition b64_char :: "u32 \<Rightarrow> char" where
  "b64_char v = ''ABCDEFGHIJKLMNOPQRSTUVWXYZabcdefghijklmnopqrstuvwxyz0123456789+/'' ! unat v"

definition b64_group :: "u8 \<Rightarrow> u8 \<Rightarrow> u8 \<Rightarrow> string" where
  "b64_group a b c =
     (let w = push_bit 16 (ucast a) OR push_bit 8 (ucast b) OR ucast c :: u32
      in [b64_char (take_bit 6 (drop_bit 18 w)), b64_char (take_bit 6 (drop_bit 12 w)),
          b64_char (take_bit 6 (drop_bit 6 w)), b64_char (take_bit 6 w)])"

fun b64_encode :: "u8 list \<Rightarrow> string" where
  "b64_encode [] = []"
| "b64_encode [a] = take 2 (b64_group a 0 0) @ ''==''"
| "b64_encode [a, b] = take 3 (b64_group a b 0) @ ''=''"
| "b64_encode (a # b # c # r) = b64_group a b c @ b64_encode r"

lemma b64_val_char:
  assumes "unat v < 64"
  shows "b64_val (b64_char v) = int (unat v)"
proof -
  have "list_all (\<lambda>n. b64_val (''ABCDEFGHIJKLMNOPQRSTUVWXYZabcdefghijklmnopqrstuvwxyz0123456789+/'' ! n) = int n) [0..<64]"
    by code_simp
  then show ?thesis using assms by (simp add: list_all_iff b64_char_def)
qed

lemma base64_loop_char:
  "base64_loop buf bits (b64_char (take_bit 6 v) # src) =
    (let buf = push_bit 6 buf OR take_bit 6 v; bits = bits + 6
     in if 8 \<le> bits then ucast (drop_bit (bits - 8) buf) # base64_loop buf (bits - 8) src
        else base64_loop buf bits src)"
proof -
  have "unat (take_bit 6 v) < 2 ^ 6"
    unfolding unsigned_take_bit_eq by (rule take_bit_nat_less_exp)
  then have "b64_val (b64_char (take_bit 6 v)) = uint (take_bit 6 v)"
    by (simp add: b64_val_char)
  then show ?thesis by (simp add: Let_def)
qed

lemma u8_bit_high: "bit (b :: u8) (8 + n) \<longleftrightarrow> False" "bit (b :: u8) (16 + n) \<longleftrightarrow> False"
  "\<not> n < 2 \<Longrightarrow> Suc (Suc (n - 2)) = n" "\<not> n < 4 \<Longrightarrow> Suc (Suc (Suc (Suc (n - 4)))) = n" "\<not> n < 6 \<Longrightarrow> 6 + (n - 6) = n"
  using bit_imp_le_length[of b "8 + n"] bit_imp_le_length[of b "16 + n"] by auto

lemma group_bytes:
  fixes a b c :: u8 and buf :: u32
  defines "w \<equiv> push_bit 16 (ucast a) OR push_bit 8 (ucast b) OR ucast c"
  defines "b1 \<equiv> push_bit 6 (push_bit 6 buf OR take_bit 6 (drop_bit 18 w)) OR take_bit 6 (drop_bit 12 w)"
  defines "b2 \<equiv> push_bit 6 b1 OR take_bit 6 (drop_bit 6 w)"
  shows "ucast (drop_bit 4 b1) = a" "ucast (drop_bit 2 b2) = b" "ucast (push_bit 6 b2 OR take_bit 6 w) = c"
proof -
  show "ucast (drop_bit 4 b1) = a"
    by (rule bit_word_eqI) (auto simp: bit_simps b1_def w_def u8_bit_high)
  show "ucast (drop_bit 2 b2) = b"
    by (rule bit_word_eqI) (auto simp: bit_simps b1_def b2_def w_def u8_bit_high)
  show "ucast (push_bit 6 b2 OR take_bit 6 w) = c"
    by (rule bit_word_eqI) (auto simp: bit_simps b1_def b2_def w_def u8_bit_high)
qed

lemma base64_loop_steps:
  fixes buf v0 v1 v2 v3 :: u32
  defines "b1 \<equiv> push_bit 6 (push_bit 6 buf OR take_bit 6 v0) OR take_bit 6 v1"
  defines "b2 \<equiv> push_bit 6 b1 OR take_bit 6 v2"
  defines "b3 \<equiv> push_bit 6 b2 OR take_bit 6 v3"
  shows "base64_loop buf 0 (b64_char (take_bit 6 v0) # b64_char (take_bit 6 v1) # src) =
      ucast (drop_bit 4 b1) # base64_loop b1 4 src"
    "base64_loop b1 4 (b64_char (take_bit 6 v2) # src) = ucast (drop_bit 2 b2) # base64_loop b2 2 src"
    "base64_loop b2 2 (b64_char (take_bit 6 v3) # src) = ucast b3 # base64_loop b3 0 src"
  unfolding b3_def b2_def b1_def by (simp_all add: base64_loop_char Let_def del: base64_loop.simps)

lemma base64_loop_pad: "base64_loop buf bits (CHR ''='' # src) = base64_loop buf bits src"
  by (simp add: b64_val_def)

lemma base64_group:
  "\<exists>buf'. base64_loop buf 0 (b64_group a b c @ src) = [a, b, c] @ base64_loop buf' 0 src"
  "base64_loop buf 0 (take 2 (b64_group a b c) @ ''=='') = [a]"
  "base64_loop buf 0 (take 3 (b64_group a b c) @ ''='') = [a, b]"
proof -
  have t: "take 2 [x, y, z, u] = [x, y]" "take 3 [x, y, z, u] = [x, y, z]" for x y z u :: char
    by simp_all
  show "\<exists>buf'. base64_loop buf 0 (b64_group a b c @ src) = [a, b, c] @ base64_loop buf' 0 src"
    unfolding b64_group_def Let_def append.simps base64_loop_steps group_bytes by blast
  show "base64_loop buf 0 (take 2 (b64_group a b c) @ ''=='') = [a]"
    unfolding b64_group_def Let_def t append.simps base64_loop_steps group_bytes base64_loop_pad
    by (simp only: base64_loop.simps)
  show "base64_loop buf 0 (take 3 (b64_group a b c) @ ''='') = [a, b]"
    unfolding b64_group_def Let_def t append.simps base64_loop_steps group_bytes base64_loop_pad
    by (simp only: base64_loop.simps)
qed

lemma base64_loop_encode: "base64_loop buf 0 (b64_encode d) = d"
proof (induction d arbitrary: buf rule: b64_encode.induct)
  case (4 a b c r)
  obtain buf' where "base64_loop buf 0 (b64_group a b c @ b64_encode r) = [a, b, c] @ base64_loop buf' 0 (b64_encode r)"
    using base64_group(1) by blast
  then show ?case using 4 by simp
qed (simp_all add: base64_group)

section \<open>Output length of the decoder\<close>

definition b64_count :: "string \<Rightarrow> nat" where
  "b64_count s = length (filter (\<lambda>c. 0 \<le> b64_val c) s)"

lemma length_base64_loop: "bits < 8 \<Longrightarrow> length (base64_loop buf bits s) = (bits + 6 * b64_count s) div 8"
proof (induction buf bits s rule: base64_loop.induct)
  case (2 buf bits c s)
  let ?v = "b64_val c" and ?b = "push_bit 6 buf OR word_of_int (b64_val c)"
  show ?case
  proof (cases "?v < 0")
    case True
    then show ?thesis using 2(1)[OF refl] 2(4) by (simp add: b64_count_def)
  next
    case False
    show ?thesis
    proof (cases "8 \<le> bits + 6")
      case True
      then have "length (base64_loop ?b (bits + 6 - 8) s) = (bits + 6 - 8 + 6 * b64_count s) div 8"
        using 2(2)[OF refl False refl refl True] 2(4) by simp
      moreover have "(bits + 6 * b64_count (c # s)) div 8 = Suc ((bits + 6 - 8 + 6 * b64_count s) div 8)"
      proof -
        have "bits = bits - 2 + 2" using True by simp
        then obtain b where "bits = b + 2" by blast
        then show ?thesis using False by (simp add: b64_count_def)
      qed
      ultimately show ?thesis using True False by (simp add: Let_def)
    next
      case small: False
      then show ?thesis using 2(3)[OF refl False refl refl small] False
        by (simp add: b64_count_def algebra_simps)
    qed
  qed
qed (simp add: b64_count_def)

lemma length_base64_decode: "length (base64_decode s) = 6 * b64_count s div 8"
  by (simp add: base64_decode_def length_base64_loop)

section \<open>Soundness\<close>

definition key2_verified :: "string \<Rightarrow> luks_key \<Rightarrow> bool" where
  "key2_verified j k \<longleftrightarrow>
     (\<exists>salt dig. base64_decode (json_get_str j ''salt'' 128) = salt \<and>
        base64_decode (json_get_str j ''digest'' 128) = dig \<and> length dig \<le> 64 \<and>
        pbkdf2 (luks2_hid j) (lk_key k) salt (luks2_dig_iters j) (of_nat (hash_digest_size (luks2_hid j))) =
          Some (take (hash_digest_size (luks2_hid j)) (dig @ replicate (64 - length dig) 0))) \<and>
     k = luks2_key j (lk_key k)"

lemma luks2_material_verified:
  "luks2_material read_fn j st = Some (st', Some k) \<Longrightarrow> key2_verified j k"
  by (auto simp: luks2_material_def Let_def key2_verified_def bind_eq_Some_conv luks2_verify_def decode64_def
      luks2_key_def split: if_splits option.splits)

lemma luks2_try_slot_verified:
  "luks2_try_slot read_fn alloc j pass st = Some (st', Some k) \<Longrightarrow> key2_verified j k"
  by (auto simp: luks2_try_slot_def Let_def bind_eq_Some_conv split: if_splits option.splits
      dest: luks2_material_verified)

lemma luks2_slots_verified:
  "luks2_slots read_fn alloc j pass n st = Some (st', Some k) \<Longrightarrow> key2_verified j k"
proof (induction n arbitrary: st)
  case (Suc n)
  then show ?case
    by (auto split: option.splits if_splits dest: luks2_try_slot_verified)
qed simp

section \<open>A sample volume\<close>

definition sample2_pre :: string where
  "sample2_pre = ''{\"key_size\":16,\"type\":\"pbkdf2\",\"salt\":\"AAAA\",\"hash\":\"sha1\",\"iterations\":1,\"size\":16,\"stripes\":1,\"offset\":\"8192\",\"encryption\":\"aes-xts-plain64\",\"sector_size\":512,\"digest\":\"''"

definition sample2_json :: "u8 list \<Rightarrow> string" where
  "sample2_json dg = sample2_pre @ b64_encode dg @ ''\"}''"

definition sample2_hdr :: "u8 list" where
  "sample2_hdr = [0x4C, 0x55, 0x4B, 0x53, 0xba, 0xbe] @ replicate 18 0 @
     [0, 16, 0, 0, 0, 0, 0, 0] @ [201, 0, 0, 0, 0, 0, 0, 0] @ replicate 4056 0"

definition sample2_dev :: "u8 list \<Rightarrow> read_fn" where
  "sample2_dev dg lba n =
     (if lba = 0 \<and> n = 8 then Some sample2_hdr
      else if lba = 8 \<and> n = 1 then
        Some (map (\<lambda>c. of_nat (ord c)) (sample2_json dg) @ replicate (512 - length (sample2_json dg)) 0)
      else Some (replicate (512 * n) 0))"

definition sample2_static :: luks2_static where
  "sample2_static = \<lparr> s2_enc = replicate 131072 0, s2_dec = replicate 131072 0, s2_dk = replicate 64 0 \<rparr>"

lemma b64_char_not_quote: "b64_char (take_bit 6 v) \<noteq> quote"
proof
  assume a: "b64_char (take_bit 6 v) = quote"
  have "unat (take_bit 6 v) < 2 ^ 6"
    unfolding unsigned_take_bit_eq by (rule take_bit_nat_less_exp)
  then have "0 \<le> b64_val (b64_char (take_bit 6 v))" by (simp add: b64_val_char)
  then show False by (simp add: a b64_val_def)
qed

lemma b64_encode_no_quote: "quote \<notin> set (b64_encode d)"
proof -
  have "quote \<notin> set (b64_group a b c)" for a b c
    by (simp add: b64_group_def Let_def b64_char_not_quote[symmetric] del: take_bit_or drop_bit_or)
  then show ?thesis
    by (induction d rule: b64_encode.induct) (auto dest: in_set_takeD)
qed

lemma length_b64_encode: "length (b64_encode d) = 4 * ((length d + 2) div 3)"
proof (induction d rule: b64_encode.induct)
  case (4 a b c r)
  have "(5 + length r) div 3 = Suc ((length r + 2) div 3)" by presburger
  then show ?case using 4 by (simp add: b64_group_def Let_def)
qed (simp_all add: b64_group_def Let_def)

lemma sample2_lookup:
  "json_find_key (sample2_json dg) ''key_size'' = Some ''16''"
  "json_find_key (sample2_json dg) ''type'' = Some ''pbkdf2''"
  "json_find_key (sample2_json dg) ''salt'' = Some ''AAAA''"
  "json_find_key (sample2_json dg) ''hash'' = Some ''sha1''"
  "json_find_key (sample2_json dg) ''iterations'' = Some ''1''"
  "json_find_key (sample2_json dg) ''size'' = Some ''16''"
  "json_find_key (sample2_json dg) ''stripes'' = Some ''1''"
  "json_find_key (sample2_json dg) ''offset'' = Some ''8192''"
  by (simp_all add: json_find_key_def sample2_json_def sample2_pre_def json_value_def)

lemma sample2_digest: "json_find_key (sample2_json dg) ''digest'' = Some (b64_encode dg)"
proof -
  have "takeWhile (\<lambda>c. c \<noteq> quote) (b64_encode dg @ ''\"}'') = b64_encode dg"
    using b64_encode_no_quote[of dg] by (subst takeWhile_append2) auto
  then show ?thesis
    by (simp add: json_find_key_def sample2_json_def sample2_pre_def json_value_def)
qed

lemma sample2_values:
  assumes "length dg = 20"
  shows "luks2_key_size (sample2_json dg) = 16" "luks2_hid (sample2_json dg) = HASH_SHA1"
    "luks2_stripes (sample2_json dg) = 1" "luks2_dig_iters (sample2_json dg) = 1"
    "json_get_int (sample2_json dg) ''offset'' = 8192" "json_get_int (sample2_json dg) ''size'' = 16"
    "decode64 (json_get_str (sample2_json dg) ''salt'' 128) = Some [0, 0, 0]"
    "decode64 (json_get_str (sample2_json dg) ''digest'' 128) = Some dg"
proof -
  have i: "json_int ''16'' = 16" "json_int ''1'' = 1" "json_int ''8192'' = 8192" by code_simp+
  show "luks2_key_size (sample2_json dg) = 16" "luks2_stripes (sample2_json dg) = 1"
    "luks2_dig_iters (sample2_json dg) = 1" "json_get_int (sample2_json dg) ''offset'' = 8192"
    "json_get_int (sample2_json dg) ''size'' = 16"
    by (simp_all add: luks2_key_size_def luks2_stripes_def luks2_dig_iters_def json_get_int_def sample2_lookup i)
  have "hash_id ''sha1'' = HASH_SHA1" by code_simp
  then show "luks2_hid (sample2_json dg) = HASH_SHA1"
    by (simp add: luks2_hid_def json_get_str_def sample2_lookup HASH_SHA1_def)
  have "decode64 ''AAAA'' = Some [0, 0, 0]" by code_simp
  then show "decode64 (json_get_str (sample2_json dg) ''salt'' 128) = Some [0, 0, 0]"
    by (simp add: json_get_str_def sample2_lookup)
  show "decode64 (json_get_str (sample2_json dg) ''digest'' 128) = Some dg"
    using assms by (simp add: json_get_str_def sample2_digest decode64_def length_b64_encode base64_decode_def
        base64_loop_encode)
qed

lemma sample2_read:
  assumes "length dg = 20"
  shows "sample2_dev dg 0 8 = Some sample2_hdr" "luks2_probe sample2_hdr"
    "luks2_json (sample2_dev dg) sample2_hdr = Some (sample2_json dg)"
proof -
  have L: "length (sample2_json dg) = 201"
    using assms by (simp add: sample2_json_def sample2_pre_def length_b64_encode)
  have b: "chars_at (map (\<lambda>c. of_nat (ord c)) t @ r) 0 = t @ chars_at r 0" for t and r :: "u8 list"
  proof (induction t)
    case (Cons c t)
    have "ord c < 256" by (rule nat_of_char_less_256)
    then show ?case using Cons by (simp add: chars_at_def unat_of_nat)
  qed (simp add: chars_at_def)
  show "sample2_dev dg 0 8 = Some sample2_hdr" by (simp add: sample2_dev_def)
  show "luks2_probe sample2_hdr" by (simp add: luks2_probe_def sample2_hdr_def)
  have "le64r_l (drop 24 sample2_hdr) = 4096" "le64r_l (drop 32 sample2_hdr) = 201"
    by (simp_all add: sample2_hdr_def le64r_l_def upt_conv_Cons)
  then show "luks2_json (sample2_dev dg) sample2_hdr = Some (sample2_json dg)"
    by (simp add: luks2_json_def sample2_dev_def b L)
qed

lemma af2_merge_eq: "af2_merge = af_merge"
proof -
  have h: "af2_hash_sector = af_hash_sector"
    by (intro ext) (simp add: af2_hash_sector_def af_hash_sector_def)
  have "af2_stripe = af_stripe" by (intro ext) (simp add: af2_stripe_def af_stripe_def h Let_def)
  then show ?thesis by (intro ext) (simp add: af2_merge_def af_merge_def)
qed

lemma sample2_unlocks:
  "\<exists>dg st' k. length dg = 20 \<and>
     luks2_unlock (sample2_dev dg) (\<lambda>_. True) [] sample2_static = Some (st', Some k)"
proof -
  have known: "known_hash HASH_SHA1" "known_hash HASH_SHA256" by (simp_all add: known_hash_def)
  have salt: "length ([0, 0, 0] :: u8 list) \<le> 508" by simp
  obtain dk where dk: "pbkdf2 HASH_SHA1 [] [0, 0, 0] 1 16 = Some dk" "length dk = 16"
    using pbkdf2_returns[OF known(1) _ salt, of "[]" 1 16] by auto
  let ?key = "write_at (replicate 64 0) 0 dk" and ?enc = "write_at (replicate 131072 0) 0 (replicate 512 (0 :: u8))"
  let ?xts = "xts_init ?key 32 True"
  let ?decb = "xts2_chunks ?xts ?enc 16 (replicate 131072 0)"
  have x: "xts_init_at ?key 32 = Some ?xts" using dk(2) by (simp add: xts_init_at_def length_write_at aes_key_ok_def)
  have ld: "length ?decb = 131072"
    by (simp add: xts2_chunks_def xts2_chunk_def align16_def length_write_at slice_def length_xts_crypt)
  obtain mk where mk: "af2_merge HASH_SHA256 ?decb 1 16 = Some mk" "length mk = 16"
    using af_merge_ok[OF known(2), of 1 16 ?decb] ld by (auto simp: af2_merge_eq)
  obtain dg where dg: "pbkdf2 HASH_SHA1 mk [0, 0, 0] 1 20 = Some dg" "length dg = 20"
    using pbkdf2_returns[OF known(1) _ salt, of mk 1 20] mk(2) by auto
  let ?j = "sample2_json dg"
  have ds: "hash_digest_size HASH_SHA1 = 20" by (simp add: hash_digest_size_def)
  have ver: "luks2_verify ?j mk = Some True"
    using dg by (simp add: luks2_verify_def sample2_values ds)
  have ty: "peek (json_get_str ?j ''type'' 32) \<noteq> CHR ''a''" by (simp add: json_get_str_def sample2_lookup)
  have it: "json_get_int ?j ''iterations'' = 1"
    using sample2_values(4)[OF dg(2)] by (simp add: json_get_int_def sample2_lookup json_int_def schar_def c_int_def)
  have der: "luks2_derive (\<lambda>_. True) ?j [] [0, 0, 0] 16 = Some (Some dk)"
    using dk(1) ty by (simp add: luks2_derive_def sample2_values[OF dg(2)] it or_default_def Let_def)
  have "\<exists>st' k. luks2_try_slot (sample2_dev dg) (\<lambda>_. True) ?j [] sample2_static = Some (st', Some k)"
    using der x mk(1) ver
    by (simp add: luks2_try_slot_def luks2_material_def sample2_values[OF dg(2)] LUKS2_KM_BUF_def sample2_dev_def
        sample2_static_def Let_def)
  then obtain st' k where t: "luks2_try_slot (sample2_dev dg) (\<lambda>_. True) ?j [] sample2_static = Some (st', Some k)"
    by blast
  have n: "(32 :: nat) = Suc 31" by simp
  have s32: "luks2_slots (sample2_dev dg) (\<lambda>_. True) ?j [] 32 sample2_static = Some (st', Some k)"
    unfolding n luks2_slots.simps t sample2_lookup by simp
  have "luks2_unlock (sample2_dev dg) (\<lambda>_. True) [] sample2_static = Some (st', Some k)"
    by (simp add: luks2_unlock_def sample2_read[OF dg(2)] s32)
  then show ?thesis using dg(2) by blast
qed

section \<open>Properties\<close>

lemma after_dash_append:
  "NUL \<notin> set c \<Longrightarrow> CHR ''-'' \<notin> set c \<Longrightarrow> after_dash (c @ CHR ''-'' # s) = Some s"
  by (induction c) auto



text \<open>
  Decoding what the RFC 4648 encoder produced gives the bytes back, for every byte
  sequence and hence every amount of padding.
\<close>

theorem base64_decode_encode: "base64_decode (b64_encode d) = d"
  by (simp add: base64_decode_def base64_loop_encode)

text \<open>
  The decoder writes six bits per alphabet character, whatever else is in the text; so
  a salt value with 87 alphabet characters or more among its first 127 overruns the 64-byte
  buffer on the stack and the slot loop faults.
\<close>

theorem luks2_salt_overflow:
  assumes "json_find_key j ''salt'' = Some v" and "87 \<le> b64_count (take 127 v)"
  shows "length (base64_decode (take 127 v)) = 6 * b64_count (take 127 v) div 8 \<and>
    luks2_try_slot read_fn alloc j pass st = None"
proof -
  have "64 < length (base64_decode (take 127 v))" using assms(2) by (simp add: length_base64_decode)
  then have "decode64 (json_get_str j ''salt'' 128) = None"
    by (simp add: decode64_def json_get_str_def assms(1))
  then show ?thesis by (simp add: luks2_try_slot_def length_base64_decode)
qed

theorem luks2_salt_overflow_witness:
  "json_find_key ([quote] @ ''salt'' @ [quote, CHR '':'', quote] @ replicate 100 (CHR ''A'')) ''salt'' =
     Some (replicate 100 (CHR ''A'')) \<and>
   luks2_try_slot (\<lambda>_ _. None) (\<lambda>_. True) ([quote] @ ''salt'' @ [quote, CHR '':'', quote] @ replicate 100 (CHR ''A''))
     [] \<lparr> s2_enc = [], s2_dec = [], s2_dk = [] \<rparr> = None"
proof -
  let ?v = "replicate 100 (CHR ''A'')"
  have tw: "takeWhile (\<lambda>c. c \<noteq> quote) ?v = ?v" by (rule takeWhile_eq_all_conv[THEN iffD2]) simp
  have f: "json_find_key ([quote] @ ''salt'' @ [quote, CHR '':'', quote] @ ?v) ''salt'' = Some ?v"
    using tw by (simp add: json_find_key_def json_value_def del: replicate.simps)
  have c: "87 \<le> b64_count (take 127 ?v)"
    by (simp add: b64_count_def b64_val_def)
  show ?thesis using f luks2_salt_overflow[OF f c] by blast
qed

text \<open>
  The cipher mode is read after the second dash of the specification, that is from the
  name of the IV generator: for every specification \<open>cipher-mode-iv\<close> with the usual IV
  generators the volume is taken to be XTS, also when the mode is CBC.
\<close>

theorem luks2_mode_always_xts:
  assumes "NUL \<notin> set c" and "CHR ''-'' \<notin> set c" and "NUL \<notin> set m" and "CHR ''-'' \<notin> set m"
    and "iv \<in> {''plain'', ''plain64'', ''essiv:sha256''}"
  shows "luks2_cmode (c @ ''-'' @ m @ ''-'' @ iv) = CIPHER_XTS"
proof -
  have "luks2_cmode (c @ ''-'' @ m @ ''-'' @ iv) = cipher_mode_id iv"
    using after_dash_append[OF assms(1,2)] after_dash_append[OF assms(3,4)] by (simp add: luks2_cmode_def)
  then show ?thesis using assms(5) by (auto simp: cipher_mode_id_def)
qed

theorem luks2_mode_always_xts_witness: "luks2_cmode ''aes-cbc-essiv:sha256'' = CIPHER_XTS"
  using luks2_mode_always_xts[of "''aes''" "''cbc''" "''essiv:sha256''"] by simp

end
