(* ===== verification/Luks_Vol.thy ===== *)
theory Luks_Vol
  imports Luks2
begin

text \<open>
  The unlocked volume, \<^verbatim>\<open>src/luks/luks_vol.c\<close>.  The device is the \<open>read_fn\<close> of \<open>Luks1\<close>.
  Outermost \<open>None\<close> is an access outside a buffer.  Uninitialised stack memory that the
  code reads is a parameter: \<open>enc_buf\<close> of \<^verbatim>\<open>luks_vol_read\<close> and the 64 bytes \<open>mk_stack\<close> of
  \<^verbatim>\<open>master_key\<close> in \<^verbatim>\<open>luks_open\<close>.

  The locale \<open>disk_cipher\<close> is what reading relies on (a sector decryption that undoes a
  sector encryption); the read loop is proved once in it and both cipher modes provide it.
\<close>

section \<open>The volume\<close>

record LuksVol =
  lv_read_fn :: read_fn
  lv_payload_lba :: u64
  lv_sector_size :: u32
  lv_cipher_mode :: int
  lv_xts :: XTS_CTX
  lv_cbc :: CBC_CTX
  lv_decrypt_buf :: "u8 list"

definition zero_aes :: AES_CTX where
  "zero_aes = \<lparr> aes_rk = replicate 60 0, aes_nr = 0 \<rparr>"

text \<open>A volume of zero bytes, as after the clearing loops of open and close.\<close>

definition zero_vol :: LuksVol where
  "zero_vol = \<lparr> lv_read_fn = (\<lambda>_ _. None), lv_payload_lba = 0, lv_sector_size = 0, lv_cipher_mode = 0,
     lv_xts = \<lparr> xts_data_ctx = zero_aes, xts_tweak_ctx = zero_aes \<rparr>,
     lv_cbc = \<lparr> cbc_enc_ctx = zero_aes, cbc_dec_ctx = zero_aes, cbc_mode = 0, cbc_essiv_ctx = zero_aes \<rparr>,
     lv_decrypt_buf = replicate 4096 0 \<rparr>"

text \<open>\<open>mem_ok\<close> says whether the allocation succeeds; \<open>Some None\<close> is \<^verbatim>\<open>NULL\<close>.\<close>

definition luks_vol_open ::
    "bool \<Rightarrow> read_fn \<Rightarrow> u8 list \<Rightarrow> u32 \<Rightarrow> u64 \<Rightarrow> int \<Rightarrow> u32 \<Rightarrow> LuksVol option option" where
  "luks_vol_open mem_ok read_fn master_key key_bytes payload_offset cipher_mode sector_size =
     (if \<not> mem_ok then Some None
      else
        let v = zero_vol\<lparr> lv_read_fn := read_fn, lv_payload_lba := payload_offset,
              lv_sector_size := (if sector_size \<ge> 512 then sector_size else 512),
              lv_cipher_mode := cipher_mode \<rparr>
        in if cipher_mode = CIPHER_XTS then
             map_option (\<lambda>x. Some (v\<lparr> lv_xts := x \<rparr>)) (xts_init_at master_key (unat (key_bytes * 2)))
           else if unat key_bytes \<le> length master_key \<and> aes_key_ok (unat key_bytes) then
             Some (Some (v\<lparr> lv_cbc := cbc_init (lv_cbc v) master_key (unat key_bytes) cipher_mode
               (Some (master_key, unat key_bytes)) \<rparr>))
           else None)"

definition luks_vol_close :: "LuksVol \<Rightarrow> LuksVol" where
  "luks_vol_close vol = zero_vol"

section \<open>Reading\<close>

definition vol_decrypt :: "LuksVol \<Rightarrow> u64 \<Rightarrow> u8 list \<Rightarrow> u8 list" where
  "vol_decrypt vol payload_sec enc =
     (if lv_cipher_mode vol = CIPHER_XTS then xts_crypt (lv_xts vol) payload_sec enc True
      else cbc_decrypt_sector (lv_cbc vol) payload_sec enc)"

definition secs_per_payload :: "LuksVol \<Rightarrow> nat" where
  "secs_per_payload vol = max 1 (unat (lv_sector_size vol) div 512)"

text \<open>
  \<open>count\<close> sectors are left.  The result holds the volume (its scratch buffer changes) and
  the bytes stored, or \<open>None\<close> for the return value \<open>-1\<close>.
\<close>

function luks_vol_read_loop ::
    "LuksVol \<Rightarrow> u8 list \<Rightarrow> u64 \<Rightarrow> nat \<Rightarrow> (LuksVol \<times> u8 list option) option" where
  "luks_vol_read_loop vol enc_buf lba count =
     (if count = 0 then Some (vol, Some [])
      else
        let spp = secs_per_payload vol;
            payload_sec = of_nat (unat lba div spp);
            sec_off = unat lba mod spp;
            device_lba = lv_payload_lba vol + payload_sec * of_nat spp;
            dev_secs = min spp 8
        in case lv_read_fn vol device_lba dev_secs of
             None \<Rightarrow> Some (vol, None)
           | Some d \<Rightarrow>
               if unat (lv_sector_size vol) > 4096 then None
               else
                 let enc_buf = write_at enc_buf 0 d;
                     out = vol_decrypt vol payload_sec (take (unat (lv_sector_size vol)) enc_buf);
                     vol = vol\<lparr> lv_decrypt_buf := write_at (lv_decrypt_buf vol) 0 out \<rparr>;
                     copy = min count (spp - sec_off);
                     bytes = slice (lv_decrypt_buf vol) (sec_off * 512) (copy * 512)
                 in map_option (\<lambda>(vol, r). (vol, map_option (\<lambda>bs. bytes @ bs) r))
                      (luks_vol_read_loop vol enc_buf (lba + of_nat copy) (count - copy)))"
  by pat_completeness auto
termination
proof (relation "measure (\<lambda>(_, _, _, c). c)", goal_cases)
  case (2 vol enc lba count spp ps off dl ds d eb out vol' copy bytes)
  have "off < spp" unfolding 2(2,4) secs_per_payload_def by simp
  then have "0 < copy" using 2(1) unfolding 2(12) by simp
  then show ?case using 2(1) by simp
qed simp

declare luks_vol_read_loop.simps [simp del]

definition luks_vol_read ::
    "u8 list \<Rightarrow> LuksVol \<Rightarrow> u64 \<Rightarrow> u32 \<Rightarrow> (LuksVol \<times> u8 list option) option" where
  "luks_vol_read enc_buf vol lba count = luks_vol_read_loop vol enc_buf lba (unat count)"

section \<open>Opening\<close>

text \<open>\<open>cbc_stack\<close> is as in \<open>Luks1\<close>, \<open>alloc\<close> Argon2's allocator.\<close>

definition luks_open ::
    "bool \<Rightarrow> (u32 \<Rightarrow> bool) \<Rightarrow> u8 list \<Rightarrow> CBC_CTX \<Rightarrow> read_fn \<Rightarrow> u8 list \<Rightarrow> luks1_static \<Rightarrow> luks2_static \<Rightarrow>
     (luks1_static \<times> luks2_static \<times> LuksVol option) option" where
  "luks_open mem_ok alloc mk_stack cbc_stack read_fn pass st1 st2 =
     (case read_fn 0 8 of
        None \<Rightarrow> Some (st1, st2, None)
      | Some probe \<Rightarrow> do {
          (st1, st2, k) \<leftarrow>
            (if luks2_probe probe then
               map_option (\<lambda>(st2, k). (st1, st2, k)) (luks2_unlock read_fn alloc pass st2)
             else if luks1_probe probe then
               map_option (\<lambda>(st1, k). (st1, st2, k)) (luks1_unlock read_fn cbc_stack pass st1)
             else Some (st1, st2, None));
          case k of
            None \<Rightarrow> Some (st1, st2, None)
          | Some k \<Rightarrow> do {
              vol \<leftarrow> luks_vol_open mem_ok read_fn (write_at mk_stack 0 (lk_key k)) (lk_key_bytes k)
                       (lk_payload_offset k) (lk_cipher_mode k) 512;
              Some (st1, st2, vol) } })"

text \<open>
  The adapter to the firmware's block I/O protocol: \<open>read_blocks media_id lba size\<close> gives
  the bytes read, or \<open>None\<close> when the status is not 0.
\<close>

type_synonym read_blocks = "u32 \<Rightarrow> u64 \<Rightarrow> u32 \<Rightarrow> u8 list option"

definition efi_bio_read :: "read_blocks \<Rightarrow> u32 \<Rightarrow> read_fn" where
  "efi_bio_read bio media_id lba count = bio media_id lba (of_nat count * 512)"

definition luks_open_efi ::
    "bool \<Rightarrow> (u32 \<Rightarrow> bool) \<Rightarrow> u8 list \<Rightarrow> CBC_CTX \<Rightarrow> read_blocks \<Rightarrow> u32 \<Rightarrow> u8 list \<Rightarrow> luks1_static \<Rightarrow> luks2_static \<Rightarrow>
     (luks1_static \<times> luks2_static \<times> LuksVol option) option" where
  "luks_open_efi mem_ok alloc mk_stack cbc_stack bio media_id pass st1 st2 =
     luks_open mem_ok alloc mk_stack cbc_stack (efi_bio_read bio media_id) pass st1 st2"

section \<open>Reading returns the plaintext\<close>

text \<open>The 512-byte sector \<open>s\<close> of a payload whose payload sectors are \<open>P 0, P 1, \<dots>\<close>\<close>

definition plain_sector :: "(nat \<Rightarrow> u8 list) \<Rightarrow> nat \<Rightarrow> nat \<Rightarrow> u8 list" where
  "plain_sector P spp s = slice (P (s div spp)) (s mod spp * 512) 512"

text \<open>A device that holds the encrypted payload sectors below \<open>N\<close>.\<close>

definition holds_payload :: "LuksVol \<Rightarrow> (u64 \<Rightarrow> u8 list \<Rightarrow> u8 list) \<Rightarrow> (nat \<Rightarrow> u8 list) \<Rightarrow> nat \<Rightarrow> bool" where
  "holds_payload vol enc P N \<longleftrightarrow>
     (\<forall>p<N. length (P p) = 512 * secs_per_payload vol \<and>
        lv_read_fn vol (lv_payload_lba vol + of_nat p * of_nat (secs_per_payload vol)) (secs_per_payload vol) =
          Some (enc (of_nat p) (P p)))"

lemma slice_blocks:
  "slice xs (i * 512) (c * 512) = concat (map (\<lambda>s. slice xs (s * 512) 512) [i..<i + c])"
proof (induction c)
  case (Suc c)
  have "slice xs (i * 512) (Suc c * 512) = slice xs (i * 512) (c * 512) @ slice xs ((i + c) * 512) 512"
  proof -
    have n: "Suc c * 512 = c * 512 + 512" "(i + c) * 512 = c * 512 + i * 512" by simp_all
    show ?thesis unfolding slice_def n take_add drop_drop ..
  qed
  then show ?case using Suc by simp
qed (simp add: slice_def)

lemma plain_sectors_within:
  assumes "k + c \<le> spp"
  shows "concat (map (plain_sector P spp) [p * spp + k..<p * spp + k + c]) = slice (P p) (k * 512) (c * 512)"
proof -
  have "map (plain_sector P spp) [p * spp + k..<p * spp + k + c] = map (\<lambda>s. slice (P p) (s * 512) 512) [k..<k + c]"
    using assms by (intro nth_equalityI) (simp_all add: plain_sector_def add.assoc)
  then show ?thesis by (simp add: slice_blocks)
qed

locale disk_cipher =
  fixes decrypt :: "u64 \<Rightarrow> u8 list \<Rightarrow> u8 list" and encrypt :: "u64 \<Rightarrow> u8 list \<Rightarrow> u8 list"
  assumes decrypt_encrypt: "length p mod 16 = 0 \<Longrightarrow> decrypt s (encrypt s p) = p"
    and length_encrypt: "length p mod 16 = 0 \<Longrightarrow> length (encrypt s p) = length p"
begin

lemma read_loop_plain:
  assumes "vol_decrypt vol = decrypt" and "unat (lv_sector_size vol) = 512 * secs_per_payload vol"
    and "secs_per_payload vol \<le> 8" and "holds_payload vol encrypt P N"
    and "unat lba + count \<le> N * secs_per_payload vol" and "N * secs_per_payload vol < 2 ^ 64"
    and "length enc_buf = 4096" and "length (lv_decrypt_buf vol) = 4096"
  shows "\<exists>b. length b = 4096 \<and> luks_vol_read_loop vol enc_buf lba count = Some (vol\<lparr> lv_decrypt_buf := b \<rparr>,
    Some (concat (map (plain_sector P (secs_per_payload vol)) [unat lba..<unat lba + count])))"
  using assms
proof (induction count arbitrary: vol enc_buf lba rule: less_induct)
  case (less count)
  show ?case
  proof (cases "count = 0")
    case False
    let ?spp = "secs_per_payload vol" and ?l = "unat lba"
    let ?p = "?l div ?spp" and ?o = "?l mod ?spp"
    let ?c = "min count (?spp - ?o)"
    have spp: "0 < ?spp" by (simp add: secs_per_payload_def)
    have o: "?o < ?spp" using spp by simp
    have p: "?p < N"
    proof -
      have "?l < N * ?spp" using less.prems(5) False by linarith
      then show ?thesis by (simp add: less_mult_imp_div_less)
    qed
    let ?e = "encrypt (of_nat ?p) (P ?p)"
    have rd: "lv_read_fn vol (lv_payload_lba vol + of_nat ?p * of_nat ?spp) ?spp = Some ?e"
      and lP: "length (P ?p) = 512 * ?spp"
      using less.prems(4) p unfolding holds_payload_def by blast+
    have m16: "length (P ?p) mod 16 = 0" unfolding lP by presburger
    have le: "length ?e = 512 * ?spp" using length_encrypt[OF m16] lP by simp
    let ?eb = "write_at enc_buf 0 ?e"
    have tk: "take (512 * ?spp) ?eb = ?e" using le by (simp add: write_at_def)
    have out: "vol_decrypt vol (of_nat ?p) (take (512 * ?spp) ?eb) = P ?p"
      using less.prems(1) decrypt_encrypt[OF m16] tk by simp
    let ?v = "vol\<lparr> lv_decrypt_buf := write_at (lv_decrypt_buf vol) 0 (P ?p) \<rparr>"
    have c: "0 < ?c" "?o + ?c \<le> ?spp" using False o by auto
    have bytes: "slice (lv_decrypt_buf ?v) (?o * 512) (?c * 512) = slice (P ?p) (?o * 512) (?c * 512)"
      using c(2) lP by (simp add: write_at_def slice_append_left)
    have l': "unat (lba + of_nat ?c) = ?l + ?c"
    proof -
      have "?l + ?c < 2 ^ 64" using less.prems(5,6) by linarith
      then show ?thesis by (simp add: unat_word_ariths unat_of_nat)
    qed
    have same: "secs_per_payload ?v = ?spp" "vol_decrypt ?v = vol_decrypt vol"
      by (simp_all add: secs_per_payload_def vol_decrypt_def fun_eq_iff)
    have hp: "holds_payload ?v encrypt P N"
      using less.prems(4) unfolding holds_payload_def same(1) by simp
    obtain b where b: "length b = 4096" and ih: "luks_vol_read_loop ?v ?eb (lba + of_nat ?c) (count - ?c) =
        Some (?v\<lparr> lv_decrypt_buf := b \<rparr>, Some (concat (map (plain_sector P ?spp) [?l + ?c..<?l + count])))"
    proof -
      have cc: "?l + ?c + (count - ?c) = ?l + count" by simp
      have lt: "count - ?c < count" using False c(1) by simp
      have ss: "unat (lv_sector_size ?v) = 512 * ?spp" using less.prems(2) by simp
      have lens: "length ?eb = 4096" "length (lv_decrypt_buf ?v) = 4096"
        using le lP less.prems(3,7,8) by (simp_all add: length_write_at)
      show ?thesis
        using less.IH[of "count - ?c" ?v "lba + of_nat ?c" ?eb, unfolded same l' cc,
            OF lt less.prems(1) ss less.prems(3) hp less.prems(5,6) lens] that by blast
    qed
    have split: "[?l..<?l + count] = [?l..<?l + ?c] @ [?l + ?c..<?l + count]"
      using upt_add_eq_append[of ?l "?l + ?c" "count - ?c"] by simp
    have fst: "concat (map (plain_sector P ?spp) [?l..<?l + ?c]) = slice (P ?p) (?o * 512) (?c * 512)"
      using plain_sectors_within[OF c(2), of P ?p] by (simp add: div_mult_mod_eq)
    have "luks_vol_read_loop vol enc_buf lba count = Some (vol\<lparr> lv_decrypt_buf := b \<rparr>, Some (slice (P ?p) (?o * 512) (?c * 512)
        @ concat (map (plain_sector P ?spp) [?l + ?c..<?l + count])))"
      using less.prems(2,3) False rd
      by (subst luks_vol_read_loop.simps) (simp add: Let_def min_absorb1 out bytes[simplified] ih)
    then show ?thesis using b unfolding split map_append concat_append fst by blast
  next
    case True
    then show ?thesis using less.prems(8) by (subst luks_vol_read_loop.simps) (auto intro: exI[of _ "lv_decrypt_buf vol"])
  qed
qed

end

section \<open>Both cipher modes\<close>

text \<open>The encryption that a volume opened with \<open>mk\<close> and \<open>kb\<close> undoes.\<close>

definition vol_cbc :: "u8 list \<Rightarrow> u32 \<Rightarrow> int \<Rightarrow> CBC_CTX" where
  "vol_cbc mk kb mode = cbc_init (lv_cbc zero_vol) mk (unat kb) mode (Some (mk, unat kb))"

definition vol_encrypt :: "u8 list \<Rightarrow> u32 \<Rightarrow> int \<Rightarrow> u64 \<Rightarrow> u8 list \<Rightarrow> u8 list" where
  "vol_encrypt mk kb mode s p =
     (if mode = CIPHER_XTS then xts_crypt (xts_init mk (unat (kb * 2)) False) s p False
      else cbc_encrypt_blocks (aes_encrypt_block (cbc_enc_ctx (vol_cbc mk kb mode)))
             (make_cbc_iv (vol_cbc mk kb mode) s) p)"

definition vol_decrypts :: "u8 list \<Rightarrow> u32 \<Rightarrow> int \<Rightarrow> u64 \<Rightarrow> u8 list \<Rightarrow> u8 list" where
  "vol_decrypts mk kb mode s e =
     (if mode = CIPHER_XTS then xts_crypt (xts_init mk (unat (kb * 2)) True) s e True
      else cbc_decrypt_sector (vol_cbc mk kb mode) s e)"

lemma length_cbc_encrypt_blocks:
  assumes "\<And>b. length b = 16 \<Longrightarrow> length (enc b) = 16" and "length iv = 16" and "length inp mod 16 = 0"
  shows "length (cbc_encrypt_blocks enc iv inp) = length inp"
  using assms(2,3)
proof (induction "length inp" arbitrary: iv inp rule: less_induct)
  case less
  show ?case
  proof (cases "16 \<le> length inp")
    case True
    let ?c = "enc (xor_bytes (take 16 inp) iv)"
    have c: "length ?c = 16" using assms(1) less.prems(1) True by simp
    then have "length (cbc_encrypt_blocks enc ?c (drop 16 inp)) = length inp - 16"
      using less.hyps[of "drop 16 inp" ?c] less.prems True by (simp add: le_mod_geq)
    then show ?thesis using c True by (subst cbc_encrypt_blocks.simps) (simp add: Let_def)
  next
    case False
    then show ?thesis using less.prems(2) by (subst cbc_encrypt_blocks.simps) simp
  qed
qed

interpretation luks_disk: disk_cipher "vol_decrypts mk kb mode" "vol_encrypt mk kb mode" for mk kb mode
proof unfold_locales
  fix p :: "u8 list" and s
  assume p: "length p mod 16 = 0"
  show "vol_decrypts mk kb mode s (vol_encrypt mk kb mode s p) = p"
    using p by (simp add: vol_decrypts_def vol_encrypt_def xts_crypt_inverse cbc_crypt_inverse[OF _ vol_cbc_def])
  show "length (vol_encrypt mk kb mode s p) = length p"
    using p by (auto simp: vol_encrypt_def length_xts_crypt length_aes length_cbc_iv intro!: length_cbc_encrypt_blocks)
qed

lemma luks_vol_open_fields:
  assumes "luks_vol_open True read_fn mk kb off mode ss = Some (Some vol)"
  shows "lv_read_fn vol = read_fn" "lv_payload_lba vol = off" "lv_cipher_mode vol = mode"
    "lv_sector_size vol = (if ss \<ge> 512 then ss else 512)" "length (lv_decrypt_buf vol) = 4096"
    "vol_decrypt vol = vol_decrypts mk kb mode"
  using assms
  by (auto simp: luks_vol_open_def zero_vol_def Let_def vol_decrypt_def vol_decrypts_def xts_init_at_def vol_cbc_def
      fun_eq_iff split: if_splits)

lemma secs_per_payload_whole:
  assumes "lv_sector_size vol = ss" and "512 dvd unat ss" and "512 \<le> unat ss" and "unat ss \<le> 4096"
  shows "unat (lv_sector_size vol) = 512 * secs_per_payload vol" "secs_per_payload vol \<le> 8"
  using assms by (auto simp: secs_per_payload_def)

section \<open>Properties\<close>



text \<open>
  C36. The probe for LUKS2 also accepts the LUKS1 magic and is tried first, so \<^verbatim>\<open>luks_open\<close>
  never reaches the LUKS1 code: its outcome does not depend on the LUKS1 buffers, which it
  leaves as they were, and a volume is returned only for a key that LUKS2 unlocking found.
\<close>

theorem luks_open_never_luks1:
  "luks_open mem_ok alloc mk_stack cbc_stack read_fn pass st1 st2 =
    map_option (\<lambda>(st2, v). (st1, st2, v))
      (case luks2_unlock read_fn alloc pass st2 of
         None \<Rightarrow> None
       | Some (st2', None) \<Rightarrow> Some (st2', None)
       | Some (st2', Some k) \<Rightarrow> map_option (\<lambda>v. (st2', v))
           (luks_vol_open mem_ok read_fn (write_at mk_stack 0 (lk_key k)) (lk_key_bytes k)
              (lk_payload_offset k) (lk_cipher_mode k) 512))"
proof (cases "read_fn 0 8")
  case None
  then show ?thesis by (simp add: luks_open_def luks2_unlock_def)
next
  case (Some probe)
  show ?thesis
  proof (cases "luks2_probe probe")
    case True
    then show ?thesis using Some
      by (auto simp: luks_open_def map_option_case split: option.splits)
  next
    case False
    then have "\<not> luks1_probe probe" by (simp add: luks1_probe_def luks2_probe_def)
    then show ?thesis using Some False by (simp add: luks_open_def luks2_unlock_def)
  qed
qed

text \<open>
  C37. For an XTS volume the second half of the cipher key is never taken from the master
  key: \<^verbatim>\<open>luks_vol_open\<close> doubles the key length, so the tweak key consists of the bytes
  behind the master key in the caller's buffer, which \<^verbatim>\<open>luks_open\<close> does not initialise, and
  a 64-byte master key makes it read outside the buffer.
\<close>

theorem luks_open_tweak_key:
  assumes "length mk_stack = 64" and "length key = unat kb" and "unat kb \<le> 64"
  shows "case luks_vol_open True read_fn (write_at mk_stack 0 key) kb off CIPHER_XTS 512 of
      None \<Rightarrow> 32 < unat kb \<or> \<not> aes_key_ok (unat kb)
    | Some v \<Rightarrow> unat kb \<le> 32 \<and>
        map_option (\<lambda>v. xts_tweak_ctx (lv_xts v)) v = Some (aes_init_enc (drop (unat kb) mk_stack) (unat kb))"
proof -
  have "unat (kb * 2) = unat kb * 2" using assms(3) by (simp add: unat_word_ariths)
  then show ?thesis
    using assms by (auto simp: luks_vol_open_def xts_init_at_def xts_init_def Let_def length_write_at write_at_def)
qed

theorem luks_open_tweak_key_witness:
  "map_option (map_option (\<lambda>v. xts_tweak_ctx (lv_xts v)))
     (luks_vol_open True (\<lambda>_ _. None) (write_at (replicate 64 7) 0 (replicate 16 1)) 16 8 CIPHER_XTS 512) =
   Some (Some (aes_init_enc (replicate 48 7) 16))"
  using luks_open_tweak_key[of "replicate 64 7" "replicate 16 1" 16 "\<lambda>_ _. None" 8]
  by (auto simp: aes_key_ok_def split: option.splits)

end
