(* ===== verification/Ext4.thy ===== *)
theory Ext4
  imports Luks_Vol
begin

text \<open>
  The EXT4 reader of \<^verbatim>\<open>src/uefi/ext4.c\<close>.  A volume reads through one of three backends: the byte
  granular DiskIO protocol, whole blocks of BlockIO, or an opened LUKS volume.  The firmware's
  reads are parameters of the volume record; \<open>en_alloc\<close> says which allocations succeed and
  \<open>en_stack\<close> and \<open>en_pool\<close> are the uninitialised stack buffer of \<^verbatim>\<open>luks_vol_read\<close> and the contents
  of fresh pool memory.

  The outermost \<open>None\<close> of a result is a fault: a load outside a buffer or a division by zero.  A
  read that reports an error is an inner \<open>None\<close>.  The pair of block buffers is one list, as it is
  one allocation in the code, so a name that runs over the end of the first block continues in
  the second.
\<close>

section \<open>Constants and fields\<close>

definition EXT4_SUPER_MAGIC :: u16 where "EXT4_SUPER_MAGIC = 0xEF53"
definition EXT4_SUPERBLOCK_OFFSET :: u64 where "EXT4_SUPERBLOCK_OFFSET = 1024"
definition EXT4_ROOT_INO :: u32 where "EXT4_ROOT_INO = 2"
definition EXT4_EXTENTS_FL :: u32 where "EXT4_EXTENTS_FL = 0x00080000"
definition EXT4_EXTENT_HEADER_MAGIC :: u16 where "EXT4_EXTENT_HEADER_MAGIC = 0xF30A"
definition EXT4_FT_DIR :: u8 where "EXT4_FT_DIR = 2"
definition EXT4_FEATURE_INCOMPAT_64BIT :: u32 where "EXT4_FEATURE_INCOMPAT_64BIT = 0x0080"

abbreviation (input) SB_FIRST_DATA_BLOCK :: nat where "SB_FIRST_DATA_BLOCK \<equiv> 20"
abbreviation (input) SB_LOG_BLOCK_SIZE :: nat where "SB_LOG_BLOCK_SIZE \<equiv> 24"
abbreviation (input) SB_INODES_PER_GROUP :: nat where "SB_INODES_PER_GROUP \<equiv> 40"
abbreviation (input) SB_MAGIC :: nat where "SB_MAGIC \<equiv> 56"
abbreviation (input) SB_INODE_SIZE :: nat where "SB_INODE_SIZE \<equiv> 88"
abbreviation (input) SB_FEATURE_INCOMPAT :: nat where "SB_FEATURE_INCOMPAT \<equiv> 96"
abbreviation (input) SB_DESC_SIZE :: nat where "SB_DESC_SIZE \<equiv> 254"
abbreviation (input) BGD_INODE_TABLE_LO :: nat where "BGD_INODE_TABLE_LO \<equiv> 8"
abbreviation (input) BGD_INODE_TABLE_HI :: nat where "BGD_INODE_TABLE_HI \<equiv> 40"
abbreviation (input) IN_SIZE_LO :: nat where "IN_SIZE_LO \<equiv> 4"
abbreviation (input) IN_FLAGS :: nat where "IN_FLAGS \<equiv> 32"
abbreviation (input) IN_BLOCK :: nat where "IN_BLOCK \<equiv> 40"
abbreviation (input) IN_SIZE_HIGH :: nat where "IN_SIZE_HIGH \<equiv> 108"

definition r8 :: "u8 list \<Rightarrow> nat \<Rightarrow> u8 option" where
  "r8 p off = (if off < length p then Some (p ! off) else None)"

definition r16 :: "u8 list \<Rightarrow> nat \<Rightarrow> u16 option" where
  "r16 p off = (if off + 2 \<le> length p then Some (u16_of_le (drop off p)) else None)"

definition r32 :: "u8 list \<Rightarrow> nat \<Rightarrow> u32 option" where
  "r32 p off = (if off + 4 \<le> length p then Some (u32_of_le (drop off p)) else None)"

text \<open>Storing \<open>bs\<close> at \<open>off\<close>.\<close>

definition put :: "u8 list \<Rightarrow> nat \<Rightarrow> u8 list \<Rightarrow> u8 list option" where
  "put buf off bs = (if off + length bs \<le> length buf then Some (write_at buf off bs) else None)"

section \<open>Volumes\<close>

type_synonym read_proto = "u32 \<Rightarrow> u64 \<Rightarrow> u64 \<Rightarrow> u8 list option"

record Ext4Vol =
  v_dio :: "read_proto option"
  v_bio :: read_proto
  v_media_id :: u32
  v_phys_blk_sz :: u32
  v_block_size :: u32
  v_inodes_per_group :: u32
  v_inode_size :: u32
  v_first_data_block :: u32
  v_bgdt_off :: u64
  v_desc_size :: u32
  v_part_handle :: "nat option"
  v_luks :: "LuksVol option"

record ext4_env =
  en_alloc :: "u64 \<Rightarrow> bool"
  en_stack :: "u8 list"
  en_pool :: "nat \<Rightarrow> u8"

text \<open>The bytes copied out of a buffer that was read.\<close>

definition copy_out :: "u8 list \<Rightarrow> u64 \<Rightarrow> u64 \<Rightarrow> u8 list option" where
  "copy_out tmp src_off n = (if unat src_off + unat n \<le> length tmp then Some (slice tmp (unat src_off) (unat n)) else None)"

definition read_luks :: "ext4_env \<Rightarrow> Ext4Vol \<Rightarrow> LuksVol \<Rightarrow> u64 \<Rightarrow> u64 \<Rightarrow> (Ext4Vol \<times> u8 list option) option" where
  "read_luks env v lv byte_off byte_count =
     (let first_sec = byte_off div 512;
          last_sec = (byte_off + byte_count - 1) div 512;
          nsecs = last_sec - first_sec + 1;
          total = nsecs * 512
      in if \<not> en_alloc env total then Some (v, None)
         else do {
           (lv, r) \<leftarrow> luks_vol_read (en_stack env) lv first_sec (ucast nsecs);
           let v = v\<lparr> v_luks := Some lv \<rparr>;
           case r of
             None \<Rightarrow> Some (v, None)
           | Some tmp \<Rightarrow> do { d \<leftarrow> copy_out tmp (byte_off - first_sec * 512) byte_count; Some (v, Some d) } })"

definition read_bio :: "ext4_env \<Rightarrow> Ext4Vol \<Rightarrow> u64 \<Rightarrow> u64 \<Rightarrow> (Ext4Vol \<times> u8 list option) option" where
  "read_bio env v byte_off byte_count =
     (let bsz = ucast (v_phys_blk_sz v);
          first_lba = byte_off div bsz;
          last_lba = (byte_off + byte_count - 1) div bsz;
          lba_count = last_lba - first_lba + 1;
          total = lba_count * bsz
      in if bsz = 0 then None
         else if \<not> en_alloc env total then Some (v, None)
         else case v_bio v (v_media_id v) first_lba total of
           None \<Rightarrow> Some (v, None)
         | Some tmp \<Rightarrow> do { d \<leftarrow> copy_out tmp (byte_off - first_lba * bsz) byte_count; Some (v, Some d) })"

definition read_bytes :: "ext4_env \<Rightarrow> Ext4Vol \<Rightarrow> u64 \<Rightarrow> u64 \<Rightarrow> (Ext4Vol \<times> u8 list option) option" where
  "read_bytes env v byte_off byte_count =
     (case v_luks v of
        Some lv \<Rightarrow> read_luks env v lv byte_off byte_count
      | None \<Rightarrow>
          (case v_dio v of
             Some dio \<Rightarrow> Some (v, dio (v_media_id v) byte_off byte_count)
           | None \<Rightarrow> read_bio env v byte_off byte_count))"

definition blk_read :: "ext4_env \<Rightarrow> Ext4Vol \<Rightarrow> u64 \<Rightarrow> (Ext4Vol \<times> u8 list option) option" where
  "blk_read env v blk_no = read_bytes env v (blk_no * ucast (v_block_size v)) (ucast (v_block_size v))"

section \<open>Mounting\<close>

text \<open>
  The media description of BlockIO.  A shift of \<^verbatim>\<open>1024u\<close> by 32 or more is undefined in C; the
  model gives 0.
\<close>

record efi_media =
  em_present :: bool
  em_block_size :: u32
  em_logical :: bool
  em_last_block :: u64
  em_media_id :: u32

definition zero_ext4 :: Ext4Vol where
  "zero_ext4 = \<lparr> v_dio = None, v_bio = (\<lambda>_ _ _. None), v_media_id = 0, v_phys_blk_sz = 0, v_block_size = 0,
     v_inodes_per_group = 0, v_inode_size = 0, v_first_data_block = 0, v_bgdt_off = 0, v_desc_size = 0,
     v_part_handle = None, v_luks = None \<rparr>"

definition ext4_fields :: "u8 list \<Rightarrow> Ext4Vol \<Rightarrow> Ext4Vol option" where
  "ext4_fields sb v = do {
     log_bs \<leftarrow> r32 sb SB_LOG_BLOCK_SIZE;
     ipg \<leftarrow> r32 sb SB_INODES_PER_GROUP;
     fdb \<leftarrow> r32 sb SB_FIRST_DATA_BLOCK;
     isz \<leftarrow> r16 sb SB_INODE_SIZE;
     f_incompat \<leftarrow> r32 sb SB_FEATURE_INCOMPAT;
     ds \<leftarrow> r16 sb SB_DESC_SIZE;
     let bs = (push_bit (unat log_bs) 1024 :: u32);
     Some (v\<lparr> v_block_size := bs, v_inodes_per_group := ipg, v_first_data_block := fdb,
       v_inode_size := (if isz < 128 then 128 else ucast isz),
       v_bgdt_off := ucast (fdb + 1) * ucast bs,
       v_desc_size := (if f_incompat AND EXT4_FEATURE_INCOMPAT_64BIT \<noteq> 0 \<and> ds \<ge> 64 then 64 else 32) \<rparr>) }"

text \<open>\<open>bio\<close> is absent when the handle has no BlockIO protocol or it has no media.\<close>

definition ext4_mount ::
    "ext4_env \<Rightarrow> nat \<Rightarrow> (efi_media \<times> read_proto) option \<Rightarrow> read_proto option \<Rightarrow> Ext4Vol option option" where
  "ext4_mount env h bio dio =
     (case bio of
        None \<Rightarrow> Some None
      | Some (media, rd) \<Rightarrow>
          if \<not> em_present media \<or> em_block_size media = 0 then Some None
          else if \<not> em_logical media then Some None
          else if em_last_block media < 2 then Some None
          else if em_block_size media = 2048 then Some None
          else do {
            let tmp = zero_ext4\<lparr> v_dio := dio, v_bio := rd, v_media_id := em_media_id media,
                  v_phys_blk_sz := em_block_size media, v_block_size := em_block_size media \<rparr>;
            (_, r) \<leftarrow> read_bytes env tmp EXT4_SUPERBLOCK_OFFSET 1024;
            case r of
              None \<Rightarrow> Some None
            | Some sb \<Rightarrow> do {
                magic \<leftarrow> r16 sb SB_MAGIC;
                if magic \<noteq> EXT4_SUPER_MAGIC then Some None
                else if \<not> en_alloc env 72 then Some None
                else map_option Some (ext4_fields sb (zero_ext4\<lparr> v_dio := dio, v_bio := rd,
                       v_media_id := em_media_id media, v_phys_blk_sz := em_block_size media,
                       v_part_handle := Some h \<rparr>)) } })"

definition ext4_get_part_handle :: "Ext4Vol option \<Rightarrow> nat option" where
  "ext4_get_part_handle vol = (case vol of None \<Rightarrow> None | Some v \<Rightarrow> v_part_handle v)"

text \<open>The superblock has to lie in the third sector; the fields used do.\<close>

definition ext4_mount_luks :: "ext4_env \<Rightarrow> LuksVol option \<Rightarrow> Ext4Vol option option" where
  "ext4_mount_luks env lv =
     (case lv of
        None \<Rightarrow> Some None
      | Some lv \<Rightarrow> do {
          (lv, r) \<leftarrow> luks_vol_read (en_stack env) lv 0 3;
          case r of
            None \<Rightarrow> Some None
          | Some sb_buf \<Rightarrow> do {
              let sb = drop 1024 sb_buf;
              magic \<leftarrow> r16 sb SB_MAGIC;
              if magic \<noteq> EXT4_SUPER_MAGIC then Some None
              else if \<not> en_alloc env 72 then Some None
              else map_option Some (ext4_fields sb (zero_ext4\<lparr> v_luks := Some lv, v_phys_blk_sz := 512 \<rparr>)) } })"
section \<open>Inodes and blocks\<close>

definition inode_read :: "ext4_env \<Rightarrow> Ext4Vol \<Rightarrow> u32 \<Rightarrow> (Ext4Vol \<times> u8 list option) option" where
  "inode_read env v ino =
     (if ino = 0 then Some (v, None)
      else if v_inodes_per_group v = 0 then None
      else do {
        let grp = (ino - 1) div v_inodes_per_group v;
        let loc = (ino - 1) mod v_inodes_per_group v;
        (v, r) \<leftarrow> read_bytes env v (v_bgdt_off v + ucast grp * ucast (v_desc_size v)) (ucast (v_desc_size v));
        case r of
          None \<Rightarrow> Some (v, None)
        | Some bgd \<Rightarrow> do {
            it_lo \<leftarrow> r32 bgd BGD_INODE_TABLE_LO;
            it_hi \<leftarrow> (if v_desc_size v \<ge> 64 then r32 bgd BGD_INODE_TABLE_HI else Some 0);
            let it = ucast it_lo OR push_bit 32 (ucast it_hi);
            let off = it * ucast (v_block_size v) + ucast loc * ucast (v_inode_size v);
            read_bytes env v off (ucast (v_inode_size v)) } })"

text \<open>The offset of the last index entry whose first block is not beyond \<open>lblock\<close>.\<close>

fun best_index :: "u8 list \<Rightarrow> u32 \<Rightarrow> nat \<Rightarrow> nat \<Rightarrow> nat option \<Rightarrow> nat option option" where
  "best_index eh lblock i 0 best = Some best"
| "best_index eh lblock i (Suc n) best = do {
     b \<leftarrow> r32 eh (12 + 12 * i);
     if b > lblock then Some best else best_index eh lblock (Suc i) n (Some (12 + 12 * i)) }"

fun leaf_scan :: "u8 list \<Rightarrow> u32 \<Rightarrow> nat \<Rightarrow> nat \<Rightarrow> u64 option" where
  "leaf_scan eh lblock i 0 = Some 0"
| "leaf_scan eh lblock i (Suc n) = do {
     let ex = 12 + 12 * i;
     ee_blk \<leftarrow> r32 eh ex;
     ee_len \<leftarrow> r16 eh (ex + 4);
     if lblock \<ge> ee_blk \<and> lblock < ee_blk + ucast ee_len then do {
       lo \<leftarrow> r32 eh (ex + 8);
       hi \<leftarrow> r16 eh (ex + 6);
       Some ((ucast lo OR push_bit 32 (ucast hi)) + ucast (lblock - ee_blk)) }
     else leaf_scan eh lblock (Suc i) n }"

text \<open>
  \<open>two\<close> is the pair of block buffers, \<open>scr\<close> the offset of the one used for index blocks.  The
  extent header is the list \<open>eh\<close> of the bytes from it to the end of its buffer.
\<close>

definition extent_phys ::
    "ext4_env \<Rightarrow> Ext4Vol \<Rightarrow> u8 list \<Rightarrow> u32 \<Rightarrow> nat \<Rightarrow> u8 list \<Rightarrow> (Ext4Vol \<times> u8 list \<times> u64) option" where
  "extent_phys env v eh lblock scr two = do {
     magic \<leftarrow> r16 eh 0;
     if magic \<noteq> EXT4_EXTENT_HEADER_MAGIC then Some (v, two, 0)
     else do {
       entries \<leftarrow> r16 eh 2;
       depth \<leftarrow> r16 eh 6;
       if depth > 0 then do {
         best \<leftarrow> best_index eh lblock 0 (unat entries) None;
         case best of
           None \<Rightarrow> Some (v, two, 0)
         | Some ei \<Rightarrow> do {
             lo \<leftarrow> r32 eh (ei + 4);
             hi \<leftarrow> r16 eh (ei + 8);
             (v, r) \<leftarrow> blk_read env v (ucast lo OR push_bit 32 (ucast hi));
             case r of
               None \<Rightarrow> Some (v, two, 0)
             | Some blk \<Rightarrow> do {
                 two \<leftarrow> put two scr blk;
                 magic \<leftarrow> r16 (drop scr two) 0;
                 if magic \<noteq> EXT4_EXTENT_HEADER_MAGIC then Some (v, two, 0)
                 else do {
                   entries \<leftarrow> r16 (drop scr two) 2;
                   phys \<leftarrow> leaf_scan (drop scr two) lblock 0 (unat entries);
                   Some (v, two, phys) } } } }
       else do {
         phys \<leftarrow> leaf_scan eh lblock 0 (unat entries);
         Some (v, two, phys) } } }"

text \<open>The data goes to offset \<open>out\<close> of the buffers; the result says whether it could be read.\<close>

definition read_lblock ::
    "ext4_env \<Rightarrow> Ext4Vol \<Rightarrow> u8 list \<Rightarrow> u32 \<Rightarrow> nat \<Rightarrow> nat \<Rightarrow> u8 list \<Rightarrow> (Ext4Vol \<times> u8 list \<times> bool) option" where
  "read_lblock env v inode lblock out scr two = do {
     flags \<leftarrow> r32 inode IN_FLAGS;
     (v, two, phys) \<leftarrow>
       (if flags AND EXT4_EXTENTS_FL \<noteq> 0 then extent_phys env v (drop IN_BLOCK inode) lblock scr two
        else if lblock < 12 then do { p \<leftarrow> r32 (drop IN_BLOCK inode) (unat lblock * 4); Some (v, two, ucast p) }
        else Some (v, two, 0));
     if phys = 0 then do {
       two \<leftarrow> put two out (replicate (unat (v_block_size v)) 0);
       Some (v, two, True) }
     else do {
       (v, r) \<leftarrow> blk_read env v phys;
       case r of
         None \<Rightarrow> Some (v, two, False)
       | Some d \<Rightarrow> do { two \<leftarrow> put two out d; Some (v, two, True) } } }"

section \<open>Directories\<close>

fun match_name :: "u8 list \<Rightarrow> string \<Rightarrow> bool option" where
  "match_name dname [] = Some True"
| "match_name [] (c # cs) = None"
| "match_name (b # bs) (c # cs) = (if chr8 b \<noteq> c then Some False else match_name bs cs)"

text \<open>The entries of one block, from \<open>pos\<close> on; the result is the inode number or 0.\<close>

function scan_block :: "u8 list \<Rightarrow> nat \<Rightarrow> string \<Rightarrow> nat \<Rightarrow> u32 option" where
  "scan_block buf limit name pos =
     (if pos + 8 \<le> limit then
        (let de = drop pos buf
         in case (r32 de 0, r16 de 4, r8 de 6) of
              (Some ino2, Some reclen, Some nl) \<Rightarrow>
                if reclen = 0 then Some 0
                else if ino2 \<noteq> 0 \<and> nl = of_nat (length name) then
                  (case match_name (drop 8 de) name of
                     None \<Rightarrow> None
                   | Some True \<Rightarrow> Some ino2
                   | Some False \<Rightarrow> scan_block buf limit name (pos + unat reclen))
                else scan_block buf limit name (pos + unat reclen)
            | _ \<Rightarrow> None)
      else Some 0)"
  by pat_completeness auto
termination
  by (relation "measure (\<lambda>(_, limit, _, pos). limit - pos)") (auto simp: unat_zero_iff[symmetric])

declare scan_block.simps [simp del]

text \<open>The part of the last block that belongs to the directory.\<close>

definition block_limit :: "Ext4Vol \<Rightarrow> u32 \<Rightarrow> u32 \<Rightarrow> u32 \<Rightarrow> nat" where
  "block_limit v sz nblk blk =
     unat (if blk + 1 = nblk \<and> sz mod v_block_size v \<noteq> 0 then sz mod v_block_size v else v_block_size v)"

text \<open>\<open>n\<close> blocks are left.\<close>

fun lookup_loop ::
    "ext4_env \<Rightarrow> string \<Rightarrow> u8 list \<Rightarrow> u32 \<Rightarrow> u32 \<Rightarrow> u32 \<Rightarrow> nat \<Rightarrow> Ext4Vol \<times> u8 list \<Rightarrow> (Ext4Vol \<times> u8 list \<times> u32) option" where
  "lookup_loop env name inode sz nblk blk 0 (v, two) = Some (v, two, 0)"
| "lookup_loop env name inode sz nblk blk (Suc n) (v, two) = do {
     (v, two, ok) \<leftarrow> read_lblock env v inode blk 0 (unat (v_block_size v)) two;
     if \<not> ok then Some (v, two, 0)
     else do {
       ino \<leftarrow> scan_block two (block_limit v sz nblk blk) name 0;
       if ino \<noteq> 0 then Some (v, two, ino)
       else lookup_loop env name inode sz nblk (blk + 1) n (v, two) } }"

definition dir_lookup_comp ::
    "ext4_env \<Rightarrow> u32 \<Rightarrow> string \<Rightarrow> Ext4Vol \<times> u8 list \<Rightarrow> (Ext4Vol \<times> u8 list \<times> u32) option" where
  "dir_lookup_comp env dir_ino name = (\<lambda>(v, two). do {
     (v, r) \<leftarrow> inode_read env v dir_ino;
     case r of
       None \<Rightarrow> Some (v, two, 0)
     | Some inode \<Rightarrow> do {
         sz \<leftarrow> r32 inode IN_SIZE_LO;
         if v_block_size v = 0 then None
         else let nblk = (sz + v_block_size v - 1) div v_block_size v
              in lookup_loop env name inode sz nblk 0 (unat nblk) (v, two) } })"

definition skip_slashes :: "string \<Rightarrow> string" where
  "skip_slashes p = dropWhile (\<lambda>c. c = CHR ''/'') p"

definition component :: "string \<Rightarrow> string" where
  "component p = takeWhile (\<lambda>c. c \<noteq> NUL \<and> c \<noteq> CHR ''/'') p"

definition next_component :: "string \<Rightarrow> string" where
  "next_component p = skip_slashes (drop (length (component p)) p)"

lemma next_component_shorter: "component p \<noteq> [] \<Longrightarrow> length (next_component p) < length p"
  using length_dropWhile_le[of "\<lambda>c. c = CHR ''/''" "drop (length (component p)) p"]
  by (cases p) (auto simp: next_component_def skip_slashes_def component_def split: if_splits)

text \<open>After the slashes a component of a non-empty rest is not empty.\<close>

function path_walk :: "ext4_env \<Rightarrow> u32 \<Rightarrow> string \<Rightarrow> Ext4Vol \<times> u8 list \<Rightarrow> (Ext4Vol \<times> u8 list \<times> u32) option" where
  "path_walk env ino p vt =
     (if nz p \<and> component p \<noteq> [] then
        (case dir_lookup_comp env ino (component p) vt of
           None \<Rightarrow> None
         | Some (v, two, ino) \<Rightarrow>
             if ino = 0 then Some (v, two, 0)
             else path_walk env ino (next_component p) (v, two))
      else Some (fst vt, snd vt, ino))"
  by pat_completeness auto
termination
  by (relation "measure (\<lambda>(_, _, p, _). length p)") (auto simp: next_component_shorter)

declare path_walk.simps [simp del]

definition path_lookup :: "ext4_env \<Rightarrow> string \<Rightarrow> Ext4Vol \<times> u8 list \<Rightarrow> (Ext4Vol \<times> u8 list \<times> u32) option" where
  "path_lookup env path vt = path_walk env EXT4_ROOT_INO (skip_slashes path) vt"

section \<open>Files\<close>

text \<open>Fresh pool memory; the size is computed in 32 bits.\<close>

definition two_blocks :: "ext4_env \<Rightarrow> Ext4Vol \<Rightarrow> u8 list" where
  "two_blocks env v = map (en_pool env) [0..<unat (v_block_size v * 2)]"

definition pools_ok :: "ext4_env \<Rightarrow> Ext4Vol \<Rightarrow> bool" where
  "pools_ok env v \<longleftrightarrow> en_alloc env (ucast (v_inode_size v)) \<and> en_alloc env (ucast (v_block_size v * 2))"

text \<open>Path lookup and the inode behind it, the common beginning of the public operations.\<close>

definition find_inode :: "ext4_env \<Rightarrow> Ext4Vol \<Rightarrow> string \<Rightarrow> (Ext4Vol \<times> u8 list \<times> u8 list option) option" where
  "find_inode env v path = do {
     (v, two, ino) \<leftarrow> path_lookup env path (v, two_blocks env v);
     if ino = 0 then Some (v, two, None)
     else do { (v, r) \<leftarrow> inode_read env v ino; Some (v, two, r) } }"

definition ext4_stat :: "ext4_env \<Rightarrow> Ext4Vol \<Rightarrow> string \<Rightarrow> (Ext4Vol \<times> u64) option" where
  "ext4_stat env v path =
     (if \<not> pools_ok env v then Some (v, 0)
      else do {
        (v, _, r) \<leftarrow> find_inode env v path;
        case r of
          None \<Rightarrow> Some (v, 0)
        | Some inode \<Rightarrow> do { sz \<leftarrow> r32 inode IN_SIZE_LO; Some (v, ucast sz) } })"

text \<open>\<open>n\<close> blocks are left; \<open>acc\<close> is the part of the file buffer already filled.\<close>

fun file_loop ::
    "ext4_env \<Rightarrow> u8 list \<Rightarrow> u64 \<Rightarrow> u32 \<Rightarrow> nat \<Rightarrow> u8 list \<Rightarrow> Ext4Vol \<times> u8 list \<Rightarrow> (Ext4Vol \<times> u8 list option) option" where
  "file_loop env inode fsize blk 0 acc (v, two) = Some (v, Some acc)"
| "file_loop env inode fsize blk (Suc n) acc (v, two) = do {
     let bs = v_block_size v;
     (v, two, ok) \<leftarrow> read_lblock env v inode blk (unat bs) 0 two;
     if \<not> ok then Some (v, None)
     else do {
       let dst = ucast blk * ucast bs;
       let len = (if fsize - dst > ucast bs then ucast bs else fsize - dst);
       file_loop env inode fsize (blk + 1) n (acc @ slice two (unat bs) (unat len)) (v, two) } }"

definition ext4_read_file :: "ext4_env \<Rightarrow> Ext4Vol \<Rightarrow> string \<Rightarrow> (Ext4Vol \<times> u8 list option) option" where
  "ext4_read_file env v path =
     (if \<not> pools_ok env v then Some (v, None)
      else do {
        (v, two, r) \<leftarrow> find_inode env v path;
        case r of
          None \<Rightarrow> Some (v, None)
        | Some inode \<Rightarrow> do {
            lo \<leftarrow> r32 inode IN_SIZE_LO;
            hi \<leftarrow> r32 inode IN_SIZE_HIGH;
            let fsize = ucast lo OR push_bit 32 (ucast hi);
            if fsize = 0 \<or> fsize > 134217728 then Some (v, None)
            else if \<not> en_alloc env (fsize + 1) then Some (v, None)
            else if v_block_size v = 0 then None
            else let nblk = ucast ((fsize + ucast (v_block_size v) - 1) div ucast (v_block_size v)) :: u32
                 in file_loop env inode fsize 0 (unat nblk) [] (v, two) } })"

section \<open>Directory enumeration\<close>

text \<open>The callback may use the volume again.\<close>

type_synonym 'c ext4_cb = "string \<Rightarrow> bool \<Rightarrow> 'c \<times> Ext4Vol \<Rightarrow> ('c \<times> Ext4Vol) option"

definition dot_name :: "string \<Rightarrow> bool" where
  "dot_name fname \<longleftrightarrow> cstr fname = ''.'' \<or> cstr fname = ''..''"

function readdir_block ::
    "'c ext4_cb \<Rightarrow> u8 list \<Rightarrow> nat \<Rightarrow> nat \<Rightarrow> 'c \<times> Ext4Vol \<Rightarrow> ('c \<times> Ext4Vol) option" where
  "readdir_block cb buf limit pos cs =
     (if pos + 8 \<le> limit then
        (let de = drop pos buf
         in case (r32 de 0, r16 de 4, r8 de 6, r8 de 7) of
              (Some ino2, Some reclen, Some nl, Some ftype) \<Rightarrow>
                if reclen = 0 then Some cs
                else if ino2 \<noteq> 0 \<and> nl > 0 \<and> nl < 255 \<and> (ftype = 1 \<or> ftype = EXT4_FT_DIR) then
                  (if length de < 8 + unat nl then None
                   else
                     let fname = map chr8 (slice de 8 (unat nl))
                     in if dot_name fname then readdir_block cb buf limit (pos + unat reclen) cs
                        else case cb fname (ftype = EXT4_FT_DIR) cs of
                          None \<Rightarrow> None
                        | Some cs \<Rightarrow> readdir_block cb buf limit (pos + unat reclen) cs)
                else readdir_block cb buf limit (pos + unat reclen) cs
            | _ \<Rightarrow> None)
      else Some cs)"
  by pat_completeness auto
termination
  by (relation "measure (\<lambda>(_, _, limit, pos, _). limit - pos)") (auto simp: unat_zero_iff[symmetric])

declare readdir_block.simps [simp del]

fun readdir_blocks ::
    "ext4_env \<Rightarrow> 'c ext4_cb \<Rightarrow> u8 list \<Rightarrow> u32 \<Rightarrow> u32 \<Rightarrow> u32 \<Rightarrow> nat \<Rightarrow> u8 list \<Rightarrow> 'c \<times> Ext4Vol \<Rightarrow> ('c \<times> Ext4Vol) option" where
  "readdir_blocks env cb inode sz nblk blk 0 two cs = Some cs"
| "readdir_blocks env cb inode sz nblk blk (Suc n) two (c, v) = do {
     let bs = unat (v_block_size v);
     (v, two, ok) \<leftarrow> read_lblock env v inode blk bs 0 two;
     if \<not> ok then Some (c, v)
     else do {
       cs \<leftarrow> readdir_block cb (drop bs two) (block_limit v sz nblk blk) 0 (c, v);
       readdir_blocks env cb inode sz nblk (blk + 1) n two cs } }"

definition ext4_readdir :: "ext4_env \<Rightarrow> string \<Rightarrow> 'c ext4_cb \<Rightarrow> 'c \<times> Ext4Vol \<Rightarrow> ('c \<times> Ext4Vol) option" where
  "ext4_readdir env path cb = (\<lambda>(c, v).
     if \<not> pools_ok env v then Some (c, v)
     else do {
       (v, two, r) \<leftarrow> find_inode env v path;
       case r of
         None \<Rightarrow> Some (c, v)
       | Some inode \<Rightarrow> do {
           sz \<leftarrow> r32 inode IN_SIZE_LO;
           if v_block_size v = 0 then None
           else let nblk = (sz + v_block_size v - 1) div v_block_size v
                in readdir_blocks env cb inode sz nblk 0 (unat nblk) two (c, v) } })"

end
