(* ===== verification/Ext4_Data.thy ===== *)
theory Ext4_Data
  imports Ext4
begin

text \<open>
  What the EXT4 reader returns, stated over the bytes \<open>D\<close> of the partition: the inode of a number,
  the block map of an inode, the data of a file, the entries of a directory, the inode of a path.
  The locale \<open>byte_dev\<close> is all the file system relies on: \<^verbatim>\<open>read_bytes\<close> delivers the bytes of the
  partition.  It is interpreted for the three backends in \<open>Ext4_Dev\<close>.
\<close>

section \<open>The partition as bytes\<close>

definition img :: "(nat \<Rightarrow> u8) \<Rightarrow> nat \<Rightarrow> nat \<Rightarrow> u8 list" where
  "img D off n = map D [off..<off + n]"

lemma length_img [simp]: "length (img D off n) = n"
  by (simp add: img_def)

lemma nth_img [simp]: "i < n \<Longrightarrow> img D off n ! i = D (off + i)"
  by (simp add: img_def)

definition le16 :: "(nat \<Rightarrow> u8) \<Rightarrow> nat \<Rightarrow> u16" where
  "le16 D a = u16_of_le (img D a 2)"

definition le32 :: "(nat \<Rightarrow> u8) \<Rightarrow> nat \<Rightarrow> u32" where
  "le32 D a = u32_of_le (img D a 4)"

lemma r32_img: "k + 4 \<le> n \<Longrightarrow> r32 (img D off n) k = Some (le32 D (off + k))"
  by (simp add: r32_def le32_def u32_of_le_def add.assoc)

lemma r16_img: "k + 2 \<le> n \<Longrightarrow> r16 (img D off n) k = Some (le16 D (off + k))"
  by (simp add: r16_def le16_def u16_of_le_def)

lemma drop_img: "k \<le> n \<Longrightarrow> drop k (img D off n) = img D (off + k) (n - k)"
  by (rule nth_equalityI) (simp_all add: add.assoc)

lemma slice_img: "k + m \<le> n \<Longrightarrow> slice (img D off n) k m = img D (off + k) m"
  by (rule nth_equalityI) (simp_all add: slice_def add.assoc)

section \<open>Geometry\<close>

text \<open>The fields of a volume that describe the layout of the file system.\<close>

definition geom :: "Ext4Vol \<Rightarrow> Ext4Vol" where
  "geom v = zero_ext4\<lparr> v_block_size := v_block_size v, v_inodes_per_group := v_inodes_per_group v,
     v_inode_size := v_inode_size v, v_bgdt_off := v_bgdt_off v, v_desc_size := v_desc_size v \<rparr>"

abbreviation bsize :: "Ext4Vol \<Rightarrow> nat" where "bsize v \<equiv> unat (v_block_size v)"

definition geom_ok :: "Ext4Vol \<Rightarrow> bool" where
  "geom_ok v \<longleftrightarrow> 1024 \<le> bsize v \<and> bsize v \<le> 65536 \<and> v_inodes_per_group v \<noteq> 0 \<and> 128 \<le> unat (v_inode_size v) \<and>
     (v_desc_size v = 32 \<or> v_desc_size v = 64)"

lemma geom_fields:
  assumes "geom v = geom w"
  shows "v_block_size v = v_block_size w" "v_inodes_per_group v = v_inodes_per_group w"
    "v_inode_size v = v_inode_size w" "v_bgdt_off v = v_bgdt_off w" "v_desc_size v = v_desc_size w"
  using assms by (simp_all add: geom_def zero_ext4_def)

lemma geom_ok_cong: "geom v = geom w \<Longrightarrow> geom_ok v = geom_ok w"
  by (simp add: geom_ok_def geom_fields[of v w])

section \<open>Specification\<close>

definition group_pos :: "Ext4Vol \<Rightarrow> u32 \<Rightarrow> nat" where
  "group_pos v ino = unat (v_bgdt_off v)
     + (unat ino - 1) div unat (v_inodes_per_group v) * unat (v_desc_size v)"

definition inode_table :: "(nat \<Rightarrow> u8) \<Rightarrow> Ext4Vol \<Rightarrow> u32 \<Rightarrow> nat" where
  "inode_table D v ino = unat (le32 D (group_pos v ino + 8))
     + (if v_desc_size v = 64 then 2 ^ 32 * unat (le32 D (group_pos v ino + 40)) else 0)"

definition inode_pos :: "(nat \<Rightarrow> u8) \<Rightarrow> Ext4Vol \<Rightarrow> u32 \<Rightarrow> nat" where
  "inode_pos D v ino = inode_table D v ino * bsize v
     + (unat ino - 1) mod unat (v_inodes_per_group v) * unat (v_inode_size v)"

definition inode_ok :: "(nat \<Rightarrow> u8) \<Rightarrow> nat \<Rightarrow> Ext4Vol \<Rightarrow> u32 \<Rightarrow> bool" where
  "inode_ok D N v ino \<longleftrightarrow> ino \<noteq> 0 \<and> group_pos v ino + unat (v_desc_size v) \<le> N \<and>
     inode_pos D v ino + unat (v_inode_size v) \<le> N"

definition inode_data :: "(nat \<Rightarrow> u8) \<Rightarrow> Ext4Vol \<Rightarrow> u32 \<Rightarrow> u8 list" where
  "inode_data D v ino = img D (inode_pos D v ino) (unat (v_inode_size v))"

text \<open>Extents: the leaf entries of a node, and the block an entry of them maps a logical block to.\<close>

definition node_magic :: "u8 list \<Rightarrow> bool" where
  "node_magic p \<longleftrightarrow> u16_of_le p = EXT4_EXTENT_HEADER_MAGIC"

definition node_count :: "u8 list \<Rightarrow> nat" where
  "node_count p = unat (u16_of_le (drop 2 p))"

definition node_block :: "u8 list \<Rightarrow> nat \<Rightarrow> nat" where
  "node_block p i = unat (u32_of_le (drop (12 + 12 * i) p))"

definition ext_len :: "u8 list \<Rightarrow> nat \<Rightarrow> nat" where
  "ext_len p i = unat (u16_of_le (drop (16 + 12 * i) p))"

definition ext_start :: "u8 list \<Rightarrow> nat \<Rightarrow> nat" where
  "ext_start p i = unat (u32_of_le (drop (20 + 12 * i) p)) + 2 ^ 32 * unat (u16_of_le (drop (18 + 12 * i) p))"

definition idx_leaf :: "u8 list \<Rightarrow> nat \<Rightarrow> nat" where
  "idx_leaf p i = unat (u32_of_le (drop (16 + 12 * i) p)) + 2 ^ 32 * unat (u16_of_le (drop (20 + 12 * i) p))"

definition ext_covers :: "u8 list \<Rightarrow> nat \<Rightarrow> nat \<Rightarrow> bool" where
  "ext_covers p l i \<longleftrightarrow> node_block p i \<le> l \<and> l < node_block p i + ext_len p i"

definition leaf_map :: "u8 list \<Rightarrow> nat \<Rightarrow> nat" where
  "leaf_map p l =
     (case List.find (ext_covers p l) [0..<node_count p] of
        None \<Rightarrow> 0 | Some i \<Rightarrow> ext_start p i + (l - node_block p i))"

definition node_ok :: "u8 list \<Rightarrow> bool" where
  "node_ok p \<longleftrightarrow> 12 + 12 * node_count p \<le> length p"

definition leaf_ok :: "u8 list \<Rightarrow> bool" where
  "leaf_ok p \<longleftrightarrow> node_ok p \<and> (\<forall>i<node_count p. node_block p i + ext_len p i < 2 ^ 32)"

text \<open>The number of index entries whose first block is not beyond \<open>l\<close>.\<close>

definition idx_below :: "u8 list \<Rightarrow> nat \<Rightarrow> nat" where
  "idx_below p l = length (takeWhile (\<lambda>i. node_block p i \<le> l) [0..<node_count p])"

text \<open>The physical block of a logical one, 0 for a hole; index trees have one level.\<close>

definition node_depth :: "u8 list \<Rightarrow> nat" where
  "node_depth p = unat (u16_of_le (drop 6 p))"

definition leaf_block :: "(nat \<Rightarrow> u8) \<Rightarrow> Ext4Vol \<Rightarrow> u8 list \<Rightarrow> nat \<Rightarrow> u8 list" where
  "leaf_block D v eh l = img D (idx_leaf eh (idx_below eh l - 1) * bsize v) (bsize v)"

definition extent_map :: "(nat \<Rightarrow> u8) \<Rightarrow> Ext4Vol \<Rightarrow> u8 list \<Rightarrow> nat \<Rightarrow> nat" where
  "extent_map D v eh l =
     (if \<not> node_magic eh then 0
      else if node_depth eh = 0 then leaf_map eh l
      else if idx_below eh l = 0 then 0
      else if node_magic (leaf_block D v eh l) then leaf_map (leaf_block D v eh l) l
      else 0)"

definition extent_ok :: "(nat \<Rightarrow> u8) \<Rightarrow> nat \<Rightarrow> Ext4Vol \<Rightarrow> u8 list \<Rightarrow> nat \<Rightarrow> bool" where
  "extent_ok D N v eh l \<longleftrightarrow> (node_magic eh \<longrightarrow>
     (if node_depth eh = 0 then leaf_ok eh
      else node_ok eh \<and> (idx_below eh l \<noteq> 0 \<longrightarrow>
        (idx_leaf eh (idx_below eh l - 1) + 1) * bsize v \<le> N \<and>
        (node_magic (leaf_block D v eh l) \<longrightarrow> leaf_ok (leaf_block D v eh l)))))"

definition has_extents :: "u8 list \<Rightarrow> bool" where
  "has_extents inode \<longleftrightarrow> u32_of_le (drop IN_FLAGS inode) AND EXT4_EXTENTS_FL \<noteq> 0"

definition block_map :: "(nat \<Rightarrow> u8) \<Rightarrow> Ext4Vol \<Rightarrow> u8 list \<Rightarrow> nat \<Rightarrow> nat" where
  "block_map D v inode l =
     (if has_extents inode then extent_map D v (drop IN_BLOCK inode) l
      else if l < 12 then unat (u32_of_le (drop (IN_BLOCK + 4 * l) inode)) else 0)"

definition block_ok :: "(nat \<Rightarrow> u8) \<Rightarrow> nat \<Rightarrow> Ext4Vol \<Rightarrow> u8 list \<Rightarrow> nat \<Rightarrow> bool" where
  "block_ok D N v inode l \<longleftrightarrow> (has_extents inode \<longrightarrow> extent_ok D N v (drop IN_BLOCK inode) l) \<and>
     (block_map D v inode l \<noteq> 0 \<longrightarrow> (block_map D v inode l + 1) * bsize v \<le> N)"

definition file_block :: "(nat \<Rightarrow> u8) \<Rightarrow> Ext4Vol \<Rightarrow> u8 list \<Rightarrow> nat \<Rightarrow> u8 list" where
  "file_block D v inode l =
     (if block_map D v inode l = 0 then replicate (bsize v) 0
      else img D (block_map D v inode l * bsize v) (bsize v))"

definition file_size :: "u8 list \<Rightarrow> nat" where
  "file_size inode = unat (u32_of_le (drop IN_SIZE_LO inode)) + 2 ^ 32 * unat (u32_of_le (drop IN_SIZE_HIGH inode))"

definition file_nblk :: "Ext4Vol \<Rightarrow> nat \<Rightarrow> nat" where
  "file_nblk v n = (n + bsize v - 1) div bsize v"

text \<open>The contents of a file.\<close>

definition file_bytes :: "(nat \<Rightarrow> u8) \<Rightarrow> Ext4Vol \<Rightarrow> u8 list \<Rightarrow> u8 list" where
  "file_bytes D v inode = take (file_size inode) (concat (map (file_block D v inode) [0..<file_nblk v (file_size inode)]))"

text \<open>The positions of the entries of a directory block, and the entries.\<close>

definition rec_len :: "u8 list \<Rightarrow> nat \<Rightarrow> nat" where "rec_len b pos = unat (u16_of_le (drop (pos + 4) b))"
definition name_len :: "u8 list \<Rightarrow> nat \<Rightarrow> nat" where "name_len b pos = unat (b ! (pos + 6))"

function dirent_pos :: "u8 list \<Rightarrow> nat \<Rightarrow> nat \<Rightarrow> nat list" where
  "dirent_pos b limit pos =
     (if pos + 8 \<le> limit \<and> rec_len b pos \<noteq> 0 then pos # dirent_pos b limit (pos + rec_len b pos) else [])"
  by pat_completeness auto
termination
  by (relation "measure (\<lambda>(_, limit, pos). limit - pos)") auto

declare dirent_pos.simps [simp del]

definition de_entry :: "u8 list \<Rightarrow> nat \<Rightarrow> u32 \<times> string" where
  "de_entry b pos = (u32_of_le (drop pos b), map chr8 (slice b (pos + 8) (name_len b pos)))"

definition dirents :: "u8 list \<Rightarrow> nat \<Rightarrow> (u32 \<times> string) list" where
  "dirents b limit = map (de_entry b) (dirent_pos b limit 0)"

definition dirents_ok :: "u8 list \<Rightarrow> nat \<Rightarrow> bool" where
  "dirents_ok b limit \<longleftrightarrow> (\<forall>pos\<in>set (dirent_pos b limit 0). pos + 8 + name_len b pos \<le> length b)"

definition dir_find :: "string \<Rightarrow> (u32 \<times> string) list \<Rightarrow> u32" where
  "dir_find name es = (case List.find (\<lambda>(i, n). i \<noteq> 0 \<and> n = name) es of None \<Rightarrow> 0 | Some (i, _) \<Rightarrow> i)"

text \<open>A directory: the entries of its blocks in order.\<close>

definition dir_size :: "u8 list \<Rightarrow> u32" where
  "dir_size inode = u32_of_le (drop IN_SIZE_LO inode)"

definition dir_nblk :: "Ext4Vol \<Rightarrow> u8 list \<Rightarrow> u32" where
  "dir_nblk v inode = (dir_size inode + v_block_size v - 1) div v_block_size v"

definition dir_limit :: "Ext4Vol \<Rightarrow> u8 list \<Rightarrow> nat \<Rightarrow> nat" where
  "dir_limit v inode l = block_limit v (dir_size inode) (dir_nblk v inode) (of_nat l)"

definition dir_list :: "(nat \<Rightarrow> u8) \<Rightarrow> Ext4Vol \<Rightarrow> u8 list \<Rightarrow> (u32 \<times> string) list" where
  "dir_list D v inode = concat (map (\<lambda>l. dirents (file_block D v inode l) (dir_limit v inode l)) [0..<unat (dir_nblk v inode)])"

definition dir_ok :: "(nat \<Rightarrow> u8) \<Rightarrow> nat \<Rightarrow> Ext4Vol \<Rightarrow> u32 \<Rightarrow> bool" where
  "dir_ok D N v ino \<longleftrightarrow> inode_ok D N v ino \<and>
     (\<forall>l<unat (dir_nblk v (inode_data D v ino)). block_ok D N v (inode_data D v ino) l \<and>
        dirents_ok (file_block D v (inode_data D v ino) l) (dir_limit v (inode_data D v ino) l))"

text \<open>Paths.\<close>

function path_comps :: "string \<Rightarrow> string list" where
  "path_comps p = (if nz p \<and> component p \<noteq> [] then component p # path_comps (next_component p) else [])"
  by pat_completeness auto
termination
  by (relation "measure length") (auto simp: next_component_shorter)

declare path_comps.simps [simp del]

fun walk :: "(nat \<Rightarrow> u8) \<Rightarrow> Ext4Vol \<Rightarrow> u32 \<Rightarrow> string list \<Rightarrow> u32" where
  "walk D v ino [] = ino"
| "walk D v ino (c # cs) =
     (let i = dir_find c (dir_list D v (inode_data D v ino)) in if i = 0 then 0 else walk D v i cs)"

fun walk_ok :: "(nat \<Rightarrow> u8) \<Rightarrow> nat \<Rightarrow> Ext4Vol \<Rightarrow> u32 \<Rightarrow> string list \<Rightarrow> bool" where
  "walk_ok D N v ino [] = True"
| "walk_ok D N v ino (c # cs) \<longleftrightarrow> length c < 256 \<and> dir_ok D N v ino \<and>
     (let i = dir_find c (dir_list D v (inode_data D v ino)) in i = 0 \<or> walk_ok D N v i cs)"

section \<open>Reading inodes\<close>

lemma unat_add64: "unat x + unat y < 2 ^ 64 \<Longrightarrow> unat (x + y :: u64) = unat x + unat y"
  by (simp add: unat_word_ariths)

lemma unat_mult64: "unat x * unat y < 2 ^ 64 \<Longrightarrow> unat (x * y :: u64) = unat x * unat y"
  by (simp add: unat_word_ariths)

lemma unat_ucast64 [simp]: "unat (ucast (x :: u32) :: u64) = unat x"
  using unat_u32_less[of x] by (simp add: unsigned_ucast_eq take_bit_nat_eq_self)

lemma unat_hi_lo: "unat (ucast (lo :: u32) OR push_bit 32 (ucast (hi :: u32)) :: u64) = unat lo + 2 ^ 32 * unat hi"
proof -
  have bits: "\<not> bit (ucast lo :: u64) n \<or> \<not> bit (push_bit 32 (ucast hi) :: u64) n" for n
    using bit_imp_le_length[of lo n] by (auto simp: bit_simps)
  have p: "unat (push_bit 32 (ucast hi) :: u64) = 2 ^ 32 * unat hi"
    using unat_mult64[of "ucast hi" "2 ^ 32"] unat_u32_less[of hi] by (simp add: push_bit_eq_mult mult.commute)
  have "ucast lo OR push_bit 32 (ucast hi) = (ucast lo + push_bit 32 (ucast hi) :: u64)"
    using disjunctive_add[OF bits] by simp
  then show ?thesis
    using unat_add64[of "ucast lo" "push_bit 32 (ucast hi)"] p unat_u32_less[of lo] unat_u32_less[of hi] by simp
qed

lemma unat_hi_lo16: "unat (ucast (lo :: u32) OR push_bit 32 (ucast (hi :: u16)) :: u64) = unat lo + 2 ^ 32 * unat hi"
proof -
  have "unat (ucast hi :: u32) = unat hi"
    using unsigned_less[of hi, where 'a = nat] by (simp add: unsigned_ucast_eq take_bit_nat_eq_self)
  moreover have "(ucast (ucast hi :: u32) :: u64) = ucast hi"
    by (rule bit_word_eqI) (auto simp: bit_simps dest: bit_imp_le_length)
  ultimately show ?thesis using unat_hi_lo[of lo "ucast hi"] by simp
qed

section \<open>Extent nodes\<close>

lemma r32_list: "k + 4 \<le> length p \<Longrightarrow> r32 p k = Some (u32_of_le (drop k p))"
  by (simp add: r32_def)

lemma r16_list: "k + 2 \<le> length p \<Longrightarrow> r16 p k = Some (u16_of_le (drop k p))"
  by (simp add: r16_def)

lemma leaf_scan_from:
  assumes "leaf_ok p" and "i + n = node_count p"
  shows "\<exists>w. leaf_scan p l i n = Some w \<and> unat w = (case List.find (ext_covers p (unat l)) [i..<node_count p] of
      None \<Rightarrow> 0 | Some i \<Rightarrow> ext_start p i + (unat l - node_block p i))"
  using assms(2)
proof (induction n arbitrary: i)
  case (Suc n)
  have i: "i < node_count p" using Suc.prems by simp
  let ?b = "u32_of_le (drop (12 + 12 * i) p)" and ?n = "u16_of_le (drop (16 + 12 * i) p)"
  have len: "12 + 12 * i + 12 \<le> length p" using assms(1) i by (simp add: leaf_ok_def node_ok_def)
  have nw: "node_block p i + ext_len p i < 2 ^ 32" using assms(1) i by (simp add: leaf_ok_def)
  have e: "unat (?b + ucast ?n) = node_block p i + ext_len p i"
  proof -
    have "unat (ucast ?n :: u32) = ext_len p i"
      using unsigned_less[of ?n, where 'a = nat] by (simp add: ext_len_def unsigned_ucast_eq take_bit_nat_eq_self)
    then show ?thesis using nw by (simp add: node_block_def unat_word_ariths)
  qed
  then have c: "(l \<ge> ?b \<and> l < ?b + ucast ?n) \<longleftrightarrow> ext_covers p (unat l) i"
    by (simp add: ext_covers_def word_le_nat_alt word_less_nat_alt node_block_def)
  have up: "[i..<node_count p] = i # [Suc i..<node_count p]" using i by (simp add: upt_conv_Cons)
  show ?case
  proof (cases "ext_covers p (unat l) i")
    case True
    let ?s = "ucast (u32_of_le (drop (20 + 12 * i) p)) OR push_bit 32 (ucast (u16_of_le (drop (18 + 12 * i) p))) :: u64"
    have s: "unat ?s = ext_start p i" by (simp add: unat_hi_lo16 ext_start_def)
    have d: "unat (l - ?b) = unat l - node_block p i"
      using True by (simp add: unat_sub_if' ext_covers_def node_block_def)
    have "unat (u16_of_le (drop (18 + 12 * i) p)) < 65536" by (rule order.strict_trans2[OF unsigned_less]) simp
    then have "ext_start p i < 2 ^ 32 + 2 ^ 32 * 65536"
      using unat_u32_less[of "u32_of_le (drop (20 + 12 * i) p)"] by (simp add: ext_start_def)
    then have "unat (?s + ucast (l - ?b)) = ext_start p i + (unat l - node_block p i)"
      using s d unat_u32_less[of l] unat_add64[of ?s "ucast (l - ?b)"] by simp
    then show ?thesis using True c len up by (simp add: r32_list r16_list Let_def)
  next
    case False
    then show ?thesis using Suc.IH[of "Suc i"] Suc.prems c len by (auto simp: r32_list r16_list Let_def up)
  qed
qed simp

lemma leaf_scan_ok:
  assumes "leaf_ok p"
  shows "\<exists>w. leaf_scan p l 0 (node_count p) = Some w \<and> unat w = leaf_map p (unat l)"
  using leaf_scan_from[OF assms, of 0 "node_count p" l] by (simp add: leaf_map_def)

lemma best_index_from:
  assumes "node_ok p" and "i + n = node_count p"
  shows "best_index p l i n best = Some (let k = length (takeWhile (\<lambda>i. node_block p i \<le> unat l) [i..<node_count p])
     in if k = 0 then best else Some (12 + 12 * (i + k - 1)))"
  using assms(2)
proof (induction n arbitrary: i best)
  case (Suc n)
  have len: "12 + 12 * i + 4 \<le> length p" using assms(1) Suc.prems by (simp add: node_ok_def)
  have up: "[i..<node_count p] = i # [Suc i..<node_count p]" using Suc.prems by (simp add: upt_conv_Cons)
  have c: "u32_of_le (drop (12 + 12 * i) p) > l \<longleftrightarrow> \<not> node_block p i \<le> unat l"
    by (simp add: node_block_def word_less_nat_alt not_le)
  show ?case using Suc.IH[of "Suc i" "Some (12 + 12 * i)"] Suc.prems len c unfolding up by (simp add: r32_list Let_def)
qed simp

lemma best_index_ok:
  assumes "node_ok p"
  shows "best_index p l 0 (node_count p) None =
    Some (if idx_below p (unat l) = 0 then None else Some (12 + 12 * (idx_below p (unat l) - 1)))"
  using best_index_from[OF assms, of 0 "node_count p" l None] by (simp add: idx_below_def Let_def)

lemma idx_below_le: "idx_below p l \<le> node_count p"
  using length_takeWhile_le[of _ "[0..<node_count p]"] by (simp add: idx_below_def)

text \<open>A node read into a larger buffer.\<close>

lemma of_le_append:
  "k + 4 \<le> length p \<Longrightarrow> u32_of_le (drop k (p @ q)) = u32_of_le (drop k p)"
  "k + 2 \<le> length p \<Longrightarrow> u16_of_le (drop k (p @ q)) = u16_of_le (drop k p)"
  by (simp_all add: u32_of_le_def u16_of_le_def nth_append)

lemma node_append:
  assumes "node_ok p"
  shows "node_count (p @ q) = node_count p" "node_magic (p @ q) = node_magic p"
    "i < node_count p \<Longrightarrow> node_block (p @ q) i = node_block p i \<and> ext_len (p @ q) i = ext_len p i \<and> ext_start (p @ q) i = ext_start p i"
  using assms of_le_append(2)[of 0 p q]
  by (simp_all add: node_ok_def node_count_def node_magic_def node_block_def ext_len_def ext_start_def of_le_append del: drop_append)

lemma leaf_append:
  assumes "leaf_ok p"
  shows "leaf_ok (p @ q)" "leaf_map (p @ q) l = leaf_map p l"
proof -
  have n: "node_ok p" using assms by (simp add: leaf_ok_def)
  note a = node_append[OF n]
  show "leaf_ok (p @ q)" using assms a n by (auto simp: leaf_ok_def node_ok_def)
  have "List.find (ext_covers (p @ q) l) [0..<node_count p] = List.find (ext_covers p l) [0..<node_count p]"
    by (rule find_cong) (simp_all add: ext_covers_def a)
  moreover have "i < node_count p" if "List.find (ext_covers p l) [0..<node_count p] = Some i" for i
    using that by (auto simp: find_Some_iff)
  ultimately show "leaf_map (p @ q) l = leaf_map p l"
    using a(3)[of _ q] by (auto simp: leaf_map_def a(1) split: option.split)
qed

section \<open>Directory blocks\<close>

lemma match_name_take:
  "length name \<le> length bs \<Longrightarrow> match_name bs name = Some (map chr8 (take (length name) bs) = name)"
  by (induction bs name rule: match_name.induct) auto

lemma dir_find_Cons:
  "dir_find name (e # es) = (if fst e \<noteq> 0 \<and> snd e = name then fst e else dir_find name es)"
  by (simp add: dir_find_def split: prod.split)

lemma dir_find_append: "dir_find name (es @ fs) = (if dir_find name es \<noteq> 0 then dir_find name es else dir_find name fs)"
  by (induction es) (auto simp: dir_find_Cons dir_find_def)

lemma dirent_fields:
  assumes "pos + 8 \<le> length b"
  shows "r32 (drop pos (b @ q)) 0 = Some (fst (de_entry b pos))"
    "r16 (drop pos (b @ q)) 4 = Some (u16_of_le (drop (pos + 4) b))" "r8 (drop pos (b @ q)) 6 = Some (b ! (pos + 6))"
  using assms of_le_append(1)[of pos b q] of_le_append(2)[of "pos + 4" b q]
  by (simp_all add: r32_def r16_def r8_def de_entry_def nth_append add.commute del: drop_append)

lemma dirent_name_eq:
  assumes "pos + 8 + name_len b pos \<le> length b" and "length name < 256"
  shows "(b ! (pos + 6) = of_nat (length name) \<and> match_name (drop 8 (drop pos (b @ q))) name = Some True) \<longleftrightarrow>
    snd (de_entry b pos) = name"
    and "b ! (pos + 6) = of_nat (length name) \<Longrightarrow> match_name (drop 8 (drop pos (b @ q))) name \<noteq> None"
proof -
  have l: "b ! (pos + 6) = of_nat (length name) \<longleftrightarrow> name_len b pos = length name"
    using assms(2) by (auto simp: name_len_def word_unat_eq_iff unat_of_nat)
  have m: "match_name (drop 8 (drop pos (b @ q))) name = Some (snd (de_entry b pos) = name)" if "name_len b pos = length name"
    using match_name_take[of name "drop 8 (drop pos (b @ q))"] assms(1) that
    by (simp add: de_entry_def slice_def add.commute)
  show "(b ! (pos + 6) = of_nat (length name) \<and> match_name (drop 8 (drop pos (b @ q))) name = Some True) \<longleftrightarrow>
      snd (de_entry b pos) = name"
  proof (cases "name_len b pos = length name")
    case False
    then have "length (snd (de_entry b pos)) \<noteq> length name" using assms(1) by (simp add: de_entry_def slice_def)
    then show ?thesis using False l by auto
  qed (simp add: l m del: drop_append drop_drop)
  show "b ! (pos + 6) = of_nat (length name) \<Longrightarrow> match_name (drop 8 (drop pos (b @ q))) name \<noteq> None"
    using l m by simp
qed

lemma scan_block_from:
  assumes "limit \<le> length b" and "length name < 256"
    and "\<forall>pos\<in>set (dirent_pos b limit pos). pos + 8 + name_len b pos \<le> length b"
  shows "scan_block (b @ q) limit name pos = Some (dir_find name (map (de_entry b) (dirent_pos b limit pos)))"
  using assms(1,3)
proof (induction b limit pos rule: dirent_pos.induct)
  case (1 b limit pos)
  note eq = scan_block.simps[of "b @ q" limit name pos] and ds = dirent_pos.simps[of b limit pos]
  consider "\<not> pos + 8 \<le> limit" | "pos + 8 \<le> limit" "rec_len b pos = 0" | (more) "pos + 8 \<le> limit" "rec_len b pos \<noteq> 0"
    by blast
  then show ?case
  proof cases
    case 1
    then show ?thesis unfolding eq ds by (simp add: dir_find_def)
  next
    case 2
    then show ?thesis
      unfolding eq ds using "1.prems"(1) dirent_fields[of pos b q]
      by (simp add: dir_find_def rec_len_def unat_zero_iff del: drop_append)
  next
    case more
    then have nl: "pos + 8 + name_len b pos \<le> length b" using "1.prems"(2) ds by simp
    have IH: "scan_block (b @ q) limit name (pos + rec_len b pos) =
        Some (dir_find name (map (de_entry b) (dirent_pos b limit (pos + rec_len b pos))))"
      using 1 more ds by simp
    have rl: "u16_of_le (drop (pos + 4) b) \<noteq> 0" using more(2) by (simp add: rec_len_def unat_zero_iff)
    show ?thesis
      unfolding eq using "1.prems"(1) more nl rl IH ds dirent_fields[of pos b q] dirent_name_eq[OF nl assms(2), of q]
      by (auto simp: dir_find_Cons rec_len_def[symmetric] Let_def simp del: drop_append split: option.splits bool.splits)
  qed
qed

text \<open>The specification depends on the geometry only.\<close>

lemma file_block_cong: "geom v = geom w \<Longrightarrow> file_block D v = file_block D w" "geom v = geom w \<Longrightarrow> block_ok D N v = block_ok D N w"
  by (auto simp: fun_eq_iff file_block_def block_map_def block_ok_def extent_map_def extent_ok_def leaf_block_def geom_fields[of v w])

lemma inode_cong: "geom v = geom w \<Longrightarrow> inode_data D v = inode_data D w" "geom v = geom w \<Longrightarrow> inode_ok D N v = inode_ok D N w"
  by (auto simp: fun_eq_iff inode_data_def inode_ok_def inode_pos_def inode_table_def group_pos_def geom_fields[of v w])

lemma dir_cong:
  assumes "geom v = geom w"
  shows "dir_list D v = dir_list D w" "dir_ok D N v = dir_ok D N w"
proof -
  have "dir_nblk v = dir_nblk w" "dir_limit v = dir_limit w"
    by (simp_all add: fun_eq_iff dir_nblk_def dir_limit_def block_limit_def geom_fields[OF assms])
  then show "dir_list D v = dir_list D w" "dir_ok D N v = dir_ok D N w"
    by (simp_all add: fun_eq_iff dir_list_def dir_ok_def file_block_cong[OF assms] inode_cong[OF assms])
qed

lemma walk_cong:
  assumes "geom v = geom w" shows "walk D v ino cs = walk D w ino cs" "walk_ok D N v ino cs = walk_ok D N w ino cs"
  by (induction cs arbitrary: ino) (simp_all add: Let_def dir_cong[OF assms] inode_cong[OF assms])

locale byte_dev =
  fixes env :: ext4_env and ok :: "Ext4Vol \<Rightarrow> bool" and D :: "nat \<Rightarrow> u8" and N :: nat
  assumes size: "N < 2 ^ 64"
    and read_ok: "ok v \<Longrightarrow> 0 < unat n \<Longrightarrow> unat off + unat n \<le> N \<Longrightarrow>
      \<exists>v'. read_bytes env v off n = Some (v', Some (img D (unat off) (unat n))) \<and> ok v' \<and> geom v' = geom v"
begin

lemma inode_read_ok:
  assumes "ok v" and "geom_ok v" and "inode_ok D N v ino"
  shows "\<exists>v'. inode_read env v ino = Some (v', Some (inode_data D v ino)) \<and> ok v' \<and> geom v' = geom v"
proof -
  let ?grp = "(ino - 1) div v_inodes_per_group v" and ?loc = "(ino - 1) mod v_inodes_per_group v"
  have i: "unat (ino - 1) = unat ino - 1" using assms(3) by (simp add: inode_ok_def unat_minus_one)
  have ds: "unat (v_desc_size v) \<in> {32, 64}" using assms(2) by (auto simp: geom_ok_def)
  have g: "unat ?grp = (unat ino - 1) div unat (v_inodes_per_group v)"
    and l: "unat ?loc = (unat ino - 1) mod unat (v_inodes_per_group v)"
    by (simp_all add: unat_div_distrib unat_mod_distrib i)
  let ?off = "v_bgdt_off v + ucast ?grp * ucast (v_desc_size v)"
  have "unat ?grp * unat (v_desc_size v) < 2 ^ 64"
    using assms(3) size by (simp add: inode_ok_def group_pos_def g)
  then have off: "unat ?off = group_pos v ino"
    using assms(3) size unat_add64[of "v_bgdt_off v" "ucast ?grp * ucast (v_desc_size v)"]
      unat_mult64[of "ucast ?grp" "ucast (v_desc_size v)"]
    by (simp add: inode_ok_def group_pos_def g)
  obtain v1 where v1: "read_bytes env v ?off (ucast (v_desc_size v)) =
      Some (v1, Some (img D (group_pos v ino) (unat (v_desc_size v))))" "ok v1" "geom v1 = geom v"
    using read_ok[OF assms(1), of "ucast (v_desc_size v)" ?off] ds assms(3) off by (auto simp: inode_ok_def)
  note f = geom_fields[OF v1(3)]
  define lo where "lo = le32 D (group_pos v ino + 8)"
  define hi where "hi = (if v_desc_size v \<ge> 64 then le32 D (group_pos v ino + 40) else 0)"
  let ?it = "ucast lo OR push_bit 32 (ucast hi) :: u64"
  have it: "unat ?it = inode_table D v ino"
    using assms(2) by (auto simp: unat_hi_lo inode_table_def lo_def hi_def geom_ok_def)
  let ?pos = "?it * ucast (v_block_size v) + ucast ?loc * ucast (v_inode_size v)"
  have b: "inode_table D v ino * bsize v + unat ?loc * unat (v_inode_size v) < 2 ^ 64"
    using assms(3) size by (simp add: inode_ok_def inode_pos_def l)
  then have pos: "unat ?pos = inode_pos D v ino"
    using unat_add64[of "?it * ucast (v_block_size v)" "ucast ?loc * ucast (v_inode_size v)"]
      unat_mult64[of ?it "ucast (v_block_size v)"] unat_mult64[of "ucast ?loc" "ucast (v_inode_size v)"]
    by (simp add: it inode_pos_def l)
  have rd: "r32 (img D (group_pos v ino) (unat (v_desc_size v))) 8 = Some lo"
    "(if v_desc_size v \<ge> 64 then r32 (img D (group_pos v ino) (unat (v_desc_size v))) 40 else Some 0) = Some hi"
    using ds by (auto simp: r32_img lo_def hi_def word_le_nat_alt)
  obtain v2 where v2: "read_bytes env v1 ?pos (ucast (v_inode_size v)) = Some (v2, Some (inode_data D v ino))"
      "ok v2" "geom v2 = geom v1"
    using read_ok[OF v1(2), of "ucast (v_inode_size v)" ?pos] assms(2,3) pos
    by (auto simp: inode_ok_def geom_ok_def inode_data_def)
  have "inode_read env v ino = Some (v2, Some (inode_data D v ino))"
    using assms(2,3) v1(1) v2(1) rd f by (simp add: inode_read_def inode_ok_def geom_ok_def Let_def)
  then show ?thesis using v1 v2 by simp
qed

lemma blk_read_ok:
  assumes "ok v" and "geom_ok v" and "(unat w + 1) * bsize v \<le> N"
  shows "\<exists>v'. blk_read env v w = Some (v', Some (img D (unat w * bsize v) (bsize v))) \<and> ok v' \<and> geom v' = geom v"
proof -
  have "unat w * bsize v + bsize v \<le> N" using assms(3) by (simp add: algebra_simps)
  moreover from this have "unat (w * ucast (v_block_size v)) = unat w * bsize v"
    using size unat_mult64[of w "ucast (v_block_size v)"] by simp
  ultimately show ?thesis
    using read_ok[OF assms(1), of "ucast (v_block_size v)" "w * ucast (v_block_size v)"] assms(2)
    by (simp add: blk_read_def geom_ok_def)
qed

lemma extent_phys_ok:
  assumes "ok v" and "geom_ok v" and "extent_ok D N v eh (unat l)" and "12 \<le> length eh" and "scr + bsize v \<le> length two"
  shows "\<exists>v' two' w. extent_phys env v eh l scr two = Some (v', two', w) \<and> unat w = extent_map D v eh (unat l) \<and>
    ok v' \<and> geom v' = geom v \<and> length two' = length two"
proof -
  have rd: "r16 eh 0 = Some (u16_of_le eh)" "r16 eh 2 = Some (u16_of_le (drop 2 eh))" "r16 eh 6 = Some (u16_of_le (drop 6 eh))"
    using assms(4) by (simp_all add: r16_list)
  have dp: "u16_of_le (drop 6 eh) > 0 \<longleftrightarrow> node_depth eh \<noteq> 0"
    by (simp add: node_depth_def word_less_nat_alt)
  consider "\<not> node_magic eh" | "node_magic eh" "node_depth eh = 0" | "node_magic eh" "node_depth eh \<noteq> 0" "idx_below eh (unat l) = 0"
    | (index) "node_magic eh" "node_depth eh \<noteq> 0" "idx_below eh (unat l) \<noteq> 0" by blast
  then show ?thesis
  proof cases
    case 1
    then show ?thesis using assms(1) rd by (simp add: extent_phys_def extent_map_def node_magic_def)
  next
    case 2
    then show ?thesis using assms(1,3) rd dp leaf_scan_ok[of eh l]
      by (auto simp: extent_phys_def extent_map_def extent_ok_def node_magic_def node_count_def)
  next
    case 3
    then show ?thesis using assms(1,3) rd dp best_index_ok[of eh l]
      by (auto simp: extent_phys_def extent_map_def extent_ok_def node_magic_def node_count_def)
  next
    case index
    define k where "k = idx_below eh (unat l) - 1"
    define b where "b = leaf_block D v eh (unat l)"
    have nok: "node_ok eh" and bound: "(idx_leaf eh k + 1) * bsize v \<le> N" and lok: "node_magic b \<Longrightarrow> leaf_ok b"
      using index assms(3) by (auto simp: extent_ok_def k_def b_def)
    have k: "k < node_count eh" using index(3) idx_below_le[of eh "unat l"] by (simp add: k_def)
    have len: "24 + 12 * k \<le> length eh" using nok k by (simp add: node_ok_def)
    let ?w = "ucast (u32_of_le (drop (16 + 12 * k) eh)) OR push_bit 32 (ucast (u16_of_le (drop (20 + 12 * k) eh))) :: u64"
    have w: "unat ?w = idx_leaf eh k" by (simp add: unat_hi_lo16 idx_leaf_def)
    obtain v1 where v1: "blk_read env v ?w = Some (v1, Some b)" "ok v1" "geom v1 = geom v"
      using blk_read_ok[OF assms(1,2), of ?w] bound w by (auto simp: b_def leaf_block_def k_def)
    define two1 where "two1 = write_at two scr b"
    have lb: "length b = bsize v" "1024 \<le> bsize v" using assms(2) by (simp_all add: b_def leaf_block_def geom_ok_def)
    have put: "put two scr b = Some two1" using assms(5) lb by (simp add: put_def two1_def)
    have dr: "drop scr two1 = b @ drop (scr + length b) two" "length two1 = length two"
      using assms(5) lb by (simp_all add: two1_def write_at_def)
    have rd1: "r16 (drop scr two1) 0 = Some (u16_of_le (drop scr two1))"
      "r16 (drop scr two1) 2 = Some (u16_of_le (drop 2 (drop scr two1)))"
      using lb unfolding dr by (simp_all add: r16_list)
    have mg: "node_magic (drop scr two1) = node_magic b"
      using of_le_append(2)[of 0 b] lb unfolding dr by (simp add: node_magic_def)
    have bi: "best_index eh l 0 (unat (u16_of_le (drop 2 eh))) None = Some (Some (12 + 12 * k))"
      using best_index_ok[OF nok, of l] index(3) by (simp add: node_count_def k_def)
    have em: "extent_map D v eh (unat l) = (if node_magic b then leaf_map b (unat l) else 0)"
      using index by (simp add: extent_map_def b_def)
    have pre: "r32 eh (12 + 12 * k + 4) = Some (u32_of_le (drop (16 + 12 * k) eh))"
      "r16 eh (12 + 12 * k + 8) = Some (u16_of_le (drop (20 + 12 * k) eh))"
      using len by (simp_all add: r32_list r16_list)
    show ?thesis
    proof (cases "node_magic b")
      case True
      then have l: "leaf_ok (drop scr two1)" "leaf_map (drop scr two1) (unat l) = leaf_map b (unat l)"
        using leaf_append[OF lok] by (simp_all add: dr)
      then obtain x where x: "leaf_scan (drop scr two1) l 0 (node_count (drop scr two1)) = Some x" "unat x = leaf_map b (unat l)"
        using leaf_scan_ok[OF l(1), of l] by auto
      have "extent_phys env v eh l scr two = Some (v1, two1, x)"
        using index True mg rd rd1 dp bi pre v1(1) put x(1)
        by (simp add: extent_phys_def node_magic_def node_count_def)
      then show ?thesis using True em x(2) v1 dr by simp
    next
      case False
      then have "extent_phys env v eh l scr two = Some (v1, two1, 0)"
        using index mg rd rd1 dp bi pre v1(1) put by (simp add: extent_phys_def node_magic_def)
      then show ?thesis using False em v1 dr by simp
    qed
  qed
qed

lemma read_lblock_ok:
  assumes "ok v" and "geom_ok v" and "128 \<le> length inode" and "block_ok D N v inode (unat l)"
    and "scr + bsize v \<le> length two" and "out + bsize v \<le> length two"
  shows "\<exists>v' two'. read_lblock env v inode l out scr two = Some (v', two', True) \<and> ok v' \<and> geom v' = geom v \<and>
    length two' = length two \<and> take (bsize v) (drop out two') = file_block D v inode (unat l)"
proof -
  let ?fl = "u32_of_le (drop IN_FLAGS inode)"
  have fl: "r32 inode IN_FLAGS = Some ?fl" using assms(3) by (simp add: r32_list)
  have "\<exists>v1 two1 w. (if ?fl AND EXT4_EXTENTS_FL \<noteq> 0 then extent_phys env v (drop IN_BLOCK inode) l scr two
      else if l < 12 then do { p \<leftarrow> r32 (drop IN_BLOCK inode) (unat l * 4); Some (v, two, ucast p) }
      else Some (v, two, 0)) = Some (v1, two1, w) \<and> unat w = block_map D v inode (unat l) \<and>
      ok v1 \<and> geom v1 = geom v \<and> length two1 = length two"
  proof (cases "has_extents inode")
    case True
    then show ?thesis
      using extent_phys_ok[OF assms(1,2), of "drop IN_BLOCK inode" l scr two] assms(3-5)
      by (auto simp: has_extents_def block_map_def block_ok_def)
  next
    case False
    have l: "l < 12 \<longleftrightarrow> unat l < 12" by (simp add: word_less_nat_alt)
    have e: "40 + 4 * unat l = unat l * 4 + 40" by simp
    show ?thesis
      using False assms(1,3) by (cases "unat l < 12") (simp_all add: has_extents_def block_map_def r32_list l e)
  qed
  then obtain v1 two1 w where m: "(if ?fl AND EXT4_EXTENTS_FL \<noteq> 0 then extent_phys env v (drop IN_BLOCK inode) l scr two
      else if l < 12 then do { p \<leftarrow> r32 (drop IN_BLOCK inode) (unat l * 4); Some (v, two, ucast p) }
      else Some (v, two, 0)) = Some (v1, two1, w)" "unat w = block_map D v inode (unat l)"
      "ok v1" "geom v1 = geom v" "length two1 = length two" by blast
  note g = geom_fields[OF m(4)]
  have put: "put two1 out d = Some (write_at two1 out d)" "take (bsize v) (drop out (write_at two1 out d)) = d"
      "length (write_at two1 out d) = length two" if "length d = bsize v" for d
    using assms(6) m(5) that by (simp_all add: put_def write_at_def)
  show ?thesis
  proof (cases "w = 0")
    case True
    then have "read_lblock env v inode l out scr two = Some (v1, write_at two1 out (replicate (bsize v) 0), True)"
      using fl m(1) put(1)[of "replicate (bsize v) 0"] g by (simp add: read_lblock_def)
    then show ?thesis using True m put(2,3)[of "replicate (bsize v) 0"] by (simp add: file_block_def)
  next
    case False
    then have nz: "block_map D v inode (unat l) \<noteq> 0" using m(2) by (simp add: unat_zero_iff[symmetric])
    obtain v2 where v2: "blk_read env v1 w = Some (v2, Some (file_block D v inode (unat l)))" "ok v2" "geom v2 = geom v1"
      using blk_read_ok[OF m(3), of w] geom_ok_cong[OF m(4)] assms(2,4) m(2) nz g
      by (auto simp: block_ok_def file_block_def)
    have len: "length (file_block D v inode (unat l)) = bsize v" by (simp add: file_block_def)
    have "read_lblock env v inode l out scr two = Some (v2, write_at two1 out (file_block D v inode (unat l)), True)"
      using fl m(1) False v2(1) put(1)[OF len] by (simp add: read_lblock_def)
    then show ?thesis using m(4) v2 put(2,3)[OF len] by simp
  qed
qed

lemma file_loop_ok:
  assumes "geom_ok v" and "128 \<le> length inode" and "length two = 2 * bsize v"
    and "\<forall>l<nb. block_ok D N v inode l" and "nb < 2 ^ 32" and "unat fsize \<le> nb * bsize v" and "(nb - 1) * bsize v < unat fsize"
    and "unat blk + n = nb" and "ok v"
  shows "\<exists>v'. file_loop env inode fsize blk n acc (v, two) = Some (v', Some (acc @
      take (unat fsize - unat blk * bsize v) (concat (map (file_block D v inode) [unat blk..<nb])))) \<and>
    ok v' \<and> geom v' = geom v"
  using assms(1,3,4,6-)
proof (induction n arbitrary: blk acc v two)
  case (Suc n)
  let ?bs = "bsize v" and ?F = "unat fsize"
  have b: "unat blk < nb" using Suc.prems by simp
  obtain v1 two1 where r: "read_lblock env v inode blk ?bs 0 two = Some (v1, two1, True)" "ok v1" "geom v1 = geom v"
      "length two1 = length two" "take ?bs (drop ?bs two1) = file_block D v inode (unat blk)"
    using read_lblock_ok[OF Suc.prems(7,1) assms(2), of blk 0 two ?bs] Suc.prems b by auto
  note g = geom_fields[OF r(3)] and c = file_block_cong[OF r(3)]
  have nxt: "unat (blk + 1) = unat blk + 1" using b assms(5) by (simp add: unat_word_ariths)
  have lt: "unat blk * ?bs < ?F"
  proof -
    have "unat blk * ?bs \<le> (nb - 1) * ?bs" using b by (intro mult_le_mono1) simp
    then show ?thesis using Suc.prems(5) by (rule le_less_trans)
  qed
  let ?dst = "ucast blk * ucast (v_block_size v) :: u64"
  have dst: "unat ?dst = unat blk * ?bs"
    using unat_mult64[of "ucast blk" "ucast (v_block_size v)"] lt unsigned_less[of fsize, where 'a = nat] by simp
  have rem: "unat (fsize - ?dst) = ?F - unat blk * ?bs" using lt dst by (simp add: unat_sub_if')
  define len where "len = (if fsize - ?dst > ucast (v_block_size v) then ucast (v_block_size v) else fsize - ?dst)"
  have len: "unat len = min (?F - unat blk * ?bs) ?bs" using rem by (auto simp: len_def word_less_nat_alt)
  have sl: "slice two1 ?bs (unat len) = take (?F - unat blk * ?bs) (file_block D v inode (unat blk))"
  proof -
    have "slice two1 ?bs (unat len) = take (unat len) (take ?bs (drop ?bs two1))" by (simp add: slice_def len min.commute)
    then show ?thesis unfolding r(5) len by (simp add: file_block_def min_def)
  qed
  obtain v2 where v2: "file_loop env inode fsize (blk + 1) n (acc @ slice two1 ?bs (unat len)) (v1, two1) =
      Some (v2, Some ((acc @ slice two1 ?bs (unat len)) @
        take (?F - unat (blk + 1) * ?bs) (concat (map (file_block D v inode) [unat (blk + 1)..<nb]))))" "ok v2" "geom v2 = geom v1"
    using Suc.IH[of v1 two1 "blk + 1" "acc @ slice two1 ?bs (unat len)"] Suc.prems r g c nxt geom_ok_cong[OF r(3)] by auto
  have "file_loop env inode fsize blk (Suc n) acc (v, two) =
      file_loop env inode fsize (blk + 1) n (acc @ slice two1 ?bs (unat len)) (v1, two1)"
    using r(1) by (simp add: len_def Let_def)
  moreover have "[unat blk..<nb] = unat blk # [unat (blk + 1)..<nb]" using b nxt by (simp add: upt_conv_Cons)
  moreover have "length (file_block D v inode (unat blk)) = ?bs" by (simp add: file_block_def)
  ultimately show ?case using v2 r(3) sl nxt by (simp add: algebra_simps)
qed simp

lemma block_limit_le: "geom_ok v \<Longrightarrow> block_limit v sz nb blk \<le> bsize v"
  by (auto simp: block_limit_def geom_ok_def unat_mod_distrib intro: less_imp_le[OF mod_less_divisor])

lemma lookup_loop_ok:
  assumes "128 \<le> length inode" and "length name < 256" and "unat blk + n = unat (dir_nblk v inode)"
    and "\<forall>l<unat (dir_nblk v inode). block_ok D N v inode l \<and> dirents_ok (file_block D v inode l) (dir_limit v inode l)"
    and "geom_ok v" and "length two = 2 * bsize v" and "ok v"
  shows "\<exists>v' two'. lookup_loop env name inode (dir_size inode) (dir_nblk v inode) blk n (v, two) =
      Some (v', two', dir_find name (concat (map (\<lambda>l. dirents (file_block D v inode l) (dir_limit v inode l))
        [unat blk..<unat (dir_nblk v inode)]))) \<and>
    ok v' \<and> geom v' = geom v \<and> length two' = length two"
  using assms(3-)
proof (induction n arbitrary: blk v two)
  case 0
  then show ?case by (simp add: dir_find_def)
next
  case (Suc n)
  let ?nb = "dir_nblk v inode"
  have b: "unat blk < unat ?nb" using Suc.prems(1) by simp
  obtain v1 two1 where r: "read_lblock env v inode blk 0 (bsize v) two = Some (v1, two1, True)" "ok v1" "geom v1 = geom v"
      "length two1 = length two" "take (bsize v) two1 = file_block D v inode (unat blk)"
    using read_lblock_ok[OF Suc.prems(5,3) assms(1), of blk "bsize v" two 0] Suc.prems(2,4) b by auto
  let ?es = "dirents (file_block D v inode (unat blk)) (dir_limit v inode (unat blk))"
  note g = geom_fields[OF r(3)] and c = file_block_cong[OF r(3)]
  have lim: "block_limit v1 (dir_size inode) ?nb blk = dir_limit v inode (unat blk)"
    by (simp add: dir_limit_def block_limit_def g)
  have two1: "two1 = file_block D v inode (unat blk) @ drop (bsize v) two1"
    using append_take_drop_id[of "bsize v" two1] r(5) by simp
  have scan: "scan_block two1 (dir_limit v inode (unat blk)) name 0 = Some (dir_find name ?es)"
    using scan_block_from[of "dir_limit v inode (unat blk)" "file_block D v inode (unat blk)" name 0 "drop (bsize v) two1"]
      Suc.prems(2) b assms(2) block_limit_le[OF Suc.prems(3)]
    by (subst two1) (simp add: dirents_def dirents_ok_def dir_limit_def file_block_def)
  have nxt: "unat (blk + 1) = unat blk + 1"
    using b unsigned_less[of ?nb, where 'a = nat] by (simp add: unat_word_ariths)
  have up: "[unat blk..<unat ?nb] = unat blk # [unat (blk + 1)..<unat ?nb]" using b nxt by (simp add: upt_conv_Cons)
  have nb: "dir_nblk v1 inode = ?nb" "dir_limit v1 inode = dir_limit v inode"
    by (simp_all add: dir_nblk_def dir_limit_def block_limit_def g fun_eq_iff)
  show ?case
  proof (cases "dir_find name ?es = 0")
    case True
    have "\<exists>v2 two2. lookup_loop env name inode (dir_size inode) ?nb (blk + 1) n (v1, two1) =
        Some (v2, two2, dir_find name (concat (map (\<lambda>l. dirents (file_block D v inode l) (dir_limit v inode l))
          [unat (blk + 1)..<unat ?nb]))) \<and> ok v2 \<and> geom v2 = geom v1 \<and> length two2 = length two1"
      using Suc.IH[of "blk + 1" v1 two1] Suc.prems r nxt g(1) c nb geom_ok_cong[OF r(3)] by simp
    then show ?thesis using True r(1,3,4) lim scan up by (auto simp: dir_find_append)
  next
    case False
    then show ?thesis using r lim scan up by (simp add: dir_find_append)
  qed
qed

lemma dir_lookup_ok:
  assumes "ok v" and "geom_ok v" and "dir_ok D N v ino" and "length name < 256" and "length two = 2 * bsize v"
  shows "\<exists>v' two'. dir_lookup_comp env ino name (v, two) =
      Some (v', two', dir_find name (dir_list D v (inode_data D v ino))) \<and>
    ok v' \<and> geom v' = geom v \<and> length two' = length two"
proof -
  let ?in = "inode_data D v ino"
  obtain v1 where v1: "inode_read env v ino = Some (v1, Some ?in)" "ok v1" "geom v1 = geom v"
    using inode_read_ok[OF assms(1,2)] assms(3) by (auto simp: dir_ok_def)
  note g = geom_fields[OF v1(3)] and c = file_block_cong[OF v1(3)]
  have len: "128 \<le> length ?in" using assms(2) by (simp add: inode_data_def geom_ok_def)
  have nb: "dir_nblk v1 ?in = dir_nblk v ?in" "dir_limit v1 ?in = dir_limit v ?in"
    by (simp_all add: dir_nblk_def dir_limit_def block_limit_def g fun_eq_iff)
  obtain v2 two2 where l: "lookup_loop env name ?in (dir_size ?in) (dir_nblk v ?in) 0 (unat (dir_nblk v ?in)) (v1, two) =
      Some (v2, two2, dir_find name (dir_list D v ?in))" "ok v2" "geom v2 = geom v1" "length two2 = length two"
    using lookup_loop_ok[OF len assms(4), of 0 _ v1 two] assms(3,5) v1(2) geom_ok_cong[OF v1(3)] assms(2) nb c g(1)
    by (auto simp: dir_ok_def dir_list_def)
  have "v_block_size v1 \<noteq> 0" using assms(2) g(1) by (auto simp: geom_ok_def)
  then have "dir_lookup_comp env ino name (v, two) = Some (v2, two2, dir_find name (dir_list D v ?in))"
    using v1(1) l(1) len g(1) by (simp add: dir_lookup_comp_def r32_list dir_size_def dir_nblk_def)
  then show ?thesis using l v1(3) by simp
qed

lemma path_walk_ok:
  assumes "walk_ok D N v ino (path_comps p)" and "ok v" and "geom_ok v" and "length two = 2 * bsize v"
  shows "\<exists>v' two'. path_walk env ino p (v, two) = Some (v', two', walk D v ino (path_comps p)) \<and>
    ok v' \<and> geom v' = geom v \<and> length two' = length two"
  using assms
proof (induction p arbitrary: ino v two rule: path_comps.induct)
  case (1 p)
  show ?case
  proof (cases "nz p \<and> component p \<noteq> []")
    case False
    have "path_comps p = []" using False by (subst path_comps.simps) auto
    moreover have "path_walk env ino p (v, two) = Some (v, two, ino)" using False by (subst path_walk.simps) auto
    ultimately show ?thesis using "1.prems"(2) by simp
  next
    case True
    then have pc: "path_comps p = component p # path_comps (next_component p)" by (subst path_comps.simps) simp
    let ?i = "dir_find (component p) (dir_list D v (inode_data D v ino))"
    obtain v1 two1 where l: "dir_lookup_comp env ino (component p) (v, two) = Some (v1, two1, ?i)"
        "ok v1" "geom v1 = geom v" "length two1 = length two"
      using dir_lookup_ok[OF "1.prems"(2,3), of ino "component p" two] "1.prems"(1,4) pc by auto
    have pw: "path_walk env ino p (v, two) =
        (if ?i = 0 then Some (v1, two1, 0) else path_walk env ?i (next_component p) (v1, two1))"
      using True l(1) by (subst path_walk.simps) simp
    show ?thesis
    proof (cases "?i = 0")
      case True
      then show ?thesis using l pw pc by simp
    next
      case False
      then have "\<exists>v' two'. path_walk env ?i (next_component p) (v1, two1) = Some (v', two', walk D v1 ?i (path_comps (next_component p))) \<and>
          ok v' \<and> geom v' = geom v1 \<and> length two' = length two1"
        using "1.IH"[OF True, of v1 ?i two1] "1.prems" pc l geom_ok_cong[OF l(3)] geom_fields(1)[OF l(3)] walk_cong[OF l(3)]
        by (simp add: Let_def)
      then show ?thesis using False l pw pc walk_cong[OF l(3)] by auto
    qed
  qed
qed

lemma find_inode_ok:
  fixes v path
  defines "ino \<equiv> walk D v EXT4_ROOT_INO (path_comps (skip_slashes path))"
  assumes "walk_ok D N v EXT4_ROOT_INO (path_comps (skip_slashes path))" and "ok v" and "geom_ok v"
    and "ino = 0 \<or> inode_ok D N v ino"
  shows "\<exists>v' two. find_inode env v path = Some (v', two, if ino = 0 then None else Some (inode_data D v ino)) \<and>
    ok v' \<and> geom v' = geom v \<and> length two = 2 * bsize v"
proof -
  have "bsize v * 2 < 2 ^ 32" using assms(4) by (simp add: geom_ok_def)
  then have "length (two_blocks env v) = 2 * bsize v" by (simp add: two_blocks_def unat_word_ariths)
  then obtain v1 two1 where p: "path_walk env EXT4_ROOT_INO (skip_slashes path) (v, two_blocks env v) = Some (v1, two1, ino)"
      "ok v1" "geom v1 = geom v" "length two1 = 2 * bsize v"
    using path_walk_ok[OF assms(2-4), of "two_blocks env v"] by (auto simp: ino_def)
  show ?thesis
  proof (cases "ino = 0")
    case True
    then show ?thesis using p by (simp add: find_inode_def path_lookup_def)
  next
    case False
    then have i: "inode_ok D N v1 ino" using assms(5) inode_cong[OF p(3)] by simp
    have "geom_ok v1" using assms(4) geom_ok_cong[OF p(3)] by simp
    then obtain v2 where "inode_read env v1 ino = Some (v2, Some (inode_data D v ino))" "ok v2" "geom v2 = geom v1"
      using inode_read_ok[OF p(2) _ i] inode_cong(1)[OF p(3), of D] by auto
    then show ?thesis using p False by (auto simp: find_inode_def path_lookup_def)
  qed
qed

lemma read_file_ok:
  fixes v path
  defines "ino \<equiv> walk D v EXT4_ROOT_INO (path_comps (skip_slashes path))"
  defines "inode \<equiv> inode_data D v ino"
  assumes "walk_ok D N v EXT4_ROOT_INO (path_comps (skip_slashes path))" and "ok v" and "geom_ok v"
    and "ino \<noteq> 0" and "inode_ok D N v ino" and "\<forall>l<file_nblk v (file_size inode). block_ok D N v inode l"
    and "0 < file_size inode" and "file_size inode \<le> 134217728" and "pools_ok env v" and "en_alloc env (of_nat (file_size inode + 1))"
  shows "\<exists>v'. ext4_read_file env v path = Some (v', Some (file_bytes D v inode)) \<and> ok v' \<and> geom v' = geom v"
proof -
  let ?F = "file_size inode" and ?bs = "bsize v"
  obtain v1 two where f: "find_inode env v path = Some (v1, two, Some inode)" "ok v1" "geom v1 = geom v" "length two = 2 * ?bs"
    using find_inode_ok[OF assms(3-5)] assms(6,7) by (auto simp: ino_def inode_def)
  note g = geom_fields[OF f(3)]
  have len: "128 \<le> length inode" using assms(5) by (simp add: inode_def inode_data_def geom_ok_def)
  have rd: "r32 inode IN_SIZE_LO = Some (u32_of_le (drop IN_SIZE_LO inode))" "r32 inode IN_SIZE_HIGH = Some (u32_of_le (drop IN_SIZE_HIGH inode))"
    using len by (simp_all add: r32_list)
  define fs where "fs = (ucast (u32_of_le (drop IN_SIZE_LO inode)) OR push_bit 32 (ucast (u32_of_le (drop IN_SIZE_HIGH inode))) :: u64)"
  have fs: "unat fs = ?F" by (simp add: fs_def unat_hi_lo file_size_def)
  have bs: "0 < ?bs" "?bs \<le> 65536" "v_block_size v \<noteq> 0" using assms(5) by (auto simp: geom_ok_def)
  have nb: "unat ((fs + ucast (v_block_size v) - 1) div ucast (v_block_size v)) = file_nblk v ?F"
  proof -
    have s: "unat (fs + ucast (v_block_size v)) = ?F + ?bs" using unat_add64[of fs "ucast (v_block_size v)"] fs assms(10) bs by simp
    then have "fs + ucast (v_block_size v) \<noteq> 0" using bs by (metis add_is_0 less_not_refl unat_0)
    then have "unat (fs + ucast (v_block_size v) - 1) = ?F + ?bs - 1" using s by (simp add: unat_minus_one)
    then show ?thesis by (simp add: unat_div_distrib file_nblk_def)
  qed
  have q: "file_nblk v ?F * ?bs \<ge> ?F" "(file_nblk v ?F - 1) * ?bs < ?F" "file_nblk v ?F < 2 ^ 32"
  proof -
    have d: "file_nblk v ?F = (?F - 1) div ?bs + 1"
      using bs(1) assms(9) by (simp add: file_nblk_def div_if)
    have "?F - 1 < ((?F - 1) div ?bs + 1) * ?bs" using bs(1) dividend_less_div_times[of ?bs "?F - 1"] by (simp add: algebra_simps)
    then show "file_nblk v ?F * ?bs \<ge> ?F" unfolding d by simp
    have "(?F - 1) div ?bs * ?bs \<le> ?F - 1" by (rule div_times_less_eq_dividend)
    then show "(file_nblk v ?F - 1) * ?bs < ?F" unfolding d using assms(9) by (simp only: add_diff_cancel_right')
    have "(?F - 1) div ?bs \<le> ?F" by (rule order.trans[OF div_le_dividend]) simp
    then show "file_nblk v ?F < 2 ^ 32" unfolding d using assms(10) by simp
  qed
  have nbw: "unat (ucast ((fs + ucast (v_block_size v) - 1) div ucast (v_block_size v)) :: u32) = file_nblk v ?F"
    using nb q(3) by (simp add: unsigned_ucast_eq take_bit_nat_eq_self)
  obtain v2 where l: "file_loop env inode fs 0 (file_nblk v ?F) [] (v1, two) = Some (v2, Some (file_bytes D v inode))" "ok v2" "geom v2 = geom v1"
    using file_loop_ok[of v1 inode two "file_nblk v ?F" fs 0 "file_nblk v ?F" "[]"] len f g(1) geom_ok_cong[OF f(3)] assms(5,8) q fs
      file_block_cong[OF f(3)] by (auto simp: file_bytes_def)
  have "fs + 1 = of_nat (?F + 1)" by (simp add: fs[symmetric])
  then have "en_alloc env (fs + 1)" using assms(12) by (simp only:)
  moreover have "fs \<noteq> 0" "\<not> fs > 134217728" using fs assms(9,10) by (auto simp: word_less_nat_alt)
  ultimately have "ext4_read_file env v path = Some (v2, Some (file_bytes D v inode))"
    using f(1) rd assms(11,12) bs(3) g(1) nbw l(1) by (simp add: ext4_read_file_def fs_def[symmetric] Let_def)
  then show ?thesis using l f(3) by simp
qed

end

end
