(* ===== verification/Ext4_Dev.thy ===== *)
theory Ext4_Dev
  imports Ext4_Data
begin

text \<open>
  The three backends of \<^verbatim>\<open>read_bytes\<close> provide what the EXT4 reader relies on: DiskIO and BlockIO on
  a partition image, and a LUKS volume that holds the encrypted image.  Each is an interpretation of the
  locale \<open>byte_dev\<close>; the one for LUKS rests on the read loop lemma of \<open>disk_cipher\<close>.
\<close>

section \<open>DiskIO\<close>

definition dio_image :: "(nat \<Rightarrow> u8) \<Rightarrow> nat \<Rightarrow> read_proto" where
  "dio_image D N _ off n = (if unat off + unat n \<le> N then Some (img D (unat off) (unat n)) else None)"

interpretation dio_dev: byte_dev env "\<lambda>v. v_luks v = None \<and> v_dio v = Some (dio_image D (unat lim))" D "unat lim"
  for env D and lim :: u64
proof unfold_locales
  show "unat lim < 2 ^ 64" using unsigned_less[of lim, where 'a = nat] by simp
  fix v :: Ext4Vol and n off :: u64
  assume "v_luks v = None \<and> v_dio v = Some (dio_image D (unat lim))" and "unat off + unat n \<le> unat lim"
  then show "\<exists>v'. read_bytes env v off n = Some (v', Some (img D (unat off) (unat n))) \<and>
      (v_luks v' = None \<and> v_dio v' = Some (dio_image D (unat lim))) \<and> geom v' = geom v"
    by (simp add: read_bytes_def dio_image_def)
qed

section \<open>BlockIO\<close>

text \<open>A device of whole blocks; allocations succeed.\<close>

definition bio_image :: "nat \<Rightarrow> (nat \<Rightarrow> u8) \<Rightarrow> nat \<Rightarrow> read_proto" where
  "bio_image bsz D N _ lba n = (if unat lba * bsz + unat n \<le> N then Some (img D (unat lba * bsz) (unat n)) else None)"

definition whole :: "u64 \<Rightarrow> u32 \<Rightarrow> nat" where
  "whole lim bsz = unat lim div unat bsz * unat bsz"

lemma block_span:
  fixes bsz :: nat
  assumes "0 < bsz" and "0 < n" and "off + n \<le> c * bsz"
  shows "off div bsz * bsz + ((off + n - 1) div bsz - off div bsz + 1) * bsz \<le> c * bsz"
    "off - off div bsz * bsz + n \<le> ((off + n - 1) div bsz - off div bsz + 1) * bsz"
proof -
  let ?f = "off div bsz" and ?l = "(off + n - 1) div bsz"
  have fl: "?f \<le> ?l" by (rule div_le_mono) (use assms(2) in simp)
  have "off + n - 1 < c * bsz" using assms(2,3) by simp
  then have "?l < c" by (simp add: less_mult_imp_div_less)
  then have "(?l + 1) * bsz \<le> c * bsz" by (intro mult_le_mono1) simp
  moreover have e: "?f * bsz + (?l - ?f + 1) * bsz = (?l + 1) * bsz" using fl by (simp flip: add_mult_distrib)
  ultimately show "?f * bsz + (?l - ?f + 1) * bsz \<le> c * bsz" by (simp only:)
  have "off + n - 1 < (?l + 1) * bsz"
    using dividend_less_div_times[OF assms(1), of "off + n - 1"] by (simp add: add.commute)
  moreover have "?f * bsz \<le> off" by (rule div_times_less_eq_dividend)
  ultimately show "off - ?f * bsz + n \<le> (?l - ?f + 1) * bsz"
    using e assms(2) by linarith
qed

text \<open>The same in 64-bit arithmetic.\<close>

lemma block_span_words:
  fixes off n bsz :: u64
  assumes "0 < unat bsz" and "0 < unat n" and "unat off + unat n \<le> c * unat bsz" and "c * unat bsz < 2 ^ 64"
  defines "fst_blk \<equiv> off div bsz" and "lst \<equiv> (off + n - 1) div bsz"
  shows "unat fst_blk = unat off div unat bsz"
    and "unat (lst - fst_blk + 1) = (unat off + unat n - 1) div unat bsz - unat off div unat bsz + 1"
    and "unat ((lst - fst_blk + 1) * bsz) = ((unat off + unat n - 1) div unat bsz - unat off div unat bsz + 1) * unat bsz"
    and "unat (off - fst_blk * bsz) = unat off - unat off div unat bsz * unat bsz"
proof -
  let ?f = "unat off div unat bsz" and ?l = "(unat off + unat n - 1) div unat bsz"
  note sp = block_span[OF assms(1-3)]
  have s: "unat (off + n) = unat off + unat n" using unat_add64[of off n] assms(3,4) by simp
  then have "off + n \<noteq> 0" using assms(2) by (metis add_is_0 less_not_refl unat_0)
  then have m: "unat (off + n - 1) = unat off + unat n - 1" using s by (simp add: unat_minus_one)
  have f: "unat fst_blk = ?f" and l: "unat lst = ?l" by (simp_all add: fst_blk_def lst_def unat_div_distrib m)
  show "unat fst_blk = ?f" by (rule f)
  have fl: "?f \<le> ?l" by (rule div_le_mono) (use assms(2) in simp)
  then have d: "unat (lst - fst_blk) = ?l - ?f" using f l by (simp add: unat_sub_if')
  have b: "(?l - ?f + 1) * unat bsz < 2 ^ 64" using sp(1) assms(4) by linarith
  moreover have "?l - ?f + 1 \<le> (?l - ?f + 1) * unat bsz" using assms(1) by (cases "unat bsz") simp_all
  ultimately have "?l - ?f + 1 < 2 ^ 64" by linarith
  then show c: "unat (lst - fst_blk + 1) = ?l - ?f + 1" using unat_add64[of "lst - fst_blk" 1] d by simp
  show "unat ((lst - fst_blk + 1) * bsz) = (?l - ?f + 1) * unat bsz"
    using unat_mult64[of "lst - fst_blk + 1" bsz] c b by simp
  have "?f * unat bsz \<le> unat off" by (rule div_times_less_eq_dividend)
  moreover from this have "unat (fst_blk * bsz) = ?f * unat bsz"
    using unat_mult64[of fst_blk bsz] f le_less_trans[OF _ unsigned_less[of off, where 'a = nat]] by simp
  ultimately show "unat (off - fst_blk * bsz) = unat off - ?f * unat bsz" by (simp add: unat_sub_if')
qed

interpretation bio_dev: byte_dev "env\<lparr> en_alloc := \<lambda>_. True \<rparr>"
    "\<lambda>v. v_luks v = None \<and> v_dio v = None \<and> v_phys_blk_sz v = bsz \<and> v_bio v = bio_image (unat bsz) D (whole lim bsz)"
    D "whole lim bsz"
  for env D bsz and lim :: u64
proof unfold_locales
  have "whole lim bsz \<le> unat lim" by (simp add: whole_def)
  then show lt: "whole lim bsz < 2 ^ 64" using unsigned_less[of lim, where 'a = nat] by simp
  fix v :: Ext4Vol and n off :: u64
  assume v: "v_luks v = None \<and> v_dio v = None \<and> v_phys_blk_sz v = bsz \<and> v_bio v = bio_image (unat bsz) D (whole lim bsz)"
    and n: "0 < unat n" and b: "unat off + unat n \<le> whole lim bsz"
  let ?b = "ucast bsz :: u64" and ?s = "unat bsz"
  have s: "0 < ?s" using n b by (cases "?s = 0") (auto simp: whole_def)
  then have z: "?b \<noteq> 0" by (metis unat_ucast64 less_not_refl unat_0)
  note w = block_span_words[of ?b n off "unat lim div ?s"] and sp = block_span[OF s n, of "unat off" "unat lim div ?s"]
  have "read_bio (env\<lparr> en_alloc := \<lambda>_. True \<rparr>) v off n = Some (v, Some (img D (unat off) (unat n)))"
    using v s z w sp n b lt
    by (simp add: read_bio_def Let_def bio_image_def copy_out_def whole_def[symmetric]) (simp add: whole_def slice_img div_times_less_eq_dividend)
  then show "\<exists>v'. read_bytes (env\<lparr> en_alloc := \<lambda>_. True \<rparr>) v off n = Some (v', Some (img D (unat off) (unat n))) \<and>
      (v_luks v' = None \<and> v_dio v' = None \<and> v_phys_blk_sz v' = bsz \<and> v_bio v' = bio_image (unat bsz) D (whole lim bsz)) \<and> geom v' = geom v"
    using v by (simp add: read_bytes_def)
qed

section \<open>An encrypted partition\<close>

text \<open>
  The bytes of a LUKS payload, and a volume record, opened with some master key, on a device that holds
  the encrypted payload of \<open>M\<close> payload sectors.
\<close>

definition plain_byte :: "(nat \<Rightarrow> u8 list) \<Rightarrow> nat \<Rightarrow> nat \<Rightarrow> u8" where
  "plain_byte P spp i = P (i div (512 * spp)) ! (i mod (512 * spp))"

definition luks_part :: "u8 list \<Rightarrow> u32 \<Rightarrow> int \<Rightarrow> (nat \<Rightarrow> u8 list) \<Rightarrow> nat \<Rightarrow> nat \<Rightarrow> LuksVol \<Rightarrow> bool" where
  "luks_part mk kb mode P spp M lv \<longleftrightarrow> vol_decrypt lv = vol_decrypts mk kb mode \<and> secs_per_payload lv = spp \<and>
     unat (lv_sector_size lv) = 512 * spp \<and> spp \<le> 8 \<and> holds_payload lv (vol_encrypt mk kb mode) P M \<and>
     M * spp < 2 ^ 64 \<and> length (lv_decrypt_buf lv) = 4096"

lemma luks_part_buf:
  "luks_part mk kb mode P spp M lv \<Longrightarrow> length b = 4096 \<Longrightarrow> luks_part mk kb mode P spp M (lv\<lparr> lv_decrypt_buf := b \<rparr>)"
  by (auto simp: luks_part_def vol_decrypt_def secs_per_payload_def holds_payload_def fun_eq_iff)

lemma plain_sector_img:
  assumes "0 < spp" and "length (P (s div spp)) = 512 * spp"
  shows "plain_sector P spp s = img (plain_byte P spp) (s * 512) 512"
proof (rule nth_equalityI)
  have m: "s mod spp * 512 + 512 \<le> 512 * spp"
    using mod_less_divisor[OF assms(1), of s] by (metis Suc_leI add.commute mult.commute mult_Suc mult_le_mono1)
  then show "length (plain_sector P spp s) = length (img (plain_byte P spp) (s * 512) 512)"
    using assms(2) by (simp add: plain_sector_def slice_def)
  fix i assume "i < length (plain_sector P spp s)"
  then have i: "i < 512" by (simp add: plain_sector_def slice_def)
  have "(s * 512 + i) div (512 * spp) = s div spp" "(s * 512 + i) mod (512 * spp) = s mod spp * 512 + i"
    using i by (simp_all add: div_mult2_eq mod_mult2_eq)
  then show "plain_sector P spp s ! i = img (plain_byte P spp) (s * 512) 512 ! i"
    using i m assms(2) by (simp add: plain_byte_def plain_sector_def slice_def)
qed

lemma img_append: "img D a (m + n) = img D a m @ img D (a + m) n"
  using upt_add_eq_append[of a "a + m" n] by (simp add: img_def add.assoc)

lemma plain_sectors_img:
  assumes "0 < spp" and "\<forall>p<M. length (P p) = 512 * spp" and "l + c \<le> M * spp"
  shows "concat (map (plain_sector P spp) [l..<l + c]) = img (plain_byte P spp) (l * 512) (c * 512)"
  using assms(3)
proof (induction c)
  case (Suc c)
  have "l + c < M * spp" using Suc.prems by simp
  then have "(l + c) div spp < M" by (simp add: less_mult_imp_div_less)
  then have "plain_sector P spp (l + c) = img (plain_byte P spp) ((l + c) * 512) 512"
    using assms(1,2) by (simp add: plain_sector_img)
  then show ?case using Suc by (simp add: add.commute[of 512] img_append add_mult_distrib)
qed (simp add: img_def)

interpretation luks_dev: byte_dev "env\<lparr> en_alloc := \<lambda>_. True \<rparr>"
    "\<lambda>v. length (en_stack env) = 4096 \<and>
       (\<exists>lv M. v_luks v = Some lv \<and> luks_part mk kb mode P spp M lv \<and> unat lim \<le> M * spp)"
    "plain_byte P spp" "unat lim * 512"
  for env mk kb mode P spp and lim :: u32
proof unfold_locales
  show lt: "unat lim * 512 < 2 ^ 64" using unat_u32_less[of lim] by simp
  fix v :: Ext4Vol and n off :: u64
  assume "length (en_stack env) = 4096 \<and> (\<exists>lv M. v_luks v = Some lv \<and> luks_part mk kb mode P spp M lv \<and> unat lim \<le> M * spp)"
    and n: "0 < unat n" and b: "unat off + unat n \<le> unat lim * 512"
  then obtain lv M where st: "length (en_stack env) = 4096" and v: "v_luks v = Some lv"
    and lp: "luks_part mk kb mode P spp M lv" and M: "unat lim \<le> M * spp" by blast
  let ?f = "off div 512" and ?c = "(off + n - 1) div 512 - off div 512 + 1"
  let ?D = "plain_byte P spp"
  note sp = block_span[of 512 "unat n" "unat off" "unat lim", OF _ n b]
    and w = block_span_words[of 512 n off "unat lim"]
  have c: "unat ?f + unat ?c \<le> unat lim" using sp(1) w(1,2) n b lt by simp
  then have uc: "unat (ucast ?c :: u32) = unat ?c"
    using unat_u32_less[of lim] by (simp add: unsigned_ucast_eq take_bit_nat_eq_self)
  have p: "0 < spp" "\<forall>p<M. length (P p) = 512 * spp"
    using lp by (auto simp: luks_part_def holds_payload_def secs_per_payload_def)
  obtain d where d: "length d = 4096" "luks_vol_read (en_stack env) lv ?f (ucast ?c) = Some (lv\<lparr> lv_decrypt_buf := d \<rparr>,
      Some (img ?D (unat ?f * 512) (unat ?c * 512)))"
    using luks_disk.read_loop_plain[of lv mk kb mode P M ?f "unat ?c" "en_stack env"] lp st c M plain_sectors_img[OF p, of "unat ?f" "unat ?c"]
    by (auto simp: luks_part_def luks_vol_read_def uc)
  have "read_luks (env\<lparr> en_alloc := \<lambda>_. True \<rparr>) v lv off n =
      Some (v\<lparr> v_luks := Some (lv\<lparr> lv_decrypt_buf := d \<rparr>) \<rparr>, Some (img ?D (unat off) (unat n)))"
    using d(2) sp(2) w n b lt by (simp add: read_luks_def Let_def copy_out_def slice_img div_times_less_eq_dividend)
  then show "\<exists>v'. read_bytes (env\<lparr> en_alloc := \<lambda>_. True \<rparr>) v off n = Some (v', Some (img ?D (unat off) (unat n))) \<and>
      (length (en_stack env) = 4096 \<and> (\<exists>lv M. v_luks v' = Some lv \<and> luks_part mk kb mode P spp M lv \<and> unat lim \<le> M * spp)) \<and>
      geom v' = geom v"
    using v st luks_part_buf[OF lp d(1)] M by (auto simp: read_bytes_def geom_def)
qed

end
