(* ===== verification/Ext4_Files.thy ===== *)
theory Ext4_Files
  imports Ext4_Dev
begin

text \<open>
  The public operations of the EXT4 reader on a partition: mounting reads the layout from the
  superblock, \<^verbatim>\<open>ext4_read_file\<close> returns the contents of the file a path leads to and
  \<^verbatim>\<open>ext4_readdir\<close> visits the files and directories of a directory.  The results are stated over
  the bytes of the partition, for a plain partition and for one inside a LUKS volume.
\<close>

section \<open>The superblock\<close>

definition super_ok :: "(nat \<Rightarrow> u8) \<Rightarrow> bool" where
  "super_ok D \<longleftrightarrow> le16 D 1080 = EXT4_SUPER_MAGIC \<and> unat (le32 D 1048) \<le> 6 \<and> le32 D 1064 \<noteq> 0 \<and>
     unat (le32 D 1044) + 1 < 2 ^ 32"

definition super_bsize :: "(nat \<Rightarrow> u8) \<Rightarrow> nat" where
  "super_bsize D = 1024 * 2 ^ unat (le32 D 1048)"

definition layout :: "(nat \<Rightarrow> u8) \<Rightarrow> Ext4Vol" where
  "layout D = zero_ext4\<lparr> v_block_size := of_nat (super_bsize D), v_inodes_per_group := le32 D 1064,
     v_inode_size := of_nat (max 128 (unat (le16 D 1112))),
     v_bgdt_off := of_nat ((unat (le32 D 1044) + 1) * super_bsize D),
     v_desc_size := (if bit (le32 D 1120) 7 \<and> 64 \<le> unat (le16 D 1278) then 64 else 32) \<rparr>"

lemma super_bsize_bounds:
  assumes "super_ok D" shows "1024 \<le> super_bsize D" "super_bsize D \<le> 65536"
proof -
  have "(2::nat) ^ unat (le32 D 1048) \<le> 2 ^ 6" using assms by (intro power_increasing) (auto simp: super_ok_def)
  then show "1024 \<le> super_bsize D" "super_bsize D \<le> 65536" by (simp_all add: super_bsize_def)
qed

lemma layout_ok:
  assumes "super_ok D" shows "geom_ok (layout D)"
proof -
  have b: "unat (of_nat (super_bsize D) :: u32) = super_bsize D"
    using super_bsize_bounds[OF assms] by (simp add: unat_of_nat)
  have "unat (le16 D 1112) < 65536" by (rule order.strict_trans2[OF unsigned_less]) simp
  then have "unat (of_nat (max 128 (unat (le16 D 1112))) :: u32) = max 128 (unat (le16 D 1112))"
    by (simp add: unat_of_nat)
  then show ?thesis using b super_bsize_bounds[OF assms] assms by (simp add: geom_ok_def layout_def super_ok_def)
qed

lemma and_bit7: "(w :: u32) AND EXT4_FEATURE_INCOMPAT_64BIT \<noteq> 0 \<longleftrightarrow> bit w 7"
  using and_exp_eq_0_iff_not_bit[of w 7] by (simp add: EXT4_FEATURE_INCOMPAT_64BIT_def)

lemma ext4_fields_img:
  assumes "super_ok D" and "256 \<le> n"
  shows "\<exists>v'. ext4_fields (img D 1024 n) v = Some v' \<and> geom v' = layout D \<and> v_dio v' = v_dio v \<and> v_luks v' = v_luks v"
proof -
  have bs: "push_bit (unat (le32 D 1048)) 1024 = (of_nat (super_bsize D) :: u32)"
    by (simp add: super_bsize_def push_bit_eq_mult)
  have b: "unat (of_nat (super_bsize D) :: u32) = super_bsize D"
    using super_bsize_bounds[OF assms(1)] by (simp add: unat_of_nat)
  have f: "unat (le32 D 1044 + 1) = unat (le32 D 1044) + 1" using assms(1) by (simp add: super_ok_def unat_word_ariths)
  have g: "ucast (le32 D 1044 + 1) * ucast (of_nat (super_bsize D) :: u32) =
      (of_nat ((unat (le32 D 1044) + 1) * super_bsize D) :: u64)"
  proof -
    have "ucast (le32 D 1044 + 1) * ucast (of_nat (super_bsize D) :: u32) =
        (of_nat (unat (le32 D 1044 + 1)) * of_nat (unat (of_nat (super_bsize D) :: u32)) :: u64)" by simp
    then show ?thesis unfolding f b of_nat_mult .
  qed
  have i: "(if le16 D 1112 < 128 then 128 else ucast (le16 D 1112)) = (of_nat (max 128 (unat (le16 D 1112))) :: u32)"
    by (simp add: word_less_nat_alt max_def)
  show ?thesis
    using assms(2) i by (simp add: ext4_fields_def r32_img r16_img geom_def layout_def bs g and_bit7 word_le_nat_alt Let_def)
qed
lemma geom_layout [simp]: "geom (layout D) = layout D"
  by (simp add: geom_def layout_def)

lemma geom_layoutD:
  assumes "geom v = layout D" and "super_ok D" shows "geom v = geom (layout D)" "geom_ok v"
  using assms layout_ok[OF assms(2)] geom_ok_cong[of v "layout D"] by simp_all

text \<open>Media the reader accepts.\<close>

definition media_ok :: "efi_media \<Rightarrow> bool" where
  "media_ok m \<longleftrightarrow> em_present m \<and> em_logical m \<and> em_block_size m \<noteq> 0 \<and> em_block_size m \<noteq> 2048 \<and> 2 \<le> em_last_block m"

lemma ext4_mount_image:
  assumes "super_ok D" and "2048 \<le> N" and "media_ok media" and "en_alloc env 72"
  shows "\<exists>v. ext4_mount env h (Some (media, rd)) (Some (dio_image D N)) = Some (Some v) \<and> geom v = layout D \<and>
    v_dio v = Some (dio_image D N) \<and> v_luks v = None"
proof -
  let ?v = "zero_ext4\<lparr> v_dio := Some (dio_image D N), v_bio := rd, v_media_id := em_media_id media,
    v_phys_blk_sz := em_block_size media, v_part_handle := Some h \<rparr>"
  obtain v where v: "ext4_fields (img D 1024 1024) ?v = Some v" "geom v = layout D" "v_dio v = Some (dio_image D N)" "v_luks v = None"
    using ext4_fields_img[OF assms(1), of 1024 ?v] by (auto simp: zero_ext4_def)
  have "ext4_mount env h (Some (media, rd)) (Some (dio_image D N)) = Some (Some v)"
    using assms v(1)
    by (simp add: ext4_mount_def read_bytes_def dio_image_def zero_ext4_def EXT4_SUPERBLOCK_OFFSET_def r16_img super_ok_def
        media_ok_def not_less)
  then show ?thesis using v by simp
qed

lemma ext4_mount_luks_image:
  assumes "luks_part mk kb mode P spp M lv" and "3 \<le> M * spp" and "length (en_stack env) = 4096"
    and "super_ok (plain_byte P spp)" and "en_alloc env 72"
  shows "\<exists>v lv'. ext4_mount_luks env (Some lv) = Some (Some v) \<and> geom v = layout (plain_byte P spp) \<and>
    v_luks v = Some lv' \<and> luks_part mk kb mode P spp M lv'"
proof -
  let ?D = "plain_byte P spp"
  have p: "0 < spp" "\<forall>p<M. length (P p) = 512 * spp"
    using assms(1) by (auto simp: luks_part_def holds_payload_def secs_per_payload_def)
  obtain d where d: "length d = 4096" "luks_vol_read (en_stack env) lv 0 3 = Some (lv\<lparr> lv_decrypt_buf := d \<rparr>, Some (img ?D 0 1536))"
    using luks_disk.read_loop_plain[of lv mk kb mode P M 0 3 "en_stack env"] assms(1-3) plain_sectors_img[OF p, of 0 3]
    by (auto simp: luks_part_def luks_vol_read_def)
  let ?lv = "lv\<lparr> lv_decrypt_buf := d \<rparr>" and ?v = "zero_ext4\<lparr> v_luks := Some (lv\<lparr> lv_decrypt_buf := d \<rparr>), v_phys_blk_sz := 512 \<rparr>"
  obtain v where v: "ext4_fields (img ?D 1024 512) ?v = Some v" "geom v = layout ?D" "v_luks v = Some ?lv"
    using ext4_fields_img[OF assms(4), of 512 ?v] by auto
  have "ext4_mount_luks env (Some lv) = Some (Some v)"
    using assms(4,5) d(2) v(1) by (simp add: ext4_mount_luks_def drop_img r16_img super_ok_def)
  then show ?thesis using v luks_part_buf[OF assms(1) d(1)] by blast
qed

section \<open>Files\<close>

definition file_at :: "(nat \<Rightarrow> u8) \<Rightarrow> Ext4Vol \<Rightarrow> string \<Rightarrow> u32" where
  "file_at D v path = walk D v EXT4_ROOT_INO (path_comps (skip_slashes path))"

definition file_contents :: "(nat \<Rightarrow> u8) \<Rightarrow> Ext4Vol \<Rightarrow> string \<Rightarrow> u8 list" where
  "file_contents D v path = file_bytes D v (inode_data D v (file_at D v path))"

text \<open>The path leads to a file of at most 128 MiB, and what it refers to lies on the partition.\<close>

definition path_ok :: "(nat \<Rightarrow> u8) \<Rightarrow> nat \<Rightarrow> Ext4Vol \<Rightarrow> string \<Rightarrow> bool" where
  "path_ok D N v path \<longleftrightarrow> walk_ok D N v EXT4_ROOT_INO (path_comps (skip_slashes path)) \<and>
     file_at D v path \<noteq> 0 \<and> inode_ok D N v (file_at D v path)"

definition file_ok :: "(nat \<Rightarrow> u8) \<Rightarrow> nat \<Rightarrow> Ext4Vol \<Rightarrow> string \<Rightarrow> bool" where
  "file_ok D N v path \<longleftrightarrow> path_ok D N v path \<and>
     (let inode = inode_data D v (file_at D v path)
      in 0 < file_size inode \<and> file_size inode \<le> 134217728 \<and>
         (\<forall>l<file_nblk v (file_size inode). block_ok D N v inode l))"

lemma file_cong:
  assumes "geom v = geom w"
  shows "file_contents D v path = file_contents D w path" "path_ok D N v path = path_ok D N w path"
    "file_ok D N v path = file_ok D N w path"
proof -
  have at: "file_at D v path = file_at D w path" by (simp add: file_at_def walk_cong[OF assms])
  have nb: "file_nblk v = file_nblk w" by (simp add: fun_eq_iff file_nblk_def geom_fields[OF assms])
  show p: "path_ok D N v path = path_ok D N w path"
    by (simp add: path_ok_def at walk_cong[OF assms] inode_cong[OF assms])
  show "file_contents D v path = file_contents D w path"
    by (simp add: file_contents_def file_bytes_def at nb file_block_cong[OF assms] inode_cong[OF assms])
  show "file_ok D N v path = file_ok D N w path"
    by (simp add: file_ok_def p at nb file_block_cong[OF assms] inode_cong[OF assms])
qed

context byte_dev
begin

lemma file_read:
  assumes "ok v" and "geom v = layout D" and "super_ok D" and "file_ok D N (layout D) path" and "en_alloc env = (\<lambda>_. True)"
  shows "\<exists>v'. ext4_read_file env v path = Some (v', Some (file_contents D (layout D) path))"
proof -
  note g = geom_layoutD[OF assms(2,3)]
  have "file_ok D N v path" using assms(4) file_cong(3)[OF g(1)] by simp
  then obtain v' where "ext4_read_file env v path = Some (v', Some (file_contents D v path))"
    using read_file_ok[of v path] assms(1,5) g(2)
    by (auto simp: file_ok_def path_ok_def file_at_def file_contents_def pools_ok_def Let_def)
  then show ?thesis using file_cong(1)[OF g(1)] by simp
qed

end

section \<open>Directories\<close>

text \<open>
  The entries a directory enumeration reports: those in use, of a regular file or a directory, whose name
  has 1 to 254 bytes and is neither \<^verbatim>\<open>.\<close> nor \<^verbatim>\<open>..\<close>.
\<close>

definition listed :: "u8 list \<Rightarrow> nat \<Rightarrow> bool" where
  "listed b pos \<longleftrightarrow> fst (de_entry b pos) \<noteq> 0 \<and> name_len b pos \<in> {1..254} \<and> b ! (pos + 7) \<in> {1, 2} \<and>
     \<not> dot_name (snd (de_entry b pos))"

definition list_block :: "u8 list \<Rightarrow> nat \<Rightarrow> nat \<Rightarrow> (string \<times> bool) list" where
  "list_block b limit pos = map (\<lambda>pos. (snd (de_entry b pos), b ! (pos + 7) = 2)) (filter (listed b) (dirent_pos b limit pos))"

definition listing :: "(nat \<Rightarrow> u8) \<Rightarrow> Ext4Vol \<Rightarrow> u8 list \<Rightarrow> (string \<times> bool) list" where
  "listing D v inode =
     concat (map (\<lambda>l. list_block (file_block D v inode l) (dir_limit v inode l) 0) [0..<unat (dir_nblk v inode)])"

text \<open>A callback that leaves the volume alone.\<close>

definition visit :: "(string \<Rightarrow> bool \<Rightarrow> 'c \<Rightarrow> 'c) \<Rightarrow> 'c ext4_cb" where
  "visit f fname is_dir = (\<lambda>(c, v). Some (f fname is_dir c, v))"

lemma readdir_block_from:
  assumes "limit \<le> length b"
    and "\<forall>pos\<in>set (dirent_pos b limit pos). pos + 8 + name_len b pos \<le> length b"
  shows "readdir_block (visit f) b limit pos (c, v) = Some (fold (\<lambda>(n, d). f n d) (list_block b limit pos) c, v)"
  using assms
proof (induction b limit pos arbitrary: c rule: dirent_pos.induct)
  case (1 b limit pos)
  note eq = readdir_block.simps[of "visit f" b limit pos] and ds = dirent_pos.simps[of b limit pos]
  have ty: "pos + 8 \<le> limit \<Longrightarrow> r8 (drop pos b) 7 = Some (b ! (pos + 7))" using "1.prems"(1) by (simp add: r8_def)
  consider "\<not> pos + 8 \<le> limit" | "pos + 8 \<le> limit" "rec_len b pos = 0" | (more) "pos + 8 \<le> limit" "rec_len b pos \<noteq> 0"
    by blast
  then show ?case
  proof cases
    case 1
    then show ?thesis unfolding eq by (simp add: list_block_def ds)
  next
    case 2
    then show ?thesis
      unfolding eq using "1.prems"(1) dirent_fields[of pos b "[]"] ty
      by (simp add: list_block_def ds rec_len_def unat_zero_iff)
  next
    case more
    then have nl: "pos + 8 + name_len b pos \<le> length b" using "1.prems"(2) ds by simp
    have IH: "readdir_block (visit f) b limit (pos + rec_len b pos) (c, v) =
        Some (fold (\<lambda>(n, d). f n d) (list_block b limit (pos + rec_len b pos)) c, v)" for c
      using 1 more ds by simp
    have rl: "u16_of_le (drop (pos + 4) b) \<noteq> 0" using more(2) by (simp add: rec_len_def unat_zero_iff)
    have nm: "map chr8 (slice (drop pos b) 8 (unat (b ! (pos + 6)))) = snd (de_entry b pos)"
      by (simp add: de_entry_def slice_def name_len_def add.commute)
    have ln: "0 < b ! (pos + 6) \<and> b ! (pos + 6) < 255 \<longleftrightarrow> name_len b pos \<in> {1..254}"
      by (auto simp: name_len_def word_less_nat_alt)
    have lb: "list_block b limit pos = (if listed b pos then [(snd (de_entry b pos), b ! (pos + 7) = 2)] else []) @
        list_block b limit (pos + rec_len b pos)"
      using more by (simp add: list_block_def ds)
    show ?thesis
      unfolding eq lb using "1.prems"(1) more nl rl IH dirent_fields[of pos b "[]"] ty nm ln
      by (simp add: rec_len_def[symmetric] Let_def name_len_def[symmetric] listed_def EXT4_FT_DIR_def visit_def) auto
  qed
qed

context byte_dev
begin

lemma readdir_blocks_ok:
  assumes "128 \<le> length inode" and "unat blk + n = unat (dir_nblk v inode)"
    and "\<forall>l<unat (dir_nblk v inode). block_ok D N v inode l \<and> dirents_ok (file_block D v inode l) (dir_limit v inode l)"
    and "geom_ok v" and "length two = 2 * bsize v" and "ok v"
  shows "\<exists>v'. readdir_blocks env (visit f) inode (dir_size inode) (dir_nblk v inode) blk n two (c, v) =
      Some (fold (\<lambda>(n, d). f n d) (concat (map (\<lambda>l. list_block (file_block D v inode l) (dir_limit v inode l) 0)
        [unat blk..<unat (dir_nblk v inode)])) c, v') \<and> ok v' \<and> geom v' = geom v"
  using assms(2-)
proof (induction n arbitrary: blk v two c)
  case 0
  then show ?case by simp
next
  case (Suc n)
  let ?nb = "dir_nblk v inode"
  have b: "unat blk < unat ?nb" using Suc.prems(1) by simp
  obtain v1 two1 where r: "read_lblock env v inode blk (bsize v) 0 two = Some (v1, two1, True)" "ok v1" "geom v1 = geom v"
      "length two1 = length two" "take (bsize v) (drop (bsize v) two1) = file_block D v inode (unat blk)"
    using read_lblock_ok[OF Suc.prems(5,3) assms(1), of blk 0 two "bsize v"] Suc.prems(2,4) b by auto
  note g = geom_fields[OF r(3)] and c = file_block_cong[OF r(3)]
  have lim: "block_limit v1 (dir_size inode) ?nb blk = dir_limit v inode (unat blk)"
    by (simp add: dir_limit_def block_limit_def g)
  have two1: "drop (bsize v) two1 = file_block D v inode (unat blk)"
    using r(4,5) Suc.prems(4) by simp
  let ?c = "fold (\<lambda>(n, d). f n d) (list_block (file_block D v inode (unat blk)) (dir_limit v inode (unat blk)) 0) c"
  have scan: "readdir_block (visit f) (file_block D v inode (unat blk)) (dir_limit v inode (unat blk)) 0 (c, v1) = Some (?c, v1)"
    using readdir_block_from[of "dir_limit v inode (unat blk)" "file_block D v inode (unat blk)" 0 f c v1]
      Suc.prems(2) b block_limit_le[OF Suc.prems(3)] by (simp add: dirents_ok_def dir_limit_def file_block_def)
  have nxt: "unat (blk + 1) = unat blk + 1"
    using b unsigned_less[of ?nb, where 'a = nat] by (simp add: unat_word_ariths)
  have up: "[unat blk..<unat ?nb] = unat blk # [unat (blk + 1)..<unat ?nb]" using b nxt by (simp add: upt_conv_Cons)
  have nb: "dir_nblk v1 inode = ?nb" "dir_limit v1 inode = dir_limit v inode"
    by (simp_all add: dir_nblk_def dir_limit_def block_limit_def g fun_eq_iff)
  have "\<exists>v'. readdir_blocks env (visit f) inode (dir_size inode) ?nb (blk + 1) n two1 (?c, v1) =
      Some (fold (\<lambda>(n, d). f n d) (concat (map (\<lambda>l. list_block (file_block D v inode l) (dir_limit v inode l) 0)
        [unat (blk + 1)..<unat ?nb])) ?c, v') \<and> ok v' \<and> geom v' = geom v1"
    using Suc.IH[of "blk + 1" v1 two1 ?c] Suc.prems r nxt g(1) c nb geom_ok_cong[OF r(3)] by simp
  then show ?case using r(1,3) lim scan up two1 by (simp add: Let_def)
qed

lemma readdir_ok:
  fixes v path
  defines "ino \<equiv> walk D v EXT4_ROOT_INO (path_comps (skip_slashes path))"
  assumes "walk_ok D N v EXT4_ROOT_INO (path_comps (skip_slashes path))" and "ok v" and "geom_ok v"
    and "ino \<noteq> 0" and "dir_ok D N v ino" and "pools_ok env v"
  shows "\<exists>v'. ext4_readdir env path (visit f) (c, v) =
    Some (fold (\<lambda>(n, d). f n d) (listing D v (inode_data D v ino)) c, v') \<and> ok v' \<and> geom v' = geom v"
proof -
  let ?in = "inode_data D v ino"
  have i: "inode_ok D N v ino" using assms(6) by (simp add: dir_ok_def)
  obtain v1 two where f: "find_inode env v path = Some (v1, two, Some ?in)" "ok v1" "geom v1 = geom v" "length two = 2 * bsize v"
    using find_inode_ok[OF assms(2-4)] assms(5) i by (auto simp: ino_def)
  note g = geom_fields[OF f(3)]
  have len: "128 \<le> length ?in" using assms(4) by (simp add: inode_data_def geom_ok_def)
  have nb: "dir_nblk v1 ?in = dir_nblk v ?in" "dir_limit v1 ?in = dir_limit v ?in"
    by (simp_all add: dir_nblk_def dir_limit_def block_limit_def g fun_eq_iff)
  obtain v2 where "readdir_blocks env (visit f) ?in (dir_size ?in) (dir_nblk v ?in) 0 (unat (dir_nblk v ?in)) two (c, v1) =
      Some (fold (\<lambda>(n, d). f n d) (listing D v ?in) c, v2)" "ok v2" "geom v2 = geom v1"
    using readdir_blocks_ok[OF len, of 0 _ v1 two f c] assms(6) f geom_ok_cong[OF f(3)] assms(4) nb file_block_cong[OF f(3)] g(1)
    by (auto simp: dir_ok_def listing_def)
  moreover have "v_block_size v1 \<noteq> 0" using assms(4) g(1) by (auto simp: geom_ok_def)
  ultimately show ?thesis using f(1,3) assms(7) len g(1)
    by (simp add: ext4_readdir_def r32_list dir_size_def dir_nblk_def)
qed

end

definition dir_shown :: "(nat \<Rightarrow> u8) \<Rightarrow> Ext4Vol \<Rightarrow> string \<Rightarrow> (string \<times> bool) list" where
  "dir_shown D v path = listing D v (inode_data D v (file_at D v path))"

lemma dir_shown_cong:
  assumes "geom v = geom w" shows "dir_shown D v path = dir_shown D w path" "file_at D v path = file_at D w path"
proof -
  have "dir_nblk v = dir_nblk w" "dir_limit v = dir_limit w"
    by (simp_all add: fun_eq_iff dir_nblk_def dir_limit_def block_limit_def geom_fields[OF assms])
  then show "dir_shown D v path = dir_shown D w path"
    by (simp add: dir_shown_def listing_def file_at_def walk_cong[OF assms] file_block_cong[OF assms] inode_cong[OF assms])
  show "file_at D v path = file_at D w path" by (simp add: file_at_def walk_cong[OF assms])
qed

context byte_dev
begin

lemma dir_read:
  assumes "ok v" and "geom v = layout D" and "super_ok D" and "path_ok D N (layout D) path"
    and "dir_ok D N (layout D) (file_at D (layout D) path)" and "en_alloc env = (\<lambda>_. True)"
  shows "\<exists>v'. ext4_readdir env path (visit f) (c, v) = Some (fold (\<lambda>(n, d). f n d) (dir_shown D (layout D) path) c, v')"
proof -
  note g = geom_layoutD[OF assms(2,3)]
  have "path_ok D N v path" "dir_ok D N v (file_at D v path)"
    using assms(4,5) file_cong(2)[OF g(1)] dir_cong(2)[OF g(1)] dir_shown_cong(2)[OF g(1)] by simp_all
  then obtain v' where "ext4_readdir env path (visit f) (c, v) = Some (fold (\<lambda>(n, d). f n d) (dir_shown D v path) c, v')"
    using readdir_ok[of v path f c] assms(1,6) g(2)
    by (auto simp: path_ok_def file_at_def dir_shown_def pools_ok_def)
  then show ?thesis using dir_shown_cong(1)[OF g(1)] by simp
qed

end

section \<open>A small partition\<close>

text \<open>
  Blocks of 1 KiB: superblock in block 1, group descriptors in block 2, inode table in block 3, the root
  directory with the single entry \<^verbatim>\<open>a\<close> in block 4, and its contents, through an extent, in block 5.
\<close>

definition tiny_bytes :: "(nat \<times> u8) list" where
  "tiny_bytes = [(1044, 1), (1064, 16), (1080, 0x53), (1081, 0xEF), (1112, 128),
     (2056, 3),
     (3204, 12), (3240, 4),
     (3332, 5), (3362, 8), (3368, 0x0A), (3369, 0xF3), (3370, 1), (3384, 1), (3388, 5),
     (4096, 3), (4100, 12), (4102, 1), (4103, 1), (4104, 97),
     (5120, 104), (5121, 101), (5122, 108), (5123, 108), (5124, 111)]"

definition tiny :: "nat \<Rightarrow> u8" where
  "tiny i = (case map_of tiny_bytes i of None \<Rightarrow> 0 | Some b \<Rightarrow> b)"

lemma drop_img_of: "4 \<le> n - k \<Longrightarrow> u32_of_le (drop k (img D a n)) = le32 D (a + k)"
  by (simp add: drop_img le32_def u32_of_le_def)

lemma drop_img_of16: "2 \<le> n - k \<Longrightarrow> u16_of_le (drop k (img D a n)) = le16 D (a + k)"
  by (simp add: drop_img le16_def u16_of_le_def)

lemma take_img: "take k (img D a n) = img D a (min k n)"
  by (rule nth_equalityI) simp_all

lemmas tiny_eval = le32_def le16_def u32_of_le_def u16_of_le_def tiny_def tiny_bytes_def

lemma tiny_super: "super_ok tiny"
  by (simp add: super_ok_def tiny_eval EXT4_SUPER_MAGIC_def)

lemma tiny_layout: "layout tiny = zero_ext4\<lparr> v_block_size := 1024, v_inodes_per_group := 16, v_inode_size := 128,
    v_bgdt_off := 2048, v_desc_size := 32 \<rparr>"
  by (simp add: layout_def super_bsize_def tiny_eval)

lemma tiny_pos:
  "group_pos (layout tiny) 2 = 2048" "group_pos (layout tiny) 3 = 2048"
  "inode_pos tiny (layout tiny) 2 = 3200" "inode_pos tiny (layout tiny) 3 = 3328"
proof -
  show g: "group_pos (layout tiny) 2 = 2048" "group_pos (layout tiny) 3 = 2048"
    by (simp_all add: group_pos_def tiny_layout)
  have "inode_table tiny (layout tiny) 2 = 3" "inode_table tiny (layout tiny) 3 = 3"
    unfolding inode_table_def g by (simp_all add: tiny_layout tiny_eval)
  then show "inode_pos tiny (layout tiny) 2 = 3200" "inode_pos tiny (layout tiny) 3 = 3328"
    by (simp_all add: inode_pos_def tiny_layout)
qed

lemma tiny_inode:
  "inode_data tiny (layout tiny) 2 = img tiny 3200 128" "inode_data tiny (layout tiny) 3 = img tiny 3328 128"
  "inode_ok tiny 6144 (layout tiny) 2" "inode_ok tiny 6144 (layout tiny) 3"
  by (simp_all add: inode_data_def inode_ok_def tiny_pos) (simp_all add: tiny_layout)

lemma tiny_root:
  shows "file_block tiny (layout tiny) (img tiny 3200 128) 0 = img tiny 4096 1024"
    "block_ok tiny 6144 (layout tiny) (img tiny 3200 128) 0"
    "dir_nblk (layout tiny) (img tiny 3200 128) = 1" "dir_limit (layout tiny) (img tiny 3200 128) 0 = 12"
  by (simp_all add: file_block_def block_map_def block_ok_def has_extents_def drop_img_of dir_nblk_def dir_size_def
      dir_limit_def block_limit_def tiny_layout zero_ext4_def tiny_eval EXT4_EXTENTS_FL_def)

lemma tiny_dirents: "dirent_pos (img tiny 4096 1024) 12 0 = [0]"
  by (subst dirent_pos.simps, subst dirent_pos.simps) (simp add: rec_len_def drop_img_of16 tiny_eval)

lemma tiny_text: "map chr8 (img tiny 4104 1) = ''a''" "img tiny 5120 5 = [104, 101, 108, 108, 111]"
proof -
  have "img D a 1 = [D a]" "img D a 5 = [D a, D (a + 1), D (a + 2), D (a + 3), D (a + 4)]" for D a
    by (simp_all add: img_def upt_conv_Cons numeral_eq_Suc)
  then show "map chr8 (img tiny 4104 1) = ''a''" "img tiny 5120 5 = [104, 101, 108, 108, 111]"
    by (simp_all add: tiny_def tiny_bytes_def chr8_def char_of_def bit_0)
qed

lemma tiny_dirent: "de_entry (img tiny 4096 1024) 0 = (3, ''a'')" "name_len (img tiny 4096 1024) 0 = 1"
  "img tiny 4096 1024 ! 7 = 1"
proof -
  show n: "name_len (img tiny 4096 1024) 0 = 1" "img tiny 4096 1024 ! 7 = 1" by (simp_all add: name_len_def tiny_eval)
  have "u32_of_le (img tiny 4096 1024) = 3" by (simp add: drop_img_of[of _ 0, simplified] tiny_eval)
  then show "de_entry (img tiny 4096 1024) 0 = (3, ''a'')"
    unfolding de_entry_def n using tiny_text(1) by (simp add: slice_img)
qed

lemma tiny_node:
  shows "node_magic (img tiny 3368 88)" "node_depth (img tiny 3368 88) = 0" "node_count (img tiny 3368 88) = 1"
    "node_block (img tiny 3368 88) 0 = 0" "ext_len (img tiny 3368 88) 0 = 1" "ext_start (img tiny 3368 88) 0 = 5"
  by (simp_all add: node_magic_def node_depth_def node_count_def node_block_def ext_len_def ext_start_def
      drop_img_of drop_img_of16 drop_img_of16[of 88 0, simplified] tiny_eval EXT4_EXTENT_HEADER_MAGIC_def)

lemma tiny_file:
  shows "file_size (img tiny 3328 128) = 5" "has_extents (img tiny 3328 128)" "block_map tiny (layout tiny) (img tiny 3328 128) 0 = 5"
    "block_ok tiny 6144 (layout tiny) (img tiny 3328 128) 0"
proof -
  show "file_size (img tiny 3328 128) = 5" by (simp add: file_size_def drop_img_of tiny_eval)
  show e: "has_extents (img tiny 3328 128)" by (simp add: has_extents_def drop_img_of tiny_eval EXT4_EXTENTS_FL_def)
  have "leaf_map (img tiny 3368 88) 0 = 5" by (simp add: leaf_map_def tiny_node ext_covers_def)
  then show m: "block_map tiny (layout tiny) (img tiny 3328 128) 0 = 5"
    using e by (simp add: block_map_def extent_map_def drop_img tiny_node)
  show "block_ok tiny 6144 (layout tiny) (img tiny 3328 128) 0"
    using e m by (simp add: block_ok_def extent_ok_def leaf_ok_def node_ok_def drop_img tiny_node) (simp add: tiny_layout)
qed

lemma tiny_path: "path_comps (skip_slashes ''/a'') = [''a'']"
  by (simp add: skip_slashes_def) (subst path_comps.simps, simp add: nz_def component_def next_component_def skip_slashes_def path_comps.simps)

lemma tiny_at: "file_at tiny (layout tiny) ''/a'' = 3" "path_ok tiny 6144 (layout tiny) ''/a''"
proof -
  have l: "dir_list tiny (layout tiny) (img tiny 3200 128) = [(3, ''a'')]"
    by (simp add: dir_list_def tiny_root dirents_def tiny_dirents tiny_dirent)
  have "dir_ok tiny 6144 (layout tiny) 2"
    by (simp add: dir_ok_def tiny_inode tiny_root dirents_ok_def tiny_dirents tiny_dirent)
  then show "file_at tiny (layout tiny) ''/a'' = 3" "path_ok tiny 6144 (layout tiny) ''/a''"
    by (simp_all add: file_at_def path_ok_def tiny_path EXT4_ROOT_INO_def tiny_inode l dir_find_def)
qed

lemma tiny_contents: "file_contents tiny (layout tiny) ''/a'' = [104, 101, 108, 108, 111]"
  "file_ok tiny 6144 (layout tiny) ''/a''"
proof -
  have n: "file_nblk (layout tiny) 5 = 1" by (simp add: file_nblk_def tiny_layout)
  show "file_ok tiny 6144 (layout tiny) ''/a''"
    by (simp add: file_ok_def tiny_at tiny_inode tiny_file n)
  have "file_block tiny (layout tiny) (img tiny 3328 128) 0 = img tiny 5120 1024"
    by (simp add: file_block_def tiny_file) (simp add: tiny_layout)
  then show "file_contents tiny (layout tiny) ''/a'' = [104, 101, 108, 108, 111]"
    by (simp add: file_contents_def file_bytes_def tiny_at tiny_inode tiny_file n take_img tiny_text)
qed

lemma tiny_listing: "dir_shown tiny (layout tiny) ''/'' = [(''a'', False)]"
  "path_ok tiny 6144 (layout tiny) ''/''" "dir_ok tiny 6144 (layout tiny) (file_at tiny (layout tiny) ''/'')"
proof -
  have p: "path_comps (skip_slashes ''/'') = []" by (simp add: skip_slashes_def path_comps.simps nz_def)
  then have a: "file_at tiny (layout tiny) ''/'' = 2" by (simp add: file_at_def EXT4_ROOT_INO_def)
  show "dir_ok tiny 6144 (layout tiny) (file_at tiny (layout tiny) ''/'')"
    by (simp add: a dir_ok_def tiny_inode tiny_root dirents_ok_def tiny_dirents tiny_dirent)
  show "path_ok tiny 6144 (layout tiny) ''/''" by (simp add: path_ok_def p a tiny_inode)
  show "dir_shown tiny (layout tiny) ''/'' = [(''a'', False)]"
    by (simp add: dir_shown_def listing_def a tiny_inode tiny_root list_block_def tiny_dirents listed_def tiny_dirent dot_name_def cstr_def)
qed

text \<open>The firmware around it, and the payload sectors of an encrypted copy.\<close>

definition tiny_env :: ext4_env where
  "tiny_env = \<lparr> en_alloc = (\<lambda>_. True), en_stack = replicate 4096 0, en_pool = (\<lambda>_. 0) \<rparr>"

definition tiny_media :: efi_media where
  "tiny_media = \<lparr> em_present = True, em_block_size = 512, em_logical = True, em_last_block = 11, em_media_id = 0 \<rparr>"

definition tiny_sector :: "nat \<Rightarrow> u8 list" where
  "tiny_sector p = img tiny (p * 512) 512"

lemma tiny_plain: "plain_byte tiny_sector 1 = tiny"
  by (simp add: fun_eq_iff plain_byte_def tiny_sector_def)

section \<open>Properties\<close>






end
