(* ===== verification/Loader_Entry.thy ===== *)
theory Loader_Entry
  imports Config_Print
begin

text \<open>
  The parser of systemd-boot Type 1 entries, \<^verbatim>\<open>src/common/loader_entry.c\<close>: a \<^verbatim>\<open>.conf\<close> file
  and the scan of \<^verbatim>\<open>/loader/entries\<close>.  The text of a file is the list of its bytes
  (\<^verbatim>\<open>p < end\<close> is a non-empty rest).  The firmware's directory reads are a list of
  directory entries, in the order \<^verbatim>\<open>Read\<close> returns them; a file that cannot be opened has
  no contents.  A scan is one of the operations that extend a configuration: the locale
  \<open>config_extender\<close> of \<open>Config\<close> is interpreted on it.
\<close>

section \<open>UCS-2 helpers\<close>

definition ucs2_str :: "u16 list \<Rightarrow> u16 list" where
  "ucs2_str s = takeWhile (\<lambda>c. c \<noteq> 0) s"

definition ucs2_ends_with_conf :: "u16 list \<Rightarrow> bool" where
  "ucs2_ends_with_conf s0 =
     (let s = ucs2_str s0; len = length s
      in if len < 5 then False
         else s ! (len - 5) = 0x2E \<and> (s ! (len - 4) OR 0x20) = 0x63 \<and>
              (s ! (len - 3) OR 0x20) = 0x6F \<and> (s ! (len - 2) OR 0x20) = 0x6E \<and>
              (s ! (len - 1) OR 0x20) = 0x66)"

definition ucs2_char :: "u16 \<Rightarrow> char" where
  "ucs2_char c = char_of (unat (c AND 0x7F))"

definition ucs2_to_ascii_n :: "u16 list \<Rightarrow> nat \<Rightarrow> string" where
  "ucs2_to_ascii_n src mx = map ucs2_char (take (mx - 1) (ucs2_str src))"

section \<open>One \<^verbatim>\<open>.conf\<close> file\<close>

definition to_eol :: "string \<Rightarrow> string" where
  "to_eol p = drop 1 (dropWhile (\<lambda>c. c \<noteq> LF) p)"

text \<open>A value copied into a field: at most 255 bytes, and a C string ends at a NUL byte.\<close>

definition conf_field :: "string \<Rightarrow> string" where
  "conf_field val = cstr (take (if length val < MAX_STR_LEN - 1 then length val else MAX_STR_LEN - 1) val)"

definition conf_set :: "string \<Rightarrow> string \<Rightarrow> BootEntry \<Rightarrow> BootEntry" where
  "conf_set key val e =
     (if key = ''title'' then e\<lparr> be_name := conf_field val \<rparr>
      else if key = ''linux'' then e\<lparr> be_kernel := conf_field val \<rparr>
      else if key = ''initrd'' then e\<lparr> be_initrd := conf_field val \<rparr>
      else if key = ''options'' then e\<lparr> be_cmdline := conf_field val \<rparr>
      else e)"

text \<open>A line that is not blank and not a comment: key, value and the rest of the text.\<close>

definition conf_line :: "string \<Rightarrow> string \<times> string \<times> string" where
  "conf_line p =
     (let kc = (\<lambda>c. c \<noteq> CHR '' '' \<and> c \<noteq> TAB \<and> c \<noteq> LF);
          key = takeWhile kc p;
          p = dropWhile is_space (dropWhile kc p);
          vc = (\<lambda>c. c \<noteq> LF \<and> c \<noteq> CR);
          val = trim_right (takeWhile vc p)
      in (key, val, to_eol (dropWhile vc p)))"

lemma length_to_eol: "length (to_eol p) \<le> length p - 1"
  using length_dropWhile_le[of "\<lambda>c. c \<noteq> LF" p] by (simp add: to_eol_def)

lemma length_conf_line: "length (snd (snd (conf_line p))) \<le> length p - 1"
proof -
  have "length (dropWhile P (dropWhile Q (dropWhile R p))) \<le> length p" for P Q R
    by (meson le_trans length_dropWhile_le)
  then show ?thesis
    unfolding conf_line_def Let_def snd_conv by (meson diff_le_mono le_trans length_to_eol)
qed

function parse_entry_loop :: "string \<Rightarrow> BootEntry \<Rightarrow> BootEntry" where
  "parse_entry_loop p0 e =
     (if p0 = [] then e
      else
        let p = dropWhile is_space p0
        in if p = [] \<or> hd p = CHR ''#'' \<or> hd p = LF \<or> hd p = CR
           then parse_entry_loop (to_eol p) e
           else let (key, val, rest) = conf_line p in parse_entry_loop rest (conf_set key val e))"
  by pat_completeness auto
termination
proof (relation "measure (\<lambda>(p, _). length p)")
  fix p0 :: string and e :: BootEntry and p
  assume a: "p0 \<noteq> []" "p = dropWhile is_space p0"
  have le: "length p \<le> length p0" using a length_dropWhile_le by blast
  then show "((to_eol p, e), p0, e) \<in> measure (\<lambda>(p, _). length p)"
    using length_to_eol[of p] a(1) by (cases p0) auto
  fix x key y val rest
  assume "x = conf_line p" "(key, y) = x" "(val, rest) = y"
  then have "rest = snd (snd (conf_line p))" by (metis snd_conv)
  then show "((rest, conf_set key val e), p0, e) \<in> measure (\<lambda>(p, _). length p)"
    using length_conf_line[of p] le a(1) by (cases p0) auto
qed simp

declare parse_entry_loop.simps [simp del]

definition parse_entry_conf :: "string \<Rightarrow> BootEntry \<Rightarrow> BootEntry" where
  "parse_entry_conf buf e =
     (let e = parse_entry_loop buf e;
          e = e\<lparr> be_type := OS_TYPE_LINUX \<rparr>
      in if be_luks_tries e = 0 then e\<lparr> be_luks_tries := 3 \<rparr> else e)"

section \<open>Directory scan\<close>

record dirent =
  de_is_dir :: bool
  de_fname :: "u16 list"
  de_contents :: "string option"

definition conf_entry :: "u16 list \<Rightarrow> string \<Rightarrow> BootEntry" where
  "conf_entry fname contents =
     (let ascii_name = cstr (ucs2_to_ascii_n fname MAX_STR_LEN);
          e = zero_entry\<lparr> be_name := takeWhile (\<lambda>c. c \<noteq> CHR ''.'') ascii_name \<rparr>
      in parse_entry_conf (take 4095 contents) e)"

fun loader_scan_loop :: "dirent list \<Rightarrow> BootConfig \<Rightarrow> BootConfig" where
  "loader_scan_loop [] cfg = cfg"
| "loader_scan_loop (d # ds) cfg =
     (if unat (bc_num_entries cfg) < MAX_ENTRIES then
        (if de_is_dir d \<or> \<not> ucs2_ends_with_conf (de_fname d) then loader_scan_loop ds cfg
         else case de_contents d of
             None \<Rightarrow> loader_scan_loop ds cfg
           | Some contents \<Rightarrow>
               let e = conf_entry (de_fname d) contents;
                   cfg = cfg\<lparr> bc_entries := (bc_entries cfg)[unat (bc_num_entries cfg) := e] \<rparr>
               in loader_scan_loop ds
                    (if be_kernel e \<noteq> [] then cfg\<lparr> bc_num_entries := bc_num_entries cfg + 1 \<rparr> else cfg))
      else cfg)"

text \<open>\<open>None\<close>: the directory \<^verbatim>\<open>/loader/entries\<close> cannot be opened.\<close>

definition loader_entry_scan :: "dirent list option \<Rightarrow> BootConfig \<Rightarrow> BootConfig" where
  "loader_entry_scan entries_dir cfg =
     (case entries_dir of None \<Rightarrow> cfg | Some ds \<Rightarrow> loader_scan_loop ds cfg)"

section \<open>Parsed entries are well formed\<close>

lemma field_ok_conf_field [simp]: "field_ok (conf_field v)"
proof -
  have "length (conf_field v) \<le> MAX_STR_LEN - 1"
    unfolding conf_field_def cstr_def by (rule le_trans[OF length_takeWhile_le]) simp
  then show ?thesis by (auto simp: field_ok_def conf_field_def cstr_def dest: set_takeWhileD)
qed

lemma wf_conf_set: "wf_entry e \<Longrightarrow> wf_entry (conf_set key val e)"
  by (simp add: conf_set_def wf_entry_def)

lemma wf_parse_entry_loop: "wf_entry e \<Longrightarrow> wf_entry (parse_entry_loop p e)"
proof (induction p e rule: parse_entry_loop.induct)
  case (1 p0 e)
  then show ?case
    by (subst parse_entry_loop.simps) (auto simp: Let_def wf_conf_set split: prod.splits)
qed

lemma wf_conf_entry: "wf_entry (conf_entry fname contents)"
proof -
  let ?n = "takeWhile (\<lambda>c. c \<noteq> CHR ''.'') (cstr (ucs2_to_ascii_n fname MAX_STR_LEN))"
  have "length ?n \<le> MAX_STR_LEN - 1"
    unfolding cstr_def ucs2_to_ascii_n_def
    by (rule le_trans[OF length_takeWhile_le], rule le_trans[OF length_takeWhile_le]) simp
  moreover have "NUL \<notin> set ?n"
    by (auto simp: cstr_def dest!: set_takeWhileD)
  ultimately have "wf_entry (zero_entry\<lparr> be_name := ?n \<rparr>)"
    by (simp add: wf_entry_def zero_entry_def field_ok_def)
  from wf_parse_entry_loop[OF this, of "take 4095 contents"] show ?thesis
    by (simp add: conf_entry_def parse_entry_conf_def Let_def wf_entry_def)
qed

lemma loader_scan_step:
  assumes "wf_config cfg" and "unat (bc_num_entries cfg) < MAX_ENTRIES" and "wf_entry e"
  defines "cfg' \<equiv> cfg\<lparr> bc_entries := (bc_entries cfg)[unat (bc_num_entries cfg) := e] \<rparr>"
  shows "wf_config cfg' \<and> cfg_extends cfg cfg'"
    and "wf_config (cfg'\<lparr> bc_num_entries := bc_num_entries cfg' + 1 \<rparr>) \<and>
      cfg_extends cfg (cfg'\<lparr> bc_num_entries := bc_num_entries cfg' + 1 \<rparr>)"
proof -
  have "live_entries cfg' = live_entries cfg"
    using assms(1,2) by (simp add: cfg'_def live_entries_def)
  then show "wf_config cfg' \<and> cfg_extends cfg cfg'"
    using assms(1) by (simp add: cfg'_def wf_config_def wf_table_def cfg_extends_def same_globals_def)
  have eq: "cfg'\<lparr> bc_num_entries := bc_num_entries cfg' + 1 \<rparr> =
      cfg\<lparr>bc_num_entries := bc_num_entries cfg + 1,
          bc_entries := (bc_entries cfg)[unat (bc_num_entries cfg) := e]\<rparr>"
    by (simp add: cfg'_def)
  show "wf_config (cfg'\<lparr> bc_num_entries := bc_num_entries cfg' + 1 \<rparr>) \<and>
      cfg_extends cfg (cfg'\<lparr> bc_num_entries := bc_num_entries cfg' + 1 \<rparr>)"
    unfolding eq using assms(1-3) live_entries_append[of cfg e]
    by (simp add: wf_config_def wf_table_append cfg_extends_def same_globals_def) (simp add: wf_table_def)
qed

lemma loader_scan_loop_extends:
  "wf_config cfg \<Longrightarrow> wf_config (loader_scan_loop ds cfg) \<and> cfg_extends cfg (loader_scan_loop ds cfg)"
proof (induction ds arbitrary: cfg)
  case (Cons d ds)
  show ?case
  proof (cases "unat (bc_num_entries cfg) < MAX_ENTRIES \<and> \<not> de_is_dir d \<and>
      ucs2_ends_with_conf (de_fname d) \<and> de_contents d \<noteq> None")
    case True
    then obtain contents where c: "de_contents d = Some contents" by blast
    note st = loader_scan_step[OF Cons.prems conjunct1[OF True] wf_conf_entry[of "de_fname d" contents]]
    show ?thesis
      using True c st Cons.IH cfg_extends_trans by (auto simp: Let_def)
  next
    case False
    then show ?thesis using Cons by (auto split: option.splits)
  qed
qed simp

interpretation loader: config_extender loader_entry_scan
  by unfold_locales (auto simp: loader_entry_scan_def loader_scan_loop_extends split: option.splits)

text \<open>Every entry a scan appends boots a Linux kernel whose path is not empty.\<close>

definition linux_entry :: "BootEntry \<Rightarrow> bool" where
  "linux_entry e \<longleftrightarrow> be_type e = OS_TYPE_LINUX \<and> be_kernel e \<noteq> [] \<and> be_luks_tries e \<noteq> 0"

lemma conf_entry_type: "be_type (conf_entry f c) = OS_TYPE_LINUX" "be_luks_tries (conf_entry f c) \<noteq> 0"
  by (simp_all add: conf_entry_def parse_entry_conf_def Let_def)

lemma loader_scan_loop_new:
  "wf_config cfg \<Longrightarrow> \<exists>es. live_entries (loader_scan_loop ds cfg) = live_entries cfg @ es \<and>
     list_all linux_entry es"
proof (induction ds arbitrary: cfg)
  case (Cons d ds)
  show ?case
  proof (cases "unat (bc_num_entries cfg) < MAX_ENTRIES \<and> \<not> de_is_dir d \<and>
      ucs2_ends_with_conf (de_fname d) \<and> de_contents d \<noteq> None")
    case True
    then obtain contents where c: "de_contents d = Some contents" by blast
    let ?e = "conf_entry (de_fname d) contents"
    define cfg' where "cfg' = cfg\<lparr> bc_entries := (bc_entries cfg)[unat (bc_num_entries cfg) := ?e] \<rparr>"
    note st = loader_scan_step[OF Cons.prems conjunct1[OF True] wf_conf_entry[of "de_fname d" contents],
        folded cfg'_def]
    have live: "live_entries cfg' = live_entries cfg"
        "live_entries (cfg'\<lparr> bc_num_entries := bc_num_entries cfg' + 1 \<rparr>) = live_entries cfg @ [?e]"
      using True Cons.prems live_entries_append[of cfg ?e]
      by (simp_all add: cfg'_def live_entries_def wf_config_def wf_table_def)
    show ?thesis
    proof (cases "be_kernel ?e = []")
      case True2: True
      from Cons.IH[OF conjunct1[OF st(1)]] show ?thesis
        using True c True2 live by (simp add: cfg'_def[symmetric])
    next
      case False
      obtain es where es: "live_entries (loader_scan_loop ds (cfg'\<lparr> bc_num_entries := bc_num_entries cfg' + 1 \<rparr>))
          = (live_entries cfg @ [?e]) @ es" "list_all linux_entry es"
        using Cons.IH[OF conjunct1[OF st(2)]] live(2) by auto
      then show ?thesis
        using True c False linux_entry_def[of ?e] conf_entry_type[of "de_fname d" contents]
        by (intro exI[of _ "?e # es"]) (simp add: cfg'_def)
    qed
  next
    case False
    then show ?thesis using Cons by (auto split: option.splits)
  qed
qed simp

section \<open>Printing and reading back\<close>

definition conf_print :: "BootEntry \<Rightarrow> string" where
  "conf_print e =
     ''title '' @ be_name e @ [LF] @ ''linux '' @ be_kernel e @ [LF] @
     ''initrd '' @ be_initrd e @ [LF] @ ''options '' @ be_cmdline e @ [LF]"

definition conf_key :: "string \<Rightarrow> bool" where
  "conf_key k \<longleftrightarrow> k \<noteq> [] \<and> list_all (\<lambda>c. c \<noteq> CHR '' '' \<and> c \<noteq> TAB \<and> c \<noteq> LF \<and> c \<noteq> CR \<and> c \<noteq> CHR ''#'') k"

lemma conf_line_print:
  assumes "conf_key key" and "printable v"
  shows "conf_line (key @ CHR '' '' # v @ LF # rest) = (key, v, rest)"
proof -
  let ?kc = "\<lambda>c. c \<noteq> CHR '' '' \<and> c \<noteq> TAB \<and> c \<noteq> LF" and ?vc = "\<lambda>c. c \<noteq> LF \<and> c \<noteq> CR"
  have k: "list_all ?kc key" using assms(1) by (auto simp: conf_key_def list_all_iff)
  have v: "list_all ?vc v"
    using assms(2) by (auto simp: printable_def list_all_iff line_char_def is_newline_def)
  have "is_space (CHR '' '')" by (simp add: is_space_def)
  moreover have sp: "dropWhile is_space (v @ LF # rest) = v @ LF # rest"
    using assms(2) by (cases v) (auto simp: printable_def is_space_def)
  moreover have tr: "trim_right v = v" using assms(2) by (intro trim_right_id) (auto simp: printable_def)
  ultimately show ?thesis
    using k v by (simp add: conf_line_def Let_def takeWhile_append_stop dropWhile_append_stop sp tr to_eol_def)
qed

lemma parse_entry_line:
  assumes "conf_key key" and "printable v"
  shows "parse_entry_loop (key @ CHR '' '' # v @ LF # rest) e = parse_entry_loop rest (conf_set key v e)"
proof -
  obtain c cs where k: "key = c # cs" "c \<noteq> CHR '' ''" "c \<noteq> TAB" "c \<noteq> LF" "c \<noteq> CR" "c \<noteq> CHR ''#''"
    using assms(1) by (cases key) (auto simp: conf_key_def)
  then have "\<not> is_space c" by (simp add: is_space_def)
  then show ?thesis
    using k conf_line_print[OF assms, of rest] by (subst parse_entry_loop.simps) simp
qed

lemma conf_field_printable: "printable v \<Longrightarrow> conf_field v = v"
proof -
  assume v: "printable v"
  have "NUL \<notin> set v"
    using v by (auto simp: printable_def list_all_iff line_char_def)
  then show ?thesis
    using v by (simp add: conf_field_def cstr_def printable_def takeWhile_eq_all_conv) blast
qed

lemma conf_keys: "conf_key ''title''" "conf_key ''linux''" "conf_key ''initrd''" "conf_key ''options''"
  by code_simp+

section \<open>Properties\<close>

text \<open>
  A Type 1 entry file is read back exactly: parsing the file that lists title, kernel,
  initrd and options of an entry gives an entry with these four fields (values without
  line breaks, without blanks at their ends, shorter than 256 bytes).
\<close>

theorem loader_conf_roundtrip:
  assumes "printable (be_name e)" and "printable (be_kernel e)" and "printable (be_initrd e)"
    and "printable (be_cmdline e)"
  shows "parse_entry_conf (conf_print e) e0 =
    e0\<lparr> be_name := be_name e, be_kernel := be_kernel e, be_initrd := be_initrd e,
        be_cmdline := be_cmdline e, be_type := OS_TYPE_LINUX,
        be_luks_tries := (if be_luks_tries e0 = 0 then 3 else be_luks_tries e0) \<rparr>"
proof -
  have split: "conf_print e = ''title'' @ CHR '' '' # be_name e @ LF # (''linux'' @ CHR '' '' # be_kernel e @ LF #
      (''initrd'' @ CHR '' '' # be_initrd e @ LF # (''options'' @ CHR '' '' # be_cmdline e @ LF # [])))"
    by (simp add: conf_print_def)
  have "parse_entry_loop (conf_print e) e0 =
      conf_set ''options'' (be_cmdline e) (conf_set ''initrd'' (be_initrd e)
        (conf_set ''linux'' (be_kernel e) (conf_set ''title'' (be_name e) e0)))"
    unfolding split using assms
    by (simp only: parse_entry_line conf_keys) (simp add: parse_entry_loop.simps)
  then show ?thesis
    using assms by (simp add: parse_entry_conf_def conf_set_def conf_field_printable Let_def)
qed

theorem loader_conf_roundtrip_witness:
  "be_kernel (parse_entry_conf (conf_print (zero_entry\<lparr> be_name := ''Arch Linux'',
     be_kernel := ''/vmlinuz-linux'', be_cmdline := ''root=/dev/sda2 rw'' \<rparr>)) zero_entry) = ''/vmlinuz-linux''"
proof -
  have p: "printable ''Arch Linux''" "printable ''/vmlinuz-linux''" "printable ''root=/dev/sda2 rw''" "printable []"
    by code_simp+
  show ?thesis
    by (subst loader_conf_roundtrip) (simp_all add: p zero_entry_def)
qed

text \<open>
  Scanning \<^verbatim>\<open>/loader/entries\<close>, any number of times and whatever the directory holds, keeps
  a well-formed configuration well formed, keeps the earlier entries and the global
  settings, and appends only Linux entries with a kernel path.
\<close>

theorem loader_scan_extends:
  assumes "wf_config cfg" and "default_ok cfg"
  shows "wf_config (fold loader_entry_scan scans cfg) \<and>
    cfg_extends cfg (fold loader_entry_scan scans cfg) \<and>
    (\<exists>es. live_entries (loader_entry_scan d cfg) = live_entries cfg @ es \<and> list_all linux_entry es)"
  using loader.ext_all[OF assms, of scans] loader_scan_loop_new[OF assms(1)]
  by (auto simp: loader_entry_scan_def split: option.splits)

theorem loader_scan_extends_witness:
  "wf_config (fold loader_entry_scan [Some [\<lparr> de_is_dir = False,
       de_fname = [0x61, 0x2E, 0x63, 0x6F, 0x6E, 0x66, 0], de_contents = Some ''linux /vmlinuz'' \<rparr>]] empty_config)"
proof -
  have "wf_config empty_config" "default_ok empty_config"
    by (simp_all add: empty_config_def wf_config_def wf_table_def default_ok_def live_entries_def)
  from loader_scan_extends[OF this] show ?thesis by blast
qed

end
