(* ===== verification/Uefi_Con.thy ===== *)
theory Uefi_Con
  imports Bios Loader_Entry
begin

text \<open>
  The console of the UEFI edition in \<^verbatim>\<open>src/uefi/uefi_loader.c\<close> and the debug port of
  \<^verbatim>\<open>src/common/serial.c\<close>.  Output is the list of the firmware calls made.  \<^verbatim>\<open>con_puts\<close> decodes UTF-8
  into a buffer of 128 units that is passed to \<^verbatim>\<open>OutputString\<close> when it holds 126; the calls are the
  unit lists before their terminating 0.  The results of successive \<^verbatim>\<open>ReadKeyStroke\<close> calls and of the
  line status register are lists.
\<close>

section \<open>Character conversion\<close>

definition byte_of :: "char \<Rightarrow> u8" where "byte_of c = of_nat (ord c)"

definition wide :: "char \<Rightarrow> u16" where "wide c = ucast (byte_of c)"

definition utf8_to_ucs2 :: "string \<Rightarrow> nat \<Rightarrow> u16 list" where
  "utf8_to_ucs2 src mx = map wide (take (mx - 1) (cstr src))"

definition ucs2_to_ascii :: "u16 list \<Rightarrow> nat \<Rightarrow> string" where
  "ucs2_to_ascii src mx = map ucs2_char (take (mx - 1) (ucs2_str src))"

section \<open>Text output\<close>

datatype con_call =
    OutputString "u16 list"
  | SetAttribute u64
  | SetCursorPosition u64 u64
  | ClearScreen
  | EnableCursor bool

text \<open>One character of a string that is not at its end: the code unit and the rest.\<close>

definition next_unit :: "string \<Rightarrow> u16 \<times> string" where
  "next_unit s =
     (let c = byte_of (hd s); s1 = byte_of (peek (drop 1 s)); s2 = byte_of (peek (drop 2 s))
      in if c < 0x80 then (ucast c, drop 1 s)
         else if c AND 0xE0 = 0xC0 \<and> s1 \<ge> 0x80 then
           (push_bit 6 (ucast (c AND 0x1F)) OR ucast (s1 AND 0x3F), drop 2 s)
         else if c AND 0xF0 = 0xE0 \<and> s1 \<ge> 0x80 \<and> s2 \<ge> 0x80 then
           (push_bit 12 (ucast (c AND 0x0F)) OR push_bit 6 (ucast (s1 AND 0x3F)) OR ucast (s2 AND 0x3F), drop 3 s)
         else (ucast c, drop 1 s))"

definition flush_full :: "u16 list \<Rightarrow> u16 list list \<times> u16 list" where
  "flush_full buf = (if length buf \<ge> 126 then ([buf], []) else ([], buf))"

lemma next_unit_shorter: "nz s \<Longrightarrow> length (snd (next_unit s)) < length s"
  by (cases s) (auto simp: next_unit_def nz_def Let_def)

function con_loop :: "u16 list \<Rightarrow> string \<Rightarrow> u16 list list" where
  "con_loop buf s =
     (if nz s then
        let (out1, buf) = (if hd s = LF then flush_full (buf @ [13]) else ([], buf));
            (out2, buf) = flush_full (buf @ [fst (next_unit s)])
        in out1 @ out2 @ con_loop buf (snd (next_unit s))
      else if buf \<noteq> [] then [buf] else [])"
  by pat_completeness auto
termination
  by (relation "measure (\<lambda>(_, s). length s)") (auto simp: next_unit_shorter)

declare con_loop.simps [simp del]

definition con_puts :: "string \<Rightarrow> con_call list" where
  "con_puts s = map OutputString (con_loop [] s)"

definition con_puts_int :: "int \<Rightarrow> con_call list" where
  "con_puts_int n = con_puts (if n = 0 then ''0'' else int_digits n [])"

definition hex_digit :: "nat \<Rightarrow> char" where
  "hex_digit d = ''0123456789ABCDEF'' ! d"

function hex_loop :: "u64 \<Rightarrow> string \<Rightarrow> string" where
  "hex_loop n acc =
     (let acc = hex_digit (unat (n AND 0xF)) # acc; n = drop_bit 4 n
      in if n \<noteq> 0 then hex_loop n acc else acc)"
  by pat_completeness auto
termination
proof (relation "measure (\<lambda>(n, _). unat n)", goal_cases)
  case (2 n acc acc' n')
  then have "n \<noteq> 0" by auto
  then show ?case using 2 by (simp add: drop_bit_eq_div unat_div_distrib unat_gt_0)
qed simp

declare hex_loop.simps [simp del]

definition con_puts_hex :: "u64 \<Rightarrow> con_call list" where
  "con_puts_hex n = con_puts (''0x'' @ hex_loop n [])"

section \<open>Colours and cursor\<close>

definition EFI_TEXT_ATTR :: "u64 \<Rightarrow> u64 \<Rightarrow> u64" where "EFI_TEXT_ATTR fg bg = fg OR bg"
definition EFI_BACKGROUND_BLACK :: u64 where "EFI_BACKGROUND_BLACK = 0x00"
definition EFI_LIGHTRED :: u64 where "EFI_LIGHTRED = 0x0C"
definition EFI_LIGHTMAGENTA :: u64 where "EFI_LIGHTMAGENTA = 0x0D"
definition EFI_WHITE :: u64 where "EFI_WHITE = 0x0F"

abbreviation (input) MENU_COLOR_TIMER :: nat where "MENU_COLOR_TIMER \<equiv> 3"

text \<open>\<open>theme_bg\<close> and \<open>accent_fg\<close> are the globals set from the configuration.\<close>

definition con_set_color :: "u64 \<Rightarrow> u64 \<Rightarrow> nat \<Rightarrow> con_call list" where
  "con_set_color theme_bg accent_fg fg =
     (let theme_fg = drop_bit 4 theme_bg OR 0x08
      in [SetAttribute
           (if fg = MENU_COLOR_BORDER then EFI_TEXT_ATTR theme_fg EFI_BACKGROUND_BLACK
            else if fg = MENU_COLOR_TITLE then EFI_TEXT_ATTR accent_fg EFI_BACKGROUND_BLACK
            else if fg = MENU_COLOR_HIGHLIGHT then EFI_TEXT_ATTR EFI_WHITE theme_bg
            else if fg = MENU_COLOR_ACCENT then EFI_TEXT_ATTR accent_fg theme_bg
            else if fg = MENU_COLOR_NORMAL then EFI_TEXT_ATTR EFI_WHITE EFI_BACKGROUND_BLACK
            else if fg = MENU_COLOR_TIMER then EFI_TEXT_ATTR theme_fg EFI_BACKGROUND_BLACK
            else if fg = MENU_COLOR_HINT then EFI_TEXT_ATTR accent_fg EFI_BACKGROUND_BLACK
            else EFI_TEXT_ATTR EFI_WHITE EFI_BACKGROUND_BLACK)])"

definition con_set_cursor :: "int \<Rightarrow> int \<Rightarrow> con_call list" where
  "con_set_cursor row col = [SetCursorPosition (word_of_int col) (word_of_int row)]"

definition con_clear :: "con_call list" where "con_clear = [ClearScreen]"

definition con_show_cursor :: "bool \<Rightarrow> con_call list" where "con_show_cursor on = [EnableCursor on]"

text \<open>What the menu's callbacks do on this console.\<close>

fun con_event :: "u64 \<Rightarrow> u64 \<Rightarrow> event \<Rightarrow> con_call list" where
  "con_event theme_bg accent_fg (EvPrint s) = con_puts s"
| "con_event theme_bg accent_fg (EvColor c) = con_set_color theme_bg accent_fg c"
| "con_event theme_bg accent_fg (EvCursor row col) = con_set_cursor row col"
| "con_event theme_bg accent_fg EvClear = con_clear"
| "con_event theme_bg accent_fg (EvShow on) = con_show_cursor on"

section \<open>Keyboard\<close>

record EFI_INPUT_KEY =
  ScanCode :: u16
  UnicodeChar :: u16

definition SCAN_UP :: u16 where "SCAN_UP = 0x01"
definition SCAN_DOWN :: u16 where "SCAN_DOWN = 0x02"

definition key_code :: "EFI_INPUT_KEY \<Rightarrow> int" where
  "key_code key =
     (if ScanCode key = SCAN_UP then KEY_UP
      else if ScanCode key = SCAN_DOWN then KEY_DOWN
      else if UnicodeChar key = 13 \<or> UnicodeChar key = 10 then KEY_ENTER
      else uint (UnicodeChar key))"

text \<open>\<open>polls i\<close> is the result of the \<open>i\<close>-th \<^verbatim>\<open>ReadKeyStroke\<close>, \<open>None\<close> when no key is ready.\<close>

definition con_read_key :: "(nat \<Rightarrow> EFI_INPUT_KEY option) \<Rightarrow> int" where
  "con_read_key polls =
     (case List.find (\<lambda>i. polls i \<noteq> None) [0..<100] of
        None \<Rightarrow> -1 | Some i \<Rightarrow> key_code (the (polls i)))"

text \<open>\<^verbatim>\<open>con_error\<close>: the calls made before it waits for a key.\<close>

definition con_error :: "string \<Rightarrow> con_call list" where
  "con_error msg =
     [SetAttribute (EFI_TEXT_ATTR EFI_LIGHTRED EFI_BACKGROUND_BLACK)]
     @ con_puts ([CR, LF] @ ''ERROR: '') @ con_puts msg @ con_puts [CR, LF]
     @ [SetAttribute (EFI_TEXT_ATTR EFI_LIGHTMAGENTA EFI_BACKGROUND_BLACK)]
     @ con_puts (''Press any key to continue...'' @ [CR, LF])"

section \<open>Debug port\<close>

datatype serial_out = SerialReset | SerialWrite string | Outb u16 u8

datatype serial_state = NoSerial | SerialIo | Com1

definition COM1 :: u16 where "COM1 = 0x3F8"

definition com1_init :: "serial_out list" where
  "com1_init = [Outb (COM1 + 1) 0x00, Outb (COM1 + 3) 0x80, Outb (COM1 + 0) 0x01, Outb (COM1 + 1) 0x00,
     Outb (COM1 + 3) 0x03, Outb (COM1 + 2) 0xC7, Outb (COM1 + 4) 0x0B]"

text \<open>\<open>has_io\<close>: the protocol is found; \<open>has_reset\<close>: its reset function is set; \<open>x86\<close>: the build.\<close>

definition serial_init :: "bool \<Rightarrow> bool \<Rightarrow> bool \<Rightarrow> serial_out list \<times> serial_state" where
  "serial_init x86 has_io has_reset =
     (if has_io then (if has_reset then [SerialReset] else [], SerialIo)
      else if x86 then (com1_init, Com1) else ([], NoSerial))"

text \<open>
  The byte and the line status values left; \<open>None\<close> while the transmitter is not ready after the
  last of them.
\<close>

definition com1_putc :: "char \<Rightarrow> u8 list \<Rightarrow> (serial_out list \<times> u8 list) option" where
  "com1_putc c lsr =
     (case dropWhile (\<lambda>v. v AND 0x20 = 0) lsr of
        [] \<Rightarrow> None | _ # lsr \<Rightarrow> Some ([Outb COM1 (byte_of c)], lsr))"

fun com1_puts :: "string \<Rightarrow> u8 list \<Rightarrow> (serial_out list \<times> u8 list) option" where
  "com1_puts [] lsr = Some ([], lsr)"
| "com1_puts (c # cs) lsr = do {
     (o1, lsr) \<leftarrow> com1_putc c lsr;
     (o2, lsr) \<leftarrow> com1_puts cs lsr;
     Some (o1 @ o2, lsr) }"

definition serial_send :: "serial_state \<Rightarrow> string \<Rightarrow> u8 list \<Rightarrow> (serial_out list \<times> u8 list) option" where
  "serial_send st s lsr =
     (case st of SerialIo \<Rightarrow> Some ([SerialWrite s], lsr) | Com1 \<Rightarrow> com1_puts s lsr | NoSerial \<Rightarrow> Some ([], lsr))"

definition serial_putc :: "serial_state \<Rightarrow> char \<Rightarrow> u8 list \<Rightarrow> (serial_out list \<times> u8 list) option" where
  "serial_putc st c lsr = serial_send st [c] lsr"

definition serial_puts :: "serial_state \<Rightarrow> string option \<Rightarrow> u8 list \<Rightarrow> (serial_out list \<times> u8 list) option" where
  "serial_puts st s lsr = (case s of None \<Rightarrow> Some ([], lsr) | Some s \<Rightarrow> serial_send st (cstr s) lsr)"

definition nibble_char :: "u64 \<Rightarrow> nat \<Rightarrow> char" where
  "nibble_char val i =
     (let nibble = unat (drop_bit (60 - i * 4) val AND 0xF)
      in char_of (if nibble < 10 then 48 + nibble else 97 + nibble - 10))"

definition hex64_text :: "u64 \<Rightarrow> string" where
  "hex64_text val = ''0x'' @ map (nibble_char val) [0..<16] @ [LF]"

definition serial_puthex64 :: "serial_state \<Rightarrow> u64 \<Rightarrow> u8 list \<Rightarrow> (serial_out list \<times> u8 list) option" where
  "serial_puthex64 st val lsr = serial_send st (hex64_text val) lsr"

section \<open>UTF-8\<close>

text \<open>The encoding of a code unit in one to three bytes.\<close>

definition utf8_encode :: "u16 \<Rightarrow> string" where
  "utf8_encode w =
     (if w < 0x80 then [chr8 (ucast w)]
      else if w < 0x800 then [chr8 (0xC0 OR ucast (drop_bit 6 w)), chr8 (0x80 OR ucast (w AND 0x3F))]
      else [chr8 (0xE0 OR ucast (drop_bit 12 w)), chr8 (0x80 OR ucast (drop_bit 6 w AND 0x3F)),
            chr8 (0x80 OR ucast (w AND 0x3F))])"

lemma byte_of_chr8 [simp]: "byte_of (chr8 b) = b"
  using unsigned_less[of b, where 'a = nat] by (simp add: byte_of_def chr8_def)

lemma chr8_byte_of [simp]: "chr8 (byte_of c) = c"
proof -
  have "of_char c < (256 :: nat)" by simp
  then show ?thesis by (simp add: byte_of_def chr8_def unat_of_nat)
qed

lemma chr8_eq_iff: "chr8 b = c \<longleftrightarrow> b = byte_of c"
  by auto

lemma less_exp_bit: "w < 2 ^ k \<Longrightarrow> bit w n \<Longrightarrow> n < k" for w :: "'a::len word"
proof (rule ccontr)
  assume w: "w < 2 ^ k" and b: "bit w n" and "\<not> n < k"
  then have k: "k < LENGTH('a)" and le: "(2 :: nat) ^ k \<le> 2 ^ n"
    using bit_imp_le_length[OF b] by (auto intro: power_increasing)
  have "unat (of_nat (2 ^ k) :: 'a word) = 2 ^ k"
    unfolding unat_of_nat by (intro mod_less) (use k in simp)
  then have "unat w < 2 ^ k" using w by (simp add: word_less_nat_alt)
  then have "unat w < 2 ^ n" using le by (rule order.strict_trans2)
  moreover have "bit (unat w) n" using b by (auto simp: bit_unsigned_iff dest: bit_imp_le_length)
  ultimately show False by (simp add: bit_iff_odd)
qed

lemma ge_exp_bit: "bit w k \<Longrightarrow> \<not> w < 2 ^ k" for w :: "'a::len word"
  using less_exp_bit by blast

lemma less_8: "n < 8 \<Longrightarrow> n \<in> {0, 1, 2, 3, 4, 5, 6, 7 :: nat}" by auto

lemma less_16: "n < 16 \<Longrightarrow> n \<in> {0, 1, 2, 3, 4, 5, 6, 7, 8, 9, 10, 11, 12, 13, 14, 15 :: nat}"
  by (simp only: insert_iff empty_iff) presburger

lemma lead2:
  fixes w :: u16
  assumes "w < 0x800"
  shows "(0xC0 OR ucast (drop_bit 6 w) :: u8) AND 0xE0 = 0xC0"
proof (rule bit_word_eqI)
  fix n assume "n < LENGTH(8)"
  then have "n \<in> {0, 1, 2, 3, 4, 5, 6, 7}" using less_8 by simp
  moreover have "\<not> bit w 11" using less_exp_bit[of w 11 11] assms by auto
  ultimately show "bit ((0xC0 OR ucast (drop_bit 6 w) :: u8) AND 0xE0) n = bit (0xC0 :: u8) n"
    by (elim insertE emptyE) (simp_all add: bit_simps)
qed

lemma lead3: "(0xE0 OR ucast (drop_bit 12 (w :: u16)) :: u8) AND 0xF0 = 0xE0"
    "(0xE0 OR ucast (drop_bit 12 w) :: u8) AND 0xE0 \<noteq> 0xC0"
proof -
  show "(0xE0 OR ucast (drop_bit 12 w) :: u8) AND 0xF0 = 0xE0"
  proof (rule bit_word_eqI)
    fix n assume "n < LENGTH(8)"
    then have "n \<in> {0, 1, 2, 3, 4, 5, 6, 7}" using less_8 by simp
    moreover have "\<not> bit w 16" using bit_imp_le_length[of w 16] by auto
    ultimately show "bit ((0xE0 OR ucast (drop_bit 12 w) :: u8) AND 0xF0) n = bit (0xE0 :: u8) n"
      by (elim insertE emptyE) (simp_all add: bit_simps)
  qed
  have "bit ((0xE0 OR ucast (drop_bit 12 w) :: u8) AND 0xE0) 5 \<noteq> bit (0xC0 :: u8) 5" by (simp add: bit_simps)
  then show "(0xE0 OR ucast (drop_bit 12 w) :: u8) AND 0xE0 \<noteq> 0xC0" by metis
qed

lemma continuation: "(0x80 :: u8) \<le> 0x80 OR x" "\<not> (0xC0 OR x :: u8) < 0x80" "\<not> (0xE0 OR x :: u8) < 0x80"
  using ge_exp_bit[of "0x80 OR x :: u8" 7] ge_exp_bit[of "0xC0 OR x :: u8" 7] ge_exp_bit[of "0xE0 OR x :: u8" 7]
  by (simp_all add: bit_simps not_less)

lemma decode1: "w < 0x80 \<Longrightarrow> ucast (ucast w :: u8) = w \<and> (ucast w :: u8) < 0x80" for w :: u16
proof -
  assume a: "w < 0x80"
  have b: "bit w n \<Longrightarrow> n < 7" for n using less_exp_bit[of w 7 n] a by simp
  have "ucast (ucast w :: u8) = w" by (rule bit_word_eqI) (use b in \<open>force simp: bit_simps\<close>)
  moreover have "unat (ucast w :: u8) = unat w"
    using a by (simp add: unsigned_ucast_eq word_less_nat_alt take_bit_nat_eq_self)
  ultimately show "ucast (ucast w :: u8) = w \<and> (ucast w :: u8) < 0x80" using a by (simp add: word_less_nat_alt)
qed

lemma decode2:
  fixes w :: u16
  assumes "w < 0x800"
  shows "push_bit 6 (ucast ((0xC0 OR ucast (drop_bit 6 w) :: u8) AND 0x1F)) OR
    ucast ((0x80 OR ucast (w AND 0x3F) :: u8) AND 0x3F) = w"
proof (rule bit_word_eqI)
  fix n assume "n < LENGTH(16)"
  then have "n \<in> {0, 1, 2, 3, 4, 5, 6, 7, 8, 9, 10, 11, 12, 13, 14, 15}" using less_16 by simp
  moreover have "\<not> bit w 11" "\<not> bit w 12" "\<not> bit w 13" "\<not> bit w 14" "\<not> bit w 15"
    using less_exp_bit[of w 11] assms by fastforce+
  ultimately show "bit (push_bit 6 (ucast ((0xC0 OR ucast (drop_bit 6 w) :: u8) AND 0x1F)) OR
      ucast ((0x80 OR ucast (w AND 0x3F) :: u8) AND 0x3F) :: u16) n = bit w n"
    by (elim insertE emptyE) (simp_all add: bit_simps)
qed

lemma decode3:
  fixes w :: u16
  shows "push_bit 12 (ucast ((0xE0 OR ucast (drop_bit 12 w) :: u8) AND 0x0F)) OR
    push_bit 6 (ucast ((0x80 OR ucast (drop_bit 6 w AND 0x3F) :: u8) AND 0x3F)) OR
    ucast ((0x80 OR ucast (w AND 0x3F) :: u8) AND 0x3F) = w"
proof (rule bit_word_eqI)
  fix n assume "n < LENGTH(16)"
  then have "n \<in> {0, 1, 2, 3, 4, 5, 6, 7, 8, 9, 10, 11, 12, 13, 14, 15}" using less_16 by simp
  then show "bit (push_bit 12 (ucast ((0xE0 OR ucast (drop_bit 12 w) :: u8) AND 0x0F)) OR
      push_bit 6 (ucast ((0x80 OR ucast (drop_bit 6 w AND 0x3F) :: u8) AND 0x3F)) OR
      ucast ((0x80 OR ucast (w AND 0x3F) :: u8) AND 0x3F) :: u16) n = bit w n"
    by (elim insertE emptyE) (simp_all add: bit_simps)
qed

lemma next_unit_encode: "next_unit (utf8_encode w @ s) = (w, s)"
proof -
  consider "w < 0x80" | "\<not> w < 0x80" "w < 0x800" | "\<not> w < 0x800" by blast
  then show ?thesis
  proof cases
    case 1
    then show ?thesis using decode1[of w] by (simp add: utf8_encode_def next_unit_def)
  next
    case 2
    then show ?thesis
      using lead2[of w] decode2[of w] continuation by (simp add: utf8_encode_def next_unit_def peek_def Let_def)
  next
    case 3
    then have "\<not> w < 0x80" by (simp add: word_less_nat_alt)
    then show ?thesis
      using 3 lead3[of w] decode3[of w] continuation by (simp add: utf8_encode_def next_unit_def peek_def Let_def)
  qed
qed

section \<open>Properties\<close>

text \<open>A line feed is printed as carriage return and line feed.\<close>

definition crlf :: "u16 \<Rightarrow> u16 list" where
  "crlf w = (if w = 10 then [13, 10] else [w])"

lemma encode_hd: "w \<noteq> 0 \<Longrightarrow> utf8_encode w \<noteq> [] \<and> hd (utf8_encode w) \<noteq> NUL \<and> (hd (utf8_encode w) = LF \<longleftrightarrow> w = 10)"
proof -
  assume w: "w \<noteq> 0"
  have "\<not> (0xC0 OR x :: u8) < 0x80" "\<not> (0xE0 OR x :: u8) < 0x80" for x using continuation by auto
  moreover have "y < 0x80" if "y \<in> {0, 10}" for y :: u8 using that by auto
  ultimately have n: "(0xC0 OR x :: u8) \<notin> {0, 10}" "(0xE0 OR x :: u8) \<notin> {0, 10}" for x by blast+
  have b: "byte_of NUL = 0" "byte_of LF = 10" by (simp_all add: byte_of_def)
  have u: "ucast w = (0 :: u8) \<longleftrightarrow> w = 0" "ucast w = (10 :: u8) \<longleftrightarrow> w = 10" if "w < 0x80"
    using decode1[OF that] by (auto dest: arg_cong[where f = "ucast :: u8 \<Rightarrow> u16"])
  show ?thesis using w n u by (auto simp: utf8_encode_def chr8_eq_iff b)
qed

definition fits :: "u16 list \<Rightarrow> bool" where
  "fits b \<longleftrightarrow> b \<noteq> [] \<and> length b \<le> 126 \<and> 0 \<notin> set b"

lemma flush_full_unit:
  assumes "length buf < 126" and "0 \<notin> set buf" and "u \<noteq> 0" and "flush_full (buf @ [u]) = (out, buf')"
  shows "concat out @ buf' = buf @ [u] \<and> list_all fits out \<and> length buf' < 126 \<and> 0 \<notin> set buf'"
  using assms by (auto simp: flush_full_def fits_def split: if_splits)

lemma con_loop_encoded:
  assumes "0 \<notin> set ws" and "length buf < 126" and "0 \<notin> set buf"
  shows "concat (con_loop buf (concat (map utf8_encode ws))) = buf @ concat (map crlf ws) \<and>
    list_all fits (con_loop buf (concat (map utf8_encode ws)))"
  using assms
proof (induction ws arbitrary: buf)
  case Nil
  then show ?case by (simp add: con_loop.simps fits_def)
next
  case (Cons w ws)
  let ?s = "concat (map utf8_encode ws)"
  have w: "w \<noteq> 0" "0 \<notin> set ws" using Cons.prems(1) by auto
  note h = encode_hd[OF w(1)]
  have nz: "nz (utf8_encode w @ ?s)" "hd (utf8_encode w @ ?s) = LF \<longleftrightarrow> w = 10"
    using h by (cases "utf8_encode w", simp_all add: nz_def)+
  obtain out1 buf1 where f1: "(if w = 10 then flush_full (buf @ [13]) else ([], buf)) = (out1, buf1)" by fastforce
  obtain out2 buf2 where f2: "flush_full (buf1 @ [w]) = (out2, buf2)" by fastforce
  have s1: "concat out1 @ buf1 = (if w = 10 then buf @ [13] else buf) \<and> list_all fits out1 \<and> length buf1 < 126 \<and> 0 \<notin> set buf1"
    using flush_full_unit[of buf 13 out1 buf1] Cons.prems(2,3) f1 by (auto split: if_splits)
  have s2: "concat out2 @ buf2 = buf1 @ [w] \<and> list_all fits out2 \<and> length buf2 < 126 \<and> 0 \<notin> set buf2"
    by (rule flush_full_unit[OF _ _ w(1) f2]) (use s1 in auto)
  have "con_loop buf (utf8_encode w @ ?s) = out1 @ out2 @ con_loop buf2 ?s"
    using nz f1 f2 by (subst con_loop.simps) (simp add: next_unit_encode)
  moreover have "concat (con_loop buf2 ?s) = buf2 @ concat (map crlf ws) \<and> list_all fits (con_loop buf2 ?s)"
    by (rule Cons.IH) (use s2 w(2) in auto)
  moreover have "concat out1 @ concat out2 @ buf2 = buf @ crlf w" using s1 s2 by (auto simp: crlf_def split: if_splits)
  ultimately show ?case using s1 s2 by simp
qed

definition printed :: "con_call list \<Rightarrow> u16 list" where
  "printed calls = concat (map (\<lambda>c. case c of OutputString b \<Rightarrow> b | _ \<Rightarrow> []) calls)"

text \<open>
  C29. The console prints what the text says: for the UTF-8 encoding of any sequence of code units other
  than 0, \<^verbatim>\<open>con_puts\<close> passes exactly these units to the firmware, in order, with a carriage return
  before every line feed; every call is a non-empty string without a 0 inside that fits, with its
  terminator, into the buffer of 128 units.
\<close>

theorem con_puts_utf8:
  assumes "0 \<notin> set ws"
  shows "printed (con_puts (concat (map utf8_encode ws))) = concat (map crlf ws) \<and>
    (\<forall>c\<in>set (con_puts (concat (map utf8_encode ws))).
       \<exists>b. c = OutputString b \<and> b \<noteq> [] \<and> length b + 1 < 128 \<and> 0 \<notin> set b)"
proof -
  have "printed (map OutputString bs) = concat bs" for bs by (simp add: printed_def comp_def)
  then show ?thesis
    using con_loop_encoded[OF assms, of "[]"] by (fastforce simp: con_puts_def fits_def list_all_iff)
qed

theorem con_puts_utf8_witness: "printed (con_puts (BOX_DV @ [LF])) = [0x2551, 13, 10]"
proof -
  have "utf8_encode 0x2551 = BOX_DV" "utf8_encode 10 = [LF]"
    by (simp_all add: utf8_encode_def BOX_DV_def chr8_eq_iff byte_of_def)
  then show ?thesis using con_puts_utf8[of "[0x2551, 10]"] by (simp add: crlf_def)
qed

end
