(* ===== verification/Uefi_Scan.thy ===== *)
theory Uefi_Scan
  imports Uefi_Con Ext4_Files
begin

text \<open>
  Kernel discovery of the UEFI edition, the first half of \<^verbatim>\<open>src/uefi/uefi_loader.c\<close>: file access
  through the firmware's file systems and the EXT4 reader, the directory scans and the second parser
  of loader entries.

  A firmware volume is a parameter: opening a path on it gives a file, which reports its size, delivers
  its bytes and, as a directory, the attributes and names that successive reads into an info buffer of
  the given size return before an error or the end.  The state of a scan is the configuration, the table
  \<^verbatim>\<open>g_entry_ctx\<close> that says on which file system an entry was found, and the mounted EXT4 volumes, to
  which the table refers by index.  \<open>None\<close> is an access outside a buffer.  Messages on the console are
  left out.
\<close>

section \<open>Firmware file systems\<close>

record efi_file =
  ef_info :: "nat \<Rightarrow> u64 option"
  ef_read :: "u64 \<Rightarrow> u8 list option"
  ef_dir :: "nat \<Rightarrow> (bool \<times> u16 list) list"

type_synonym efi_root = "u16 list \<Rightarrow> efi_file option"

definition efi_path_join :: "string \<Rightarrow> string \<Rightarrow> nat \<Rightarrow> string" where
  "efi_path_join parent child mx =
     (let out = take (mx - 1) (cstr parent);
          out = (if out \<noteq> [] \<and> last out \<noteq> CHR ''/'' \<and> length out + 1 < mx then out @ ''/'' else out)
      in out @ take (mx - 1 - length out) (cstr (dropWhile (\<lambda>c. c = CHR ''/'') child)))"

definition open_path :: "efi_root \<Rightarrow> string \<Rightarrow> efi_file option" where
  "open_path root path = root (ascii_to_ucs2_path path 256)"

datatype FsCtx = FS_FAT "efi_root option" "nat option" | FS_EXT4 "nat option"

definition get_device_handle :: "FsCtx option \<Rightarrow> nat option" where
  "get_device_handle ctx = (case ctx of Some (FS_FAT _ h) \<Rightarrow> h | _ \<Rightarrow> None)"

text \<open>The firmware part of \<^verbatim>\<open>read_file\<close>: the result is the file, or \<open>None\<close> for \<^verbatim>\<open>NULL\<close>.\<close>

definition read_fat :: "(u64 \<Rightarrow> bool) \<Rightarrow> efi_root \<Rightarrow> string \<Rightarrow> u8 list option option" where
  "read_fat alloc root path =
     (case open_path root path of
        None \<Rightarrow> Some None
      | Some f \<Rightarrow>
          (case ef_info f 512 of
             None \<Rightarrow> Some None
           | Some fsz \<Rightarrow>
               if \<not> alloc (fsz + 1) then Some None
               else (case ef_read f fsz of
                       None \<Rightarrow> Some None
                     | Some buf \<Rightarrow> if length buf < unat (fsz + 1) then Some (Some buf) else None)))"

definition read_file ::
    "ext4_env \<Rightarrow> FsCtx \<Rightarrow> string \<Rightarrow> Ext4Vol list \<Rightarrow> (u8 list option \<times> Ext4Vol list) option" where
  "read_file env ctx path vols =
     (case ctx of
        FS_EXT4 (Some i) \<Rightarrow>
          if i < length vols then do {
            (v, r) \<leftarrow> ext4_read_file env (vols ! i) path;
            Some (r, vols[i := v]) }
          else None
      | FS_FAT (Some root) _ \<Rightarrow> do { r \<leftarrow> read_fat (en_alloc env) root path; Some (r, vols) }
      | _ \<Rightarrow> None)"

section \<open>Adding what was found\<close>

record uefi_state =
  us_cfg :: BootConfig
  us_ctx :: "FsCtx option list"
  us_vols :: "Ext4Vol list"

text \<open>\<^verbatim>\<open>config_add_kernel\<close>, and the context of the entry if there is a new one; \<open>f\<close> completes it.\<close>

definition add_found ::
    "FsCtx \<Rightarrow> (BootEntry \<Rightarrow> BootEntry) \<Rightarrow> string \<Rightarrow> OSType \<Rightarrow> string \<Rightarrow> string option
     \<Rightarrow> BootConfig \<times> FsCtx option list \<Rightarrow> BootConfig \<times> FsCtx option list" where
  "add_found ctx f name type kernel_path initrd_path = (\<lambda>(cfg, ctxs).
     let prev = bc_num_entries cfg;
         cfg = snd (config_add_kernel cfg name type kernel_path initrd_path)
     in if bc_num_entries cfg > prev then
          let idx = unat (bc_num_entries cfg - 1)
          in (cfg\<lparr> bc_entries := (bc_entries cfg)[idx := f (bc_entries cfg ! idx)] \<rparr>, ctxs[idx := Some ctx])
        else (cfg, ctxs))"

definition add_entry ::
    "FsCtx \<Rightarrow> (BootEntry \<Rightarrow> BootEntry) \<Rightarrow> string \<Rightarrow> OSType \<Rightarrow> string \<Rightarrow> string option \<Rightarrow> uefi_state \<Rightarrow> uefi_state" where
  "add_entry ctx f name type kernel_path initrd_path st =
     (let (cfg, ctxs) = add_found ctx f name type kernel_path initrd_path (us_cfg st, us_ctx st)
      in st\<lparr> us_cfg := cfg, us_ctx := ctxs \<rparr>)"

section \<open>Scanning a firmware volume\<close>

definition has_efi_ext :: "string \<Rightarrow> bool" where
  "has_efi_ext name \<longleftrightarrow> (let nl = length name in nl > 4 \<and> name ! (nl - 4) = CHR ''.'' \<and>
     name ! (nl - 3) \<in> {CHR ''e'', CHR ''E''} \<and> name ! (nl - 2) \<in> {CHR ''f'', CHR ''F''} \<and>
     name ! (nl - 1) \<in> {CHR ''i'', CHR ''I''})"

definition kernel_suffix :: "string \<Rightarrow> string" where
  "kernel_suffix name = (if take 8 name = ''vmlinuz-'' then take 63 (drop 8 name) else [])"

text \<open>
  The candidate list as it is in the code: the two names built from the suffix are null pointers when
  there is none.  Both are built in buffers of 80 bytes.
\<close>

definition initrd_candidates :: "string \<Rightarrow> string option list option" where
  "initrd_candidates name =
     (let suffix = kernel_suffix name;
          cand0 = (if suffix \<noteq> [] then ''initramfs-'' @ take 64 suffix @ ''.img'' else []);
          cand1 = (if suffix \<noteq> [] then ''initramfs-'' @ take 60 suffix @ ''-fallback.img'' else [])
      in if length cand0 \<ge> 80 \<or> length cand1 \<ge> 80 then None
         else Some ([if cand0 \<noteq> [] then Some cand0 else None, if cand1 \<noteq> [] then Some cand1 else None]
           @ map Some [''initramfs-linux.img'', ''initramfs-linux-fallback.img'', ''initrd.img'',
                ''initramfs.img'', ''initrd'', ''initramfs'']))"

text \<open>The loop over the candidates, up to the first null pointer.\<close>

fun first_initrd :: "efi_root \<Rightarrow> string \<Rightarrow> string option list \<Rightarrow> string" where
  "first_initrd root dir [] = []"
| "first_initrd root dir (None # cs) = []"
| "first_initrd root dir (Some c # cs) =
     (if open_path root (efi_path_join dir c 256) \<noteq> None then efi_path_join dir c 256
      else first_initrd root dir cs)"

definition scan_name :: "u16 list \<Rightarrow> string" where
  "scan_name fname = cstr (ucs2_to_ascii fname 256)"

definition scan_file_uefi ::
    "efi_root \<Rightarrow> nat option \<Rightarrow> string \<Rightarrow> bool \<Rightarrow> string \<Rightarrow> uefi_state \<Rightarrow> uefi_state option" where
  "scan_file_uefi root sfs dir_path allow_efi name st =
     (let type = config_guess_type name;
          type = (if type = OS_TYPE_UNKNOWN \<and> allow_efi \<and> has_efi_ext name then OS_TYPE_LINUX else type)
      in if type = OS_TYPE_UNKNOWN then Some st
         else do {
           initrd_path \<leftarrow>
             (if type = OS_TYPE_LINUX \<and> \<not> allow_efi
              then map_option (first_initrd root dir_path) (initrd_candidates name) else Some []);
           Some (add_entry (FS_FAT (Some root) sfs) id (config_make_name dir_path name type 256) type
                   (efi_path_join dir_path name 256) (if nz initrd_path then Some initrd_path else None) st) })"

function scan_dir_uefi ::
    "efi_root \<Rightarrow> nat option \<Rightarrow> string \<Rightarrow> nat \<Rightarrow> bool \<Rightarrow> uefi_state \<Rightarrow> uefi_state option" where
  "scan_dir_uefi root sfs dir_path depth allow_efi st =
     (case open_path root dir_path of
        None \<Rightarrow> Some st
      | Some dir \<Rightarrow>
          fold_opt (\<lambda>(is_dir, fname) st.
            let name = scan_name fname
            in if dot_name name then Some st
               else if is_dir then
                 (if depth \<ge> 1 then Some st
                  else scan_dir_uefi root sfs (efi_path_join dir_path name 256) (depth + 1) allow_efi st)
               else scan_file_uefi root sfs dir_path allow_efi name st) (ef_dir dir 512) st)"
  by pat_completeness auto
termination
  by (relation "measure (\<lambda>(_, _, _, depth, _, _). 1 - depth)") auto

declare scan_dir_uefi.simps [simp del]

section \<open>Loader entries\<close>

definition sl_copy :: "string \<Rightarrow> nat \<Rightarrow> string" where
  "sl_copy s mx = take (mx - 1) (cstr s)"

definition sl_cat :: "string \<Rightarrow> nat \<Rightarrow> string \<Rightarrow> string" where
  "sl_cat d mx s = d @ take (mx - 1 - length d) (cstr s)"

record sl_conf =
  sl_title :: string
  sl_linux :: string
  sl_options :: string
  sl_initrds :: "string list"

definition sl_line :: "string \<Rightarrow> sl_conf \<Rightarrow> sl_conf" where
  "sl_line line c =
     (let key0 = takeWhile (\<lambda>x. \<not> is_space x) line;
          val0 = dropWhile is_space (dropWhile (\<lambda>x. \<not> is_space x) line);
          key = cstr (take 31 key0); val = cstr (take 255 val0)
      in if key0 = [] \<or> val0 = [] then c
         else if key = ''title'' then c\<lparr> sl_title := sl_copy val 256 \<rparr>
         else if key = ''linux'' then c\<lparr> sl_linux := sl_copy val 256 \<rparr>
         else if key = ''initrd'' \<and> length (sl_initrds c) < 4 then c\<lparr> sl_initrds := sl_initrds c @ [sl_copy val 256] \<rparr>
         else if key = ''options'' then c\<lparr> sl_options := sl_copy val 256 \<rparr>
         else c)"

function sl_parse :: "string \<Rightarrow> sl_conf \<Rightarrow> sl_conf" where
  "sl_parse t c =
     (if t = [] then c
      else let line = takeWhile (\<lambda>x. \<not> is_newline x) t;
               rest = dropWhile is_newline (dropWhile (\<lambda>x. \<not> is_newline x) t)
           in sl_parse rest (if line = [] \<or> hd line = CHR ''#'' then c else sl_line line c))"
  by pat_completeness auto
termination
proof (relation "measure (\<lambda>(t, _). length t)", goal_cases)
  case (2 t c line rest)
  have "length rest < length t"
  proof (cases "dropWhile (\<lambda>x. \<not> is_newline x) t")
    case Nil
    then have "rest = []" using 2(3) by (simp only: dropWhile.simps)
    then show ?thesis using 2(1) by simp
  next
    case (Cons x xs)
    then have "is_newline x" by (metis dropWhile_eq_Cons_conv)
    then have "length rest \<le> length xs" using Cons 2(3) by (simp add: length_dropWhile_le)
    moreover have "Suc (length xs) \<le> length t" using length_dropWhile_le[of "\<lambda>x. \<not> is_newline x" t] Cons by simp
    ultimately show ?thesis by simp
  qed
  then show ?case by simp
qed simp

declare sl_parse.simps [simp del]

definition empty_conf :: sl_conf where
  "empty_conf = \<lparr> sl_title = [], sl_linux = [], sl_options = [], sl_initrds = [] \<rparr>"

definition sl_add_initrd :: "string \<Rightarrow> string \<Rightarrow> string" where
  "sl_add_initrd initrd cmdline =
     (if initrd = [] then cmdline
      else
        let ipath = map efi_slash (sl_copy initrd 256);
            cmdline = (if cmdline \<noteq> [] then sl_cat cmdline 256 '' '' else cmdline)
        in sl_cat (sl_cat cmdline 256 ''initrd='') 256 ipath)"

definition sl_cmdline :: "sl_conf \<Rightarrow> string" where
  "sl_cmdline c = fold sl_add_initrd (sl_initrds c) (sl_copy (sl_options c) 256)"

definition conf_name :: "string \<Rightarrow> bool" where
  "conf_name fname \<longleftrightarrow> 6 \<le> length fname \<and> drop (length fname - 5) fname = ''.conf''"

definition add_conf :: "efi_root \<Rightarrow> nat option \<Rightarrow> string \<Rightarrow> sl_conf \<Rightarrow> uefi_state \<Rightarrow> uefi_state" where
  "add_conf root sfs fname c st =
     (if sl_linux c = [] then st
      else add_entry (FS_FAT (Some root) sfs) (\<lambda>e. e\<lparr> be_cmdline := sl_copy (sl_cmdline c) 256 \<rparr>)
             (if sl_title c = [] then sl_copy fname 256 else sl_title c) OS_TYPE_LINUX (sl_linux c)
             (case sl_initrds c of [] \<Rightarrow> None | i # _ \<Rightarrow> Some i) st)"

definition scan_loader_entry ::
    "(u64 \<Rightarrow> bool) \<Rightarrow> efi_root \<Rightarrow> nat option \<Rightarrow> bool \<times> u16 list \<Rightarrow> uefi_state \<Rightarrow> uefi_state option" where
  "scan_loader_entry alloc root sfs = (\<lambda>(is_dir, fn) st.
     let fname = scan_name fn
     in if is_dir \<or> \<not> conf_name fname then Some st
        else do {
          r \<leftarrow> read_fat alloc root (efi_path_join ''/loader/entries'' fname 256);
          Some (case r of None \<Rightarrow> st | Some buf \<Rightarrow> add_conf root sfs fname (sl_parse (map chr8 buf) empty_conf) st) })"

definition scan_loader_entries :: "(u64 \<Rightarrow> bool) \<Rightarrow> efi_root \<Rightarrow> nat option \<Rightarrow> uefi_state \<Rightarrow> uefi_state option" where
  "scan_loader_entries alloc root sfs st =
     (case open_path root ''/loader/entries'' of
        None \<Rightarrow> Some st
      | Some dir \<Rightarrow> fold_opt (scan_loader_entry alloc root sfs) (ef_dir dir 600) st)"

section \<open>All firmware volumes\<close>

text \<open>The contexts of the entries a configuration file added.\<close>

definition fill_ctx :: "FsCtx \<Rightarrow> nat \<Rightarrow> uefi_state \<Rightarrow> uefi_state" where
  "fill_ctx ctx n st =
     st\<lparr> us_ctx := fold (\<lambda>j cs. if cs ! j = None then cs[j := Some ctx] else cs)
          [n..<unat (bc_num_entries (us_cfg st))] (us_ctx st) \<rparr>"

definition scan_config :: "(u64 \<Rightarrow> bool) \<Rightarrow> efi_root \<Rightarrow> nat option \<Rightarrow> uefi_state \<Rightarrow> uefi_state option" where
  "scan_config alloc root sfs st = do {
     r \<leftarrow> read_fat alloc root ''/sakuru.cfg'';
     Some (case r of
       None \<Rightarrow> st
     | Some cfg_buf \<Rightarrow>
         let n = bc_num_entries (us_cfg st);
             cfg = snd ((if n = 0 then config_parse else config_parse_merge) (map chr8 cfg_buf) (us_cfg st))
         in fill_ctx (FS_FAT (Some root) sfs) (unat n) (st\<lparr> us_cfg := cfg \<rparr>)) }"

definition scan_volume :: "(u64 \<Rightarrow> bool) \<Rightarrow> efi_root \<Rightarrow> nat \<Rightarrow> uefi_state \<Rightarrow> uefi_state option" where
  "scan_volume alloc root h st = do {
     st \<leftarrow> scan_config alloc root (Some h) st;
     st \<leftarrow> scan_loader_entries alloc root (Some h) st;
     st \<leftarrow> scan_dir_uefi root (Some h) ''/boot'' 0 False st;
     st \<leftarrow> scan_dir_uefi root (Some h) ''/EFI/Linux'' 0 True st;
     scan_dir_uefi root (Some h) ''/'' 0 False st }"

text \<open>The boot volume is moved to the front.\<close>

definition boot_first :: "nat option \<Rightarrow> nat list \<Rightarrow> nat list" where
  "boot_first boot handles =
     (case boot of
        None \<Rightarrow> handles
      | Some b \<Rightarrow>
          (case List.find (\<lambda>i. handles ! i = b \<and> i \<noteq> 0) [0..<length handles] of
             None \<Rightarrow> handles
           | Some i \<Rightarrow> handles[0 := handles ! i, i := handles ! 0]))"

text \<open>\<open>open_volume\<close>: the file system protocol of a handle and its root, when both are there.\<close>

definition scan_all_filesystems ::
    "(u64 \<Rightarrow> bool) \<Rightarrow> (nat \<Rightarrow> efi_root option) \<Rightarrow> nat option \<Rightarrow> nat list option \<Rightarrow> uefi_state \<Rightarrow> uefi_state option" where
  "scan_all_filesystems alloc open_volume boot handles st =
     (case handles of
        None \<Rightarrow> Some st
      | Some hs \<Rightarrow>
          fold_opt (\<lambda>h st. case open_volume h of None \<Rightarrow> Some st | Some root \<Rightarrow> scan_volume alloc root h st)
            (boot_first boot hs) st)"

section \<open>EXT4 volumes\<close>

fun ext4_initrd :: "ext4_env \<Rightarrow> string \<Rightarrow> string list \<Rightarrow> Ext4Vol \<Rightarrow> (string \<times> Ext4Vol) option" where
  "ext4_initrd env dir [] v = Some ([], v)"
| "ext4_initrd env dir (c # cs) v = do {
     (v, sz) \<leftarrow> ext4_stat env v (efi_path_join dir c 256);
     if sz > 0 then Some (efi_path_join dir c 256, v) else ext4_initrd env dir cs v }"

definition ext4_scan_cb :: "ext4_env \<Rightarrow> nat \<Rightarrow> string \<Rightarrow> (BootConfig \<times> FsCtx option list) ext4_cb" where
  "ext4_scan_cb env vol dir name is_dir = (\<lambda>(cc, v).
     let type = config_guess_type name
     in if is_dir \<or> type = OS_TYPE_UNKNOWN then Some (cc, v)
        else do {
          (initrd_path, v) \<leftarrow>
            (if type = OS_TYPE_LINUX
             then ext4_initrd env dir [''initramfs.img'', ''initrd.img'', ''initramfs'', ''initrd'',
                    ''initramfs-linux.img'', ''initramfs-linux-fallback.img''] v
             else Some ([], v));
          Some (add_found (FS_EXT4 (Some vol)) id (config_make_name dir name type 256) type
                  (efi_path_join dir name 256) (if nz initrd_path then Some initrd_path else None) cc, v) })"

definition scan_ext4_volume :: "ext4_env \<Rightarrow> Ext4Vol \<Rightarrow> uefi_state \<Rightarrow> uefi_state option" where
  "scan_ext4_volume env v st = do {
     let vol = length (us_vols st);
     (cc, v) \<leftarrow> ext4_readdir env ''/'' (ext4_scan_cb env vol ''/'') ((us_cfg st, us_ctx st), v);
     (cc, v) \<leftarrow> ext4_readdir env ''/boot'' (ext4_scan_cb env vol ''/boot'') (cc, v);
     Some (st\<lparr> us_cfg := fst cc, us_ctx := snd cc, us_vols := us_vols st @ [v] \<rparr>) }"

text \<open>\<open>block_io\<close> and \<open>disk_io\<close>: the protocols of a handle.\<close>

definition scan_all_ext4 ::
    "ext4_env \<Rightarrow> (nat \<Rightarrow> (efi_media \<times> read_proto) option) \<Rightarrow> (nat \<Rightarrow> read_proto option) \<Rightarrow> nat list option
     \<Rightarrow> uefi_state \<Rightarrow> uefi_state option" where
  "scan_all_ext4 env block_io disk_io handles st =
     (case handles of
        None \<Rightarrow> Some st
      | Some hs \<Rightarrow>
          fold_opt (\<lambda>h st. do {
            vol \<leftarrow> ext4_mount env h (block_io h) (disk_io h);
            case vol of None \<Rightarrow> Some st | Some v \<Rightarrow> scan_ext4_volume env v st }) hs st)"

section \<open>The entry table and its contexts\<close>

text \<open>
  Every entry in use has a context and no other slot has one; an entry found on an EXT4 volume refers to
  a mounted volume and is not marked as encrypted.
\<close>

fun ctx_ok :: "nat \<Rightarrow> BootEntry \<Rightarrow> FsCtx \<Rightarrow> bool" where
  "ctx_ok n e (FS_FAT root h) \<longleftrightarrow> root \<noteq> None"
| "ctx_ok n e (FS_EXT4 v) \<longleftrightarrow> be_encrypted e = 0 \<and> (\<exists>k<n. v = Some k)"

definition slots :: "FsCtx list \<Rightarrow> FsCtx option list" where
  "slots cs = map Some cs @ replicate (MAX_ENTRIES - length cs) None"

definition table_ok :: "nat \<Rightarrow> BootConfig \<times> FsCtx option list \<Rightarrow> bool" where
  "table_ok n = (\<lambda>(cfg, ctxs). wf_config cfg \<and> (\<exists>cs. ctxs = slots cs \<and> list_all2 (ctx_ok n) (live_entries cfg) cs))"

definition scan_ok :: "uefi_state \<Rightarrow> bool" where
  "scan_ok st \<longleftrightarrow> table_ok (length (us_vols st)) (us_cfg st, us_ctx st)"

lemma slots_append: "length cs < MAX_ENTRIES \<Longrightarrow> (slots cs)[length cs := Some c] = slots (cs @ [c])"
proof -
  assume "length cs < MAX_ENTRIES"
  then obtain k where "MAX_ENTRIES - length cs = Suc k" by (metis Suc_diff_Suc)
  then show ?thesis by (simp add: slots_def list_update_append)
qed

lemma slots_fill:
  "length cs + k \<le> MAX_ENTRIES \<Longrightarrow>
   fold (\<lambda>j ds. if ds ! j = None then ds[j := Some c] else ds) [length cs..<length cs + k] (slots cs) = slots (cs @ replicate k c)"
proof (induction k arbitrary: cs)
  case (Suc k)
  have l: "length cs < MAX_ENTRIES" using Suc.prems by simp
  then have n: "slots cs ! length cs = None" by (simp add: slots_def nth_append)
  have u: "[length cs..<length cs + Suc k] = length cs # [length (cs @ [c])..<length (cs @ [c]) + k]"
    by (simp add: upt_conv_Cons)
  show ?case unfolding u using Suc.IH[of "cs @ [c]"] Suc.prems n slots_append[OF l, of c] by simp
qed simp

lemma ctx_ok_mono: "ctx_ok n e c \<Longrightarrow> n \<le> m \<Longrightarrow> ctx_ok m e c"
  by (cases c) auto

lemma table_ok_mono: "table_ok n x \<Longrightarrow> n \<le> m \<Longrightarrow> table_ok m x"
  using ctx_ok_mono by (force simp: table_ok_def elim!: list_all2_mono)

subsection \<open>Adding an entry\<close>

definition keeps_entry :: "(BootEntry \<Rightarrow> BootEntry) \<Rightarrow> bool" where
  "keeps_entry f \<longleftrightarrow> (\<forall>e. wf_entry e \<longrightarrow> wf_entry (f e) \<and> be_encrypted (f e) = be_encrypted e)"

lemma table_ok_add_found:
  assumes "table_ok n (cfg, ctxs)" and "\<And>e. be_encrypted e = 0 \<Longrightarrow> ctx_ok n e ctx" and "keeps_entry f"
  shows "table_ok n (add_found ctx f name type kp ip (cfg, ctxs))"
proof (cases rule: config_add_kernel_cases [of cfg name type kp ip])
  case (new e)
  obtain cs where cs: "ctxs = slots cs" "list_all2 (ctx_ok n) (live_entries cfg) cs" and wf: "wf_config cfg"
    using assms(1) by (auto simp: table_ok_def)
  let ?i = "unat (bc_num_entries cfg)"
  have len: "length (bc_entries cfg) = MAX_ENTRIES" "length cs = ?i"
    using wf cs(2) length_live_entries[of cfg] list_all2_lengthD[OF cs(2)] by (auto simp: wf_config_def wf_table_def)
  have f: "wf_entry (f e)" "be_encrypted (f e) = 0" using assms(3) new(3,8) by (auto simp: keeps_entry_def)
  let ?c = "cfg\<lparr>bc_num_entries := bc_num_entries cfg + 1, bc_entries := (bc_entries cfg)[?i := f e]\<rparr>"
  have "bc_num_entries cfg + 1 > bc_num_entries cfg"
    using new(2) unat_Suc_entries[of "bc_num_entries cfg"] by (simp add: word_less_nat_alt)
  then have "add_found ctx f name type kp ip (cfg, ctxs) = (?c, slots (cs @ [ctx]))"
    using new(1,2) len slots_append[of cs ctx] by (simp add: add_found_def cs(1) Let_def)
  moreover have "wf_config ?c" using wf wf_table_append[of cfg "f e"] new(2) f(1) by (simp add: wf_config_def)
  moreover have "live_entries ?c = live_entries cfg @ [f e]" by (rule live_entries_append) (use len new(2) in auto)
  ultimately show ?thesis
    using cs(2) assms(2)[OF f(2)] by (auto simp: table_ok_def intro!: list_all2_appendI)
qed (use assms(1) in \<open>simp_all add: add_found_def\<close>)

lemma scan_ok_add_entry:
  assumes "scan_ok st" and "root \<noteq> None" and "keeps_entry f"
  shows "scan_ok (add_entry (FS_FAT root h) f name type kp ip st)"
  using table_ok_add_found[of "length (us_vols st)" "us_cfg st" "us_ctx st" "FS_FAT root h" f name type kp ip] assms
  by (auto simp: scan_ok_def add_entry_def split: prod.splits)

lemma keeps_entry_id [simp]: "keeps_entry id" by (simp add: keeps_entry_def)

lemma keeps_entry_cmdline [simp]: "keeps_entry (\<lambda>e. e\<lparr> be_cmdline := sl_copy s 256 \<rparr>)"
proof -
  have "field_ok (sl_copy s 256)" using in_set_takeD by (fastforce simp: field_ok_def sl_copy_def cstr_def dest: set_takeWhileD)
  then show ?thesis by (simp add: keeps_entry_def wf_entry_def)
qed

subsection \<open>Configuration files\<close>

lemma merge_appends:
  assumes "wf_config cfg"
  shows "wf_config (snd (config_parse_merge buf cfg)) \<and>
    (\<exists>es. live_entries (snd (config_parse_merge buf cfg)) = live_entries cfg @ es)"
proof -
  let ?c = "do_parse_loop True None cfg buf"
  have "merge_inv cfg None cfg" using assms by (simp add: merge_inv_def cur_ok_def)
  then have "\<exists>cur. merge_inv cfg cur ?c" by (rule do_parse_loop_invariant) (rule merge_inv_step)
  then have "wf_config ?c" "\<exists>es. live_entries ?c = live_entries cfg @ es" by (auto simp: merge_inv_def cfg_extends_def)
  moreover have "live_entries (clamp_default ?c) = live_entries ?c" by (simp add: clamp_default_def)
  ultimately show ?thesis by (simp add: config_parse_merge_def do_parse_def Let_def)
qed

lemma scan_ok_fill:
  assumes "scan_ok st" and "wf_config cfg" and "live_entries cfg = live_entries (us_cfg st) @ es"
  shows "scan_ok (fill_ctx (FS_FAT (Some root) h) (unat (bc_num_entries (us_cfg st))) (st\<lparr> us_cfg := cfg \<rparr>))"
proof -
  let ?n = "length (us_vols st)" and ?x = "FS_FAT (Some root) h"
  obtain cs where cs: "us_ctx st = slots cs" "list_all2 (ctx_ok ?n) (live_entries (us_cfg st)) cs" and wf: "wf_config (us_cfg st)"
    using assms(1) by (auto simp: scan_ok_def table_ok_def)
  have l: "length cs = unat (bc_num_entries (us_cfg st))" "length cs + length es = unat (bc_num_entries cfg)"
    "unat (bc_num_entries cfg) \<le> MAX_ENTRIES"
    using wf assms(2,3) length_live_entries[of cfg] length_live_entries[of "us_cfg st"] list_all2_lengthD[OF cs(2)]
    by (auto simp: wf_config_def wf_table_def)
  have "list_all2 (ctx_ok ?n) es (replicate (length es) ?x)" by (simp add: list_all2_conv_all_nth)
  then have "list_all2 (ctx_ok ?n) (live_entries cfg) (cs @ replicate (length es) ?x)"
    using cs(2) assms(3) by (simp add: list_all2_appendI)
  moreover have "us_ctx (fill_ctx ?x (length cs) (st\<lparr> us_cfg := cfg \<rparr>)) = slots (cs @ replicate (length es) ?x)"
    using slots_fill[of cs "length es" ?x] l by (simp add: fill_ctx_def cs(1))
  ultimately show ?thesis using assms(2) l(1) by (auto simp: scan_ok_def table_ok_def fill_ctx_def)
qed

lemma scan_ok_config:
  assumes "scan_ok st" and "scan_config alloc root h st = Some st'"
  shows "scan_ok st'"
proof -
  let ?c = "us_cfg st"
  have wf: "wf_config ?c" using assms(1) by (simp add: scan_ok_def table_ok_def)
  have "scan_ok (fill_ctx (FS_FAT (Some root) h) (unat (bc_num_entries ?c)) (st\<lparr> us_cfg := snd (p buf ?c) \<rparr>))"
    if "p = (if bc_num_entries ?c = 0 then config_parse else config_parse_merge)" for p buf
  proof (cases "bc_num_entries ?c = 0")
    case True
    have "wf_config (snd (config_parse buf ?c))"
      using config_parse_result[of ?c buf, OF _ prod.collapse[symmetric]] wf by (simp add: wf_config_def wf_table_def)
    moreover have "live_entries ?c = []" using True by (simp add: live_entries_def)
    ultimately show ?thesis using True that scan_ok_fill[OF assms(1)] by simp
  next
    case False
    then show ?thesis using that merge_appends[OF wf, of buf] scan_ok_fill[OF assms(1)] by auto
  qed
  then show ?thesis using assms by (auto simp: scan_config_def Let_def split: bind_splits option.splits)
qed

subsection \<open>Scans\<close>

lemma scan_ok_file:
  "scan_ok st \<Longrightarrow> scan_file_uefi root h dir a name st = Some st' \<Longrightarrow> scan_ok st'"
  by (auto simp: scan_file_uefi_def Let_def scan_ok_add_entry split: if_splits bind_splits)

lemma scan_ok_dir:
  "scan_dir_uefi root h dir depth a st = Some st' \<Longrightarrow> scan_ok st \<Longrightarrow> scan_ok st'"
proof (induction "1 - depth" arbitrary: dir depth st st' rule: less_induct)
  case less
  show ?case
  proof (cases "open_path root dir")
    case None
    then show ?thesis using less.prems by (simp add: scan_dir_uefi.simps)
  next
    case (Some d)
    define g where "g = (\<lambda>(is_dir, fname) st. let name = scan_name fname
        in if dot_name name then Some st
           else if is_dir then (if depth \<ge> 1 then Some st
             else scan_dir_uefi root h (efi_path_join dir name 256) (depth + 1) a st)
           else scan_file_uefi root h dir a name st)"
    have "fold_opt g (ef_dir d 512) st = Some st'"
      using less.prems(1) Some unfolding g_def by (subst (asm) scan_dir_uefi.simps) simp
    moreover have "scan_ok s'" if "scan_ok s" "g x s = Some s'" for x s s'
    proof (cases "fst x \<and> depth < 1 \<and> \<not> dot_name (scan_name (snd x))")
      case True
      then show ?thesis
        using that less.hyps[of "depth + 1" "efi_path_join dir (scan_name (snd x)) 256" s s']
        by (simp add: g_def Let_def case_prod_beta)
    next
      case False
      then show ?thesis
        using that scan_ok_file[of s root h dir a "scan_name (snd x)" s']
        by (auto simp: g_def Let_def case_prod_beta not_le split: if_splits)
    qed
    ultimately show ?thesis using fold_opt_keeps[of "ef_dir d 512" scan_ok g st st'] less.prems(2) by blast
  qed
qed

lemma scan_ok_loader_entries:
  assumes "scan_ok st" and "scan_loader_entries alloc root h st = Some st'"
  shows "scan_ok st'"
proof -
  have "scan_ok s'" if "scan_ok s" "scan_loader_entry alloc root h x s = Some s'" for x s s'
    using that by (auto simp: scan_loader_entry_def Let_def add_conf_def scan_ok_add_entry split: prod.splits if_splits bind_splits option.splits)
  then show ?thesis
    using assms fold_opt_keeps[of _ scan_ok "scan_loader_entry alloc root h" st st']
    by (fastforce simp: scan_loader_entries_def split: option.splits)
qed

lemma scan_ok_volume:
  assumes "scan_ok st" and "scan_volume alloc root h st = Some st'"
  shows "scan_ok st'"
proof -
  obtain a b c d where "scan_config alloc root (Some h) st = Some a" "scan_loader_entries alloc root (Some h) a = Some b"
      "scan_dir_uefi root (Some h) ''/boot'' 0 False b = Some c" "scan_dir_uefi root (Some h) ''/EFI/Linux'' 0 True c = Some d"
      "scan_dir_uefi root (Some h) ''/'' 0 False d = Some st'"
    using assms(2) by (auto simp: scan_volume_def bind_eq_Some_conv)
  note r = this
  note b = scan_ok_loader_entries[OF scan_ok_config[OF assms(1) r(1)] r(2)]
  show ?thesis by (rule scan_ok_dir[OF r(5) scan_ok_dir[OF r(4) scan_ok_dir[OF r(3) b]]])
qed

lemma scan_ok_filesystems:
  assumes "scan_ok st" and "scan_all_filesystems alloc ov boot hs st = Some st'"
  shows "scan_ok st'"
proof -
  let ?g = "\<lambda>h st. case ov h of None \<Rightarrow> Some st | Some root \<Rightarrow> scan_volume alloc root h st"
  have "scan_ok s'" if "scan_ok s" "?g x s = Some s'" for x s s'
    using that scan_ok_volume by (auto split: option.splits)
  then show ?thesis
    using assms fold_opt_keeps[of _ scan_ok ?g st st'] by (fastforce simp: scan_all_filesystems_def split: option.splits)
qed

subsection \<open>EXT4 volumes\<close>

text \<open>What a callback keeps, the enumeration keeps.\<close>

lemma readdir_block_inv:
  assumes "\<And>name d c v c' v'. I c \<Longrightarrow> cb name d (c, v) = Some (c', v') \<Longrightarrow> I c'"
  shows "readdir_block cb buf limit pos (c, v) = Some (c', v') \<Longrightarrow> I c \<Longrightarrow> I c'"
proof (induction "limit - pos" arbitrary: pos c v rule: less_induct)
  case less
  show ?case
  proof (cases "\<exists>ino rl nl ft. pos + 8 \<le> limit \<and> r32 (drop pos buf) 0 = Some ino \<and> r16 (drop pos buf) 4 = Some rl \<and>
      r8 (drop pos buf) 6 = Some nl \<and> r8 (drop pos buf) 7 = Some ft \<and> rl \<noteq> 0")
    case False
    then show ?thesis
      using less.prems by (subst (asm) readdir_block.simps) (auto simp: Let_def split: if_splits option.splits)
  next
    case True
    then obtain ino rl nl ft where h: "pos + 8 \<le> limit" "r32 (drop pos buf) 0 = Some ino" "r16 (drop pos buf) 4 = Some rl"
        "r8 (drop pos buf) 6 = Some nl" "r8 (drop pos buf) 7 = Some ft" "rl \<noteq> 0" by blast
    have IH: "I c'" if "readdir_block cb buf limit (pos + unat rl) (x, w) = Some (c', v')" "I x" for x w
      by (rule less.hyps[OF _ that]) (use h unat_gt_0[of rl] in auto)
    show ?thesis
      using less.prems h IH assms
      by (subst (asm) readdir_block.simps) (auto simp: Let_def split: if_splits option.splits)
  qed
qed

lemma readdir_blocks_inv:
  assumes "\<And>name d c v c' v'. I c \<Longrightarrow> cb name d (c, v) = Some (c', v') \<Longrightarrow> I c'"
  shows "readdir_blocks env cb inode sz nblk blk n two (c, v) = Some (c', v') \<Longrightarrow> I c \<Longrightarrow> I c'"
proof (induction n arbitrary: blk two c v)
  case (Suc n)
  obtain v1 two1 k where r: "read_lblock env v inode blk (unat (v_block_size v)) 0 two = Some (v1, two1, k)"
    using Suc.prems(1) by (auto simp: Let_def bind_eq_Some_conv)
  show ?case
  proof (cases k)
    case False
    then show ?thesis using Suc.prems r by (simp add: Let_def)
  next
    case True
    then obtain c1 w where b: "readdir_block cb (drop (unat (v_block_size v)) two1) (block_limit v1 sz nblk blk) 0 (c, v1) = Some (c1, w)"
        "readdir_blocks env cb inode sz nblk (blk + 1) n two1 (c1, w) = Some (c', v')"
      using Suc.prems(1) r by (auto simp: Let_def bind_eq_Some_conv)
    have "I c1" by (rule readdir_block_inv[where I = I and cb = cb, OF assms b(1) Suc.prems(2)])
    then show ?thesis by (rule Suc.IH[OF b(2)])
  qed
qed simp

lemma ext4_readdir_inv:
  assumes "\<And>name d c v c' v'. I c \<Longrightarrow> cb name d (c, v) = Some (c', v') \<Longrightarrow> I c'"
    and "ext4_readdir env path cb (c, v) = Some (c', v')" and "I c"
  shows "I c'"
proof (cases "pools_ok env v")
  case True
  then obtain w two r where f: "find_inode env v path = Some (w, two, r)"
    using assms(2) by (auto simp: ext4_readdir_def bind_eq_Some_conv)
  show ?thesis
  proof (cases r)
    case None
    then show ?thesis using assms(2,3) True f by (simp add: ext4_readdir_def)
  next
    case (Some inode)
    then obtain sz nblk where r:
      "readdir_blocks env cb inode sz nblk 0 (unat nblk) two (c, w) = Some (c', v')"
      using assms(2) True f by (auto simp: ext4_readdir_def Let_def bind_eq_Some_conv split: if_splits)
    show ?thesis by (rule readdir_blocks_inv[where I = I and cb = cb, OF assms(1) r assms(3)])
  qed
qed (use assms(2,3) in \<open>simp add: ext4_readdir_def\<close>)

lemma table_ok_ext4_cb:
  assumes "table_ok n cc" and "vol < n" and "ext4_scan_cb env vol dir name d (cc, v) = Some (cc', v')"
  shows "table_ok n cc'"
  using assms table_ok_add_found[of n "fst cc" "snd cc" "FS_EXT4 (Some vol)" id]
  by (auto simp: ext4_scan_cb_def Let_def split: if_splits bind_splits)

lemma scan_ok_ext4_volume:
  assumes "scan_ok st" and "scan_ext4_volume env v st = Some st'"
  shows "scan_ok st'"
proof -
  let ?n = "length (us_vols st)"
  obtain cc w cc' v' where r: "ext4_readdir env ''/'' (ext4_scan_cb env ?n ''/'') ((us_cfg st, us_ctx st), v) = Some (cc, w)"
      "ext4_readdir env ''/boot'' (ext4_scan_cb env ?n ''/boot'') (cc, w) = Some (cc', v')"
      "st' = st\<lparr> us_cfg := fst cc', us_ctx := snd cc', us_vols := us_vols st @ [v'] \<rparr>"
    using assms(2) by (auto simp: scan_ext4_volume_def Let_def bind_eq_Some_conv)
  have cb: "table_ok (Suc ?n) y" if "table_ok (Suc ?n) x" "ext4_scan_cb env ?n dir nm d (x, t) = Some (y, t')" for dir nm d x t y t'
    using table_ok_ext4_cb[OF that(1) _ that(2)] by simp
  have "table_ok (Suc ?n) (us_cfg st, us_ctx st)"
    using assms(1) table_ok_mono by (auto simp: scan_ok_def)
  then have "table_ok (Suc ?n) cc" using ext4_readdir_inv[where I = "table_ok (Suc ?n)", OF cb r(1)] by simp
  then have "table_ok (Suc ?n) cc'" using ext4_readdir_inv[where I = "table_ok (Suc ?n)", OF cb r(2)] by simp
  then show ?thesis using r(3) by (simp add: scan_ok_def)
qed

lemma scan_ok_ext4:
  assumes "scan_ok st" and "scan_all_ext4 env bio dio hs st = Some st'"
  shows "scan_ok st'"
proof -
  let ?g = "\<lambda>h st. do { vol \<leftarrow> ext4_mount env h (bio h) (dio h);
    case vol of None \<Rightarrow> Some st | Some v \<Rightarrow> scan_ext4_volume env v st }"
  have "scan_ok s'" if "scan_ok s" "?g x s = Some s'" for x s s'
    using that scan_ok_ext4_volume by (auto split: bind_splits option.splits)
  then show ?thesis
    using assms fold_opt_keeps[of _ scan_ok ?g st st'] by (fastforce simp: scan_all_ext4_def split: option.splits)
qed
section \<open>Properties\<close>

lemma initrd_candidates_fault:
  "initrd_candidates name = None \<longleftrightarrow> take 8 name = ''vmlinuz-'' \<and> 65 \<le> length name"
  by (auto simp: initrd_candidates_def kernel_suffix_def Let_def)

text \<open>
  C38. The directory scan leaves its buffers for exactly one kind of file: a Linux kernel, outside the
  directory of unified images, whose name is \<^verbatim>\<open>vmlinuz-\<close> followed by 57 or more characters, because the
  name of the fallback initrd no longer fits into 80 bytes.  For every other name it returns.
\<close>

theorem scan_file_overflow:
  "scan_file_uefi root sfs dir allow_efi name st = None \<longleftrightarrow>
     config_guess_type name = OS_TYPE_LINUX \<and> \<not> allow_efi \<and> take 8 name = ''vmlinuz-'' \<and> 65 \<le> length name"
  by (auto simp: scan_file_uefi_def Let_def initrd_candidates_fault bind_eq_None_conv)

text \<open>
  A Linux kernel whose name has no \<^verbatim>\<open>vmlinuz-\<close> prefix is entered without an initrd, whatever the
  volume holds: the candidate list then starts with a null pointer, which ends the search before the
  standard names.
\<close>

theorem plain_kernel_no_initrd:
  assumes "config_guess_type name = OS_TYPE_LINUX" and "take 8 name \<noteq> ''vmlinuz-''"
  shows "scan_file_uefi root sfs dir False name st =
    Some (add_entry (FS_FAT (Some root) sfs) id (config_make_name dir name OS_TYPE_LINUX 256) OS_TYPE_LINUX
            (efi_path_join dir name 256) None st)"
  using assms by (simp add: scan_file_uefi_def initrd_candidates_def kernel_suffix_def Let_def nz_def)

lemma guess_bzImage: "config_guess_type ''bzImage'' = OS_TYPE_LINUX" by code_simp

definition empty_state :: uefi_state where
  "empty_state = \<lparr> us_cfg = empty_config, us_ctx = replicate MAX_ENTRIES None, us_vols = [] \<rparr>"

theorem plain_kernel_no_initrd_witness:
  "scan_file_uefi (\<lambda>_. None) (Some 1) ''/boot'' False ''bzImage'' empty_state =
    Some (add_entry (FS_FAT (Some (\<lambda>_. None)) (Some 1)) id (config_make_name ''/boot'' ''bzImage'' OS_TYPE_LINUX 256)
            OS_TYPE_LINUX (efi_path_join ''/boot'' ''bzImage'' 256) None empty_state)"
  by (rule plain_kernel_no_initrd) (simp_all add: guess_bzImage)

end
