(* ===== verification/Uefi_Boot.thy ===== *)
theory Uefi_Boot
  imports Uefi_Scan
begin

text \<open>
  The firmware side of a boot in \<^verbatim>\<open>src/uefi/uefi_loader.c\<close>: identification of the boot volume, the
  frame buffer and ACPI pointer for the kernel, the memory map, image loading through a device path,
  and the UEFI Shell launcher.  The answers of the firmware are parameters; a handle is a number and
  \<open>None\<close> at an outer level is an access outside a buffer or a loop that does not end.  Messages on the
  console are left out.
\<close>

section \<open>Status codes\<close>

definition EFI_ERR :: "u64 \<Rightarrow> u64" where "EFI_ERR x = 0x8000000000000000 OR x"
definition EFI_SUCCESS :: u64 where "EFI_SUCCESS = 0"
definition EFI_LOAD_ERROR :: u64 where "EFI_LOAD_ERROR = EFI_ERR 1"
definition EFI_OUT_OF_RESOURCES :: u64 where "EFI_OUT_OF_RESOURCES = EFI_ERR 9"
definition EFI_NOT_FOUND :: u64 where "EFI_NOT_FOUND = EFI_ERR 14"
definition EFI_ACCESS_DENIED :: u64 where "EFI_ACCESS_DENIED = EFI_ERR 15"
definition EFI_ERROR :: "u64 \<Rightarrow> bool" where "EFI_ERROR s \<longleftrightarrow> sint s < 0"

lemmas efi_codes = EFI_ERR_def EFI_SUCCESS_def EFI_LOAD_ERROR_def EFI_OUT_OF_RESOURCES_def EFI_NOT_FOUND_def
  EFI_ACCESS_DENIED_def

section \<open>Controllers and debug output\<close>

datatype ctrl_call = ConnectController nat | DisconnectController nat

text \<open>The calls made for the handles that were located.\<close>

definition connect_all_controllers :: "nat list option \<Rightarrow> ctrl_call list" where
  "connect_all_controllers handles = (case handles of None \<Rightarrow> [] | Some hs \<Rightarrow> map ConnectController hs)"

definition detach_serial_console :: "nat list option \<Rightarrow> ctrl_call list" where
  "detach_serial_console handles = (case handles of None \<Rightarrow> [] | Some hs \<Rightarrow> map DisconnectController hs)"

definition gop_debug :: "bool \<Rightarrow> string \<Rightarrow> serial_out list" where
  "gop_debug x86 s = (if x86 then map (\<lambda>c. Outb 0x3F8 (byte_of c)) (cstr s) else [])"

section \<open>The boot volume\<close>

text \<open>\<open>sfs h\<close>: the file system protocol of a handle, and what opening its volume gives.\<close>

type_synonym sfs_proto = "nat \<Rightarrow> efi_root option option"

definition open_volume :: "sfs_proto \<Rightarrow> nat \<Rightarrow> efi_root option" where
  "open_volume sfs h = (case sfs h of None \<Rightarrow> None | Some root \<Rightarrow> root)"

definition sfs_has_file :: "sfs_proto \<Rightarrow> nat \<Rightarrow> string \<Rightarrow> bool" where
  "sfs_has_file sfs h ascii_path =
     (case open_volume sfs h of
        None \<Rightarrow> False
      | Some vol \<Rightarrow> vol (ascii_to_ucs2_path ascii_path 256) \<noteq> None)"

definition OUR_FILE :: string where "OUR_FILE = ''/EFI/BOOT/BOOTX64.EFI''"
definition OUR_CONFIG :: string where "OUR_CONFIG = ''/sakuru.cfg''"

text \<open>The three passes over the handles.\<close>

definition best_handle :: "sfs_proto \<Rightarrow> nat list \<Rightarrow> nat option" where
  "best_handle sfs handles =
     (case List.find (\<lambda>h. sfs_has_file sfs h OUR_FILE) handles of
        Some h \<Rightarrow> Some h
      | None \<Rightarrow>
          (case List.find (\<lambda>h. sfs_has_file sfs h OUR_CONFIG) handles of
             Some h \<Rightarrow> Some h
           | None \<Rightarrow> List.find (\<lambda>h. sfs h \<noteq> None) handles))"

text \<open>\<open>li_device\<close>: the device handle of the loaded image.  The result is the root and its handle.\<close>

definition find_boot_volume :: "sfs_proto \<Rightarrow> nat option \<Rightarrow> nat list option \<Rightarrow> (efi_root \<times> nat) option" where
  "find_boot_volume sfs li_device handles =
     (case Option.bind li_device (\<lambda>d. map_option (\<lambda>root. (root, d)) (open_volume sfs d)) of
        Some r \<Rightarrow> Some r
      | None \<Rightarrow>
          (case handles of
             None \<Rightarrow> None
           | Some hs \<Rightarrow>
               Option.bind (best_handle sfs hs) (\<lambda>best. map_option (\<lambda>root. (root, best)) (open_volume sfs best))))"

text \<open>
  The wait for the volume at the start of \<^verbatim>\<open>uefi_main\<close>: the number of half-second stalls, given the
  handles located by each attempt.
\<close>

definition poll_found :: "sfs_proto \<Rightarrow> nat list option \<Rightarrow> bool" where
  "poll_found sfs hs =
     (case hs of
        None \<Rightarrow> False
      | Some hs \<Rightarrow> list_ex (\<lambda>h. sfs_has_file sfs h OUR_FILE \<or> sfs_has_file sfs h OUR_CONFIG) hs)"

definition wait_boot_volume :: "sfs_proto \<Rightarrow> (nat \<Rightarrow> nat list option) \<Rightarrow> nat" where
  "wait_boot_volume sfs polls = length (takeWhile (\<lambda>i. \<not> poll_found sfs (polls i)) [0..<20])"

section \<open>Frame buffer\<close>

abbreviation (input) PixelBitMask :: u32 where "PixelBitMask \<equiv> 2"
abbreviation (input) PixelBltOnly :: u32 where "PixelBltOnly \<equiv> 3"

record gop_info =
  HorizontalResolution :: u32
  VerticalResolution :: u32
  PixelFormat :: u32
  PixelsPerScanLine :: u32

record gop_mode =
  MaxMode :: u32
  ModeInfo :: gop_info
  FrameBufferBase :: u64

text \<open>\<open>gp_query\<close>: the answer of \<^verbatim>\<open>QueryMode\<close>; \<open>gp_set\<close>: the mode that is current after \<^verbatim>\<open>SetMode\<close>.\<close>

record gop =
  gp_mode :: "gop_mode option"
  gp_query :: "u32 \<Rightarrow> gop_info option"
  gp_set :: "u32 \<Rightarrow> gop_mode"

definition fb_usable :: "gop_mode \<Rightarrow> bool" where
  "fb_usable md \<longleftrightarrow> FrameBufferBase md AND 0xFFF = 0 \<and> FrameBufferBase md \<ge> 0x100000"

fun pick_mode :: "(u32 \<Rightarrow> gop_info option) \<Rightarrow> u32 list \<Rightarrow> u32 \<Rightarrow> u32 \<Rightarrow> u32" where
  "pick_mode query [] best_m best_w = best_m"
| "pick_mode query (m # ms) best_m best_w =
     (case query m of
        None \<Rightarrow> pick_mode query ms best_m best_w
      | Some mi \<Rightarrow>
          if PixelFormat mi = PixelBltOnly then pick_mode query ms best_m best_w
          else if HorizontalResolution mi = 1920 \<and> VerticalResolution mi = 1080 \<and> PixelFormat mi \<noteq> PixelBitMask then m
          else if HorizontalResolution mi > best_w then pick_mode query ms m (HorizontalResolution mi)
          else pick_mode query ms best_m best_w)"

definition choose_mode :: "gop \<Rightarrow> gop_mode \<Rightarrow> u32" where
  "choose_mode g md = pick_mode (gp_query g) (map of_nat [0..<unat (MaxMode md)]) (MaxMode md) 0"

text \<open>The loop over the handles: the current mode of \<^verbatim>\<open>best_gop\<close>.\<close>

fun gop_scan :: "gop option list \<Rightarrow> gop_mode option \<Rightarrow> gop_mode option" where
  "gop_scan [] best = best"
| "gop_scan (h # hs) best =
     (case h of
        None \<Rightarrow> gop_scan hs best
      | Some g \<Rightarrow>
          (case gp_mode g of
             None \<Rightarrow> gop_scan hs best
           | Some md \<Rightarrow>
               if fb_usable md \<and> PixelFormat (ModeInfo md) \<noteq> PixelBltOnly then Some md
               else
                 let best_m = choose_mode g md;
                     md' = (if best_m < MaxMode md then gp_set g best_m else md)
                 in if best_m < MaxMode md \<and> fb_usable md' then Some md'
                    else gop_scan hs (if best = None then Some md' else best)))"

definition gather_gop :: "gop option list option \<Rightarrow> BootInfo \<Rightarrow> BootInfo" where
  "gather_gop handles info =
     (case gop_scan (case handles of None \<Rightarrow> [] | Some hs \<Rightarrow> hs) None of
        None \<Rightarrow> info
      | Some md \<Rightarrow>
          if \<not> fb_usable md then info
          else info\<lparr> fb_addr := FrameBufferBase md,
                     fb_width := HorizontalResolution (ModeInfo md),
                     fb_height := VerticalResolution (ModeInfo md),
                     fb_pitch := PixelsPerScanLine (ModeInfo md) * 4,
                     fb_bpp := 32,
                     fb_pixel_format := PixelFormat (ModeInfo md) \<rparr>)"

section \<open>ACPI and the memory map\<close>

type_synonym guid3 = "u32 \<times> u16 \<times> u16"

definition ACPI_20_TABLE_GUID :: guid3 where "ACPI_20_TABLE_GUID = (0x8868e871, 0xe4f1, 0x11d3)"

text \<open>Only the first three fields of a vendor GUID are compared.\<close>

definition gather_rsdp :: "(guid3 \<times> u64) list \<Rightarrow> BootInfo \<Rightarrow> BootInfo" where
  "gather_rsdp tables info =
     (case List.find (\<lambda>(g, _). g = ACPI_20_TABLE_GUID) tables of
        None \<Rightarrow> info
      | Some (_, table) \<Rightarrow> info\<lparr> rsdp := table \<rparr>)"

record mem_map =
  mm_status :: u64
  mm_size :: u64
  mm_key :: u64
  mm_desc_size :: u64
  mm_desc_ver :: u32

text \<open>
  \<open>get_map n\<close>: the answer of \<^verbatim>\<open>GetMemoryMap\<close> for a buffer of \<open>n\<close> bytes; \<open>alloc\<close>: status and address
  of \<^verbatim>\<open>AllocatePool\<close>.
\<close>

definition exit_boot_services ::
    "(u64 \<Rightarrow> mem_map) \<Rightarrow> (u64 \<Rightarrow> u64 \<times> u64) \<Rightarrow> (u64 \<Rightarrow> u64) \<Rightarrow> BootInfo \<Rightarrow> u64 \<times> BootInfo" where
  "exit_boot_services get_map alloc exit_bs info =
     (let m0 = get_map 0;
          mmap_size = mm_size m0 + 2 * mm_desc_size m0;
          (s, mmap) = alloc mmap_size
      in if EFI_ERROR s then (s, info)
         else
           let m1 = get_map mmap_size
           in if EFI_ERROR (mm_status m1) then (mm_status m1, info)
              else (exit_bs (mm_key m1),
                    info\<lparr> mem_map_addr := mmap, mem_map_size := mm_size m1,
                          mem_map_entry_size := mm_desc_size m1, mem_map_version := mm_desc_ver m1 \<rparr>))"

section \<open>Loading an image\<close>

text \<open>
  \<^verbatim>\<open>LoadImage\<close> with the boot policy, the bytes of the device path and the buffer: its status, and the
  handle when it stores one.
\<close>

type_synonym load_image = "bool \<Rightarrow> u8 list option \<Rightarrow> u8 list \<Rightarrow> u64 \<times> nat option"

definition stored :: "nat option \<Rightarrow> nat option \<Rightarrow> nat option" where
  "stored out h = (if h = None then out else h)"

fun try_loads :: "load_image \<Rightarrow> u8 list \<Rightarrow> (bool \<times> u8 list option) list \<Rightarrow> u64 \<Rightarrow> nat option \<Rightarrow> u64 \<times> nat option" where
  "try_loads load buf [] st out = (st, out)"
| "try_loads load buf ((policy, dp) # as) st out =
     (if EFI_ERROR st then
        let (st, h) = load policy dp buf in try_loads load buf as st (stored out h)
      else (st, out))"

definition is_pe :: "u8 list \<Rightarrow> bool" where
  "is_pe buf \<longleftrightarrow> 2 \<le> length buf \<and> buf ! 0 = 0x4D \<and> buf ! 1 = 0x5A"

definition try_load_image :: "load_image \<Rightarrow> u8 list \<Rightarrow> nat option \<Rightarrow> u64 \<times> nat option" where
  "try_load_image load buf out =
     (if \<not> is_pe buf then (EFI_NOT_FOUND, out)
      else try_loads load buf [(True, None), (False, None)] EFI_NOT_FOUND out)"

definition EFI_DP_END_TYPE :: u8 where "EFI_DP_END_TYPE = 0x7F"
definition EFI_DP_END_SUBTYPE :: u8 where "EFI_DP_END_SUBTYPE = 0xFF"
definition EFI_DP_MEDIA_TYPE :: u8 where "EFI_DP_MEDIA_TYPE = 0x04"
definition EFI_DP_FILEPATH_SUBTYPE :: u8 where "EFI_DP_FILEPATH_SUBTYPE = 0x04"

lemmas dp_types = EFI_DP_END_TYPE_def EFI_DP_END_SUBTYPE_def EFI_DP_MEDIA_TYPE_def EFI_DP_FILEPATH_SUBTYPE_def

text \<open>The length of a device path up to its end node; \<open>p\<close> is the memory from the current node on.\<close>

partial_function (option) dp_walk :: "u8 list \<Rightarrow> nat \<Rightarrow> nat option" where
  "dp_walk p hdp_len =
     (if length p < 4 then None
      else if p ! 0 = EFI_DP_END_TYPE \<and> p ! 1 = EFI_DP_END_SUBTYPE then Some hdp_len
      else let sz = unat (u16_of_le (drop 2 p))
           in dp_walk (drop sz p) (hdp_len + sz))"

definition ucs2_bytes :: "u16 list \<Rightarrow> u8 list" where
  "ucs2_bytes ws = concat (map (\<lambda>w. [ucast w, ucast (drop_bit 8 w)]) ws)"

text \<open>The path of the handle, a file path node, an end node.\<close>

definition build_dp :: "u8 list option \<Rightarrow> string \<Rightarrow> u8 list option" where
  "build_dp hdp ascii_path = do {
     let wpath = ascii_to_ucs2_path ascii_path 256;
     let wpath_bytes = length wpath * 2;
     hdp_len \<leftarrow> (case hdp of None \<Rightarrow> Some 0 | Some p \<Rightarrow> dp_walk p 0);
     let fp_node_size = 4 + wpath_bytes;
     Some (take hdp_len (case hdp of None \<Rightarrow> [] | Some p \<Rightarrow> p)
       @ [EFI_DP_MEDIA_TYPE, EFI_DP_FILEPATH_SUBTYPE, of_nat fp_node_size, of_nat (fp_node_size div 256)]
       @ ucs2_bytes wpath
       @ [EFI_DP_END_TYPE, EFI_DP_END_SUBTYPE, 4, 0]) }"
text \<open>
  Reading a file for \<^verbatim>\<open>LoadImage\<close>: \<open>fresh n\<close> is the contents of a pool buffer of \<open>n\<close> bytes, which
  a short read leaves behind its data.  The result is the buffer and the number of bytes read.
\<close>

definition read_image ::
    "(u64 \<Rightarrow> u8 list option) \<Rightarrow> efi_file \<Rightarrow> (u8 list \<times> nat) option option" where
  "read_image fresh f =
     (case ef_info f 256 of
        None \<Rightarrow> Some None
      | Some fsz \<Rightarrow>
          if fsz = 0 then Some None
          else (case fresh fsz of
                  None \<Rightarrow> Some None
                | Some buf \<Rightarrow>
                    (case ef_read f fsz of
                       None \<Rightarrow> Some None
                     | Some bs \<Rightarrow> if length bs \<le> length buf then Some (Some (write_at buf 0 bs, length bs)) else None)))"

text \<open>\<open>dp h\<close>: the device path of a handle; \<open>dp_alloc\<close>: whether the buffer for the new path is granted.\<close>

record image_env =
  im_sfs :: sfs_proto
  im_fresh :: "u64 \<Rightarrow> u8 list option"
  im_dp :: "nat \<Rightarrow> u8 list option"
  im_dp_alloc :: "nat \<Rightarrow> bool"
  im_load :: load_image

definition load_image_from_volume ::
    "image_env \<Rightarrow> nat \<Rightarrow> string \<Rightarrow> nat option \<Rightarrow> (u64 \<times> nat option) option" where
  "load_image_from_volume ie sfs_handle ascii_path out = do {
     file_buf \<leftarrow>
       (case open_volume (im_sfs ie) sfs_handle of
          None \<Rightarrow> Some None
        | Some root \<Rightarrow>
            (case root (ascii_to_ucs2_path ascii_path 256) of
               None \<Rightarrow> Some None
             | Some fh \<Rightarrow> map_option (map_option fst) (read_image (im_fresh ie) fh)));
     case file_buf of
       None \<Rightarrow> Some (EFI_NOT_FOUND, out)
     | Some file_buf \<Rightarrow>
         if \<not> is_pe file_buf then Some (EFI_NOT_FOUND, out)
         else do {
           dp_buf \<leftarrow> build_dp (im_dp ie sfs_handle) ascii_path;
           Some (if \<not> im_dp_alloc ie (length dp_buf) then (EFI_OUT_OF_RESOURCES, out)
                 else try_loads (im_load ie) file_buf
                        [(True, Some dp_buf), (False, Some dp_buf), (False, None)] EFI_OUT_OF_RESOURCES out) } }"

section \<open>The UEFI Shell\<close>

definition is_hex16 :: "u16 \<Rightarrow> bool" where
  "is_hex16 c \<longleftrightarrow> (48 \<le> c \<and> c \<le> 57) \<or> (65 \<le> c \<and> c \<le> 70) \<or> (97 \<le> c \<and> c \<le> 102)"

definition hex16_val :: "u16 \<Rightarrow> u16" where
  "hex16_val c = (if 48 \<le> c \<and> c \<le> 57 then c - 48 else if 65 \<le> c \<and> c \<le> 70 then c - 65 + 10 else c - 97 + 10)"

definition boot_name :: "u16 list \<Rightarrow> bool" where
  "boot_name vname \<longleftrightarrow> take 4 vname = map wide ''Boot'' \<and> vname ! 8 = 0 \<and> list_all is_hex16 (slice vname 4 4)"

definition boot_number :: "u16 list \<Rightarrow> u16" where
  "boot_number vname = fold (\<lambda>c num. push_bit 4 num OR hex16_val c) (slice vname 4 4) 0"

text \<open>The comparison of the description with \<open>Shell\<close>, which stops at the first difference.\<close>

fun prefix_at :: "u16 list \<Rightarrow> u16 list \<Rightarrow> bool option" where
  "prefix_at desc [] = Some True"
| "prefix_at [] (p # ps) = None"
| "prefix_at (d # desc) (p # ps) = (if d = p then prefix_at desc ps else Some False)"

fun names_shell :: "u16 list \<Rightarrow> bool option" where
  "names_shell [] = None"
| "names_shell (d # desc) =
     (if d = 0 then Some False
      else do { b \<leftarrow> prefix_at (d # desc) (map wide ''Shell''); if b then Some True else names_shell desc })"

text \<open>The little-endian units of the part of \<^verbatim>\<open>opt\<close> behind the attributes and the path length.\<close>

fun le_units :: "u8 list \<Rightarrow> u16 list" where
  "le_units (a # b # bs) = u16_of_le [a, b] # le_units bs"
| "le_units bs = []"

type_synonym boot_vars = "(u16 list \<times> guid3) list"

definition global_guid :: guid3 where "global_guid = (0x8be4df61, 0x93ca, 0x11d2)"

text \<open>
  The enumeration of the variables: the name buffer and GUID after each call of
  \<^verbatim>\<open>GetNextVariableName\<close>, until it fails.  \<open>get_opt\<close> gives the size and the 512 bytes of \<^verbatim>\<open>opt\<close>.
\<close>

fun find_shell_option :: "(u16 list \<Rightarrow> (nat \<times> u8 list) option) \<Rightarrow> boot_vars \<Rightarrow> u16 option" where
  "find_shell_option get_opt [] = Some 0xFFFF"
| "find_shell_option get_opt ((vname, vguid) # vars) =
     (if vguid \<noteq> global_guid \<or> \<not> boot_name vname then find_shell_option get_opt vars
      else (case get_opt vname of
              None \<Rightarrow> find_shell_option get_opt vars
            | Some (sz, opt) \<Rightarrow>
                if sz < 8 then find_shell_option get_opt vars
                else do {
                  b \<leftarrow> names_shell (le_units (drop 6 opt));
                  if b \<and> boot_number vname \<noteq> 0xFFFF then Some (boot_number vname)
                  else find_shell_option get_opt vars }))"

definition SHELL_PATHS :: "string list" where
  "SHELL_PATHS = [''/EFI/Shell/Shell.efi'', ''/EFI/BOOT/Shell.efi'', ''/shellx64.efi'']"

text \<open>One path on the boot volume itself.\<close>

definition shell_direct ::
    "image_env \<Rightarrow> efi_root \<Rightarrow> nat option \<Rightarrow> string \<Rightarrow> nat option \<Rightarrow> nat option option" where
  "shell_direct ie root boot_handle path shell =
     (case root (ascii_to_ucs2_path path 128) of
        None \<Rightarrow> Some shell
      | Some fh \<Rightarrow> do {
          r \<leftarrow> read_image (im_fresh ie) fh;
          case r of
            None \<Rightarrow> Some shell
          | Some (sbuf, rd) \<Rightarrow>
              if \<not> is_pe (take rd sbuf) then Some shell
              else do {
                (ls, shell) \<leftarrow>
                  (case boot_handle of
                     None \<Rightarrow> Some (EFI_NOT_FOUND, shell)
                   | Some h \<Rightarrow> load_image_from_volume ie h path shell);
                Some (snd (try_loads (im_load ie) (take rd sbuf) [(True, None), (False, None)] ls shell)) } })"

text \<open>The loops over paths and volumes end as soon as there is a handle.\<close>

fun until_some :: "('a \<Rightarrow> 'b option \<Rightarrow> 'b option option) \<Rightarrow> 'a list \<Rightarrow> 'b option \<Rightarrow> 'b option option" where
  "until_some f [] h = Some h"
| "until_some f (x # xs) h = (if h = None then do { h \<leftarrow> f x h; until_some f xs h } else Some h)"

datatype shell_result = ShellReturned u64 | ShellBootNext u16 | ShellStarted nat

record shell_env =
  sh_image :: image_env
  sh_sections :: "u8 list option list option"
  sh_vars :: boot_vars
  sh_opt :: "u16 list \<Rightarrow> (nat \<times> u8 list) option"
  sh_set_next :: "u8 list \<Rightarrow> u64"
  sh_sfs_handles :: "nat list option"

definition shell_from_fv :: "shell_env \<Rightarrow> nat option option" where
  "shell_from_fv se =
     until_some (\<lambda>sec shell. case sec of None \<Rightarrow> Some shell
         | Some buf \<Rightarrow> Some (snd (try_load_image (im_load (sh_image se)) buf shell)))
       (case sh_sections se of None \<Rightarrow> [] | Some ss \<Rightarrow> ss) None"

definition shell_from_files :: "shell_env \<Rightarrow> (efi_root \<times> nat option) option \<Rightarrow> nat option option" where
  "shell_from_files se root = do {
     let ie = sh_image se;
     shell \<leftarrow> (case root of
                 None \<Rightarrow> Some None
               | Some (root, boot_handle) \<Rightarrow> until_some (shell_direct ie root boot_handle) SHELL_PATHS None);
     if shell \<noteq> None then Some shell
     else until_some (\<lambda>h. until_some (\<lambda>path shell. map_option snd (load_image_from_volume ie h path shell)) SHELL_PATHS)
            (case sh_sfs_handles se of None \<Rightarrow> [] | Some hs \<Rightarrow> hs) None }"

text \<open>
  \<^verbatim>\<open>Exit\<close> and a successful \<^verbatim>\<open>StartImage\<close> do not come back, so the outcome is which of them is reached;
  the Shell itself is a parameter of the caller.
\<close>

definition launch_uefi_shell :: "shell_env \<Rightarrow> (efi_root \<times> nat option) option \<Rightarrow> shell_result option" where
  "launch_uefi_shell se root = do {
     shell \<leftarrow> shell_from_fv se;
     found \<leftarrow> (if shell = None then find_shell_option (sh_opt se) (sh_vars se) else Some 0xFFFF);
     if found \<noteq> 0xFFFF \<and> \<not> EFI_ERROR (sh_set_next se [ucast found, ucast (drop_bit 8 found)])
     then Some (ShellBootNext found)
     else do {
       shell \<leftarrow> (if shell = None then shell_from_files se root else Some shell);
       Some (case shell of None \<Rightarrow> ShellReturned EFI_NOT_FOUND | Some h \<Rightarrow> ShellStarted h) } }"

section \<open>Which volume is the boot volume\<close>

lemma find_in: "List.find P xs = Some x \<Longrightarrow> x \<in> set xs \<and> P x"
  by (auto simp: find_Some_iff)

lemma has_file_opens: "sfs_has_file sfs h p \<Longrightarrow> open_volume sfs h \<noteq> None"
  by (auto simp: sfs_has_file_def split: option.splits)

text \<open>
  The volume taken as the boot volume is open and is the one of the loaded image or one of the
  located handles; among these one with \<^verbatim>\<open>/EFI/BOOT/BOOTX64.EFI\<close> is never passed over for one without, nor,
  when there is none, one with \<^verbatim>\<open>/sakuru.cfg\<close>.  When some handle has either file, a volume is found.
\<close>

theorem boot_volume_choice:
  "(case find_boot_volume sfs li (Some hs) of
      None \<Rightarrow> \<forall>h\<in>set hs. \<not> sfs_has_file sfs h OUR_FILE \<and> \<not> sfs_has_file sfs h OUR_CONFIG
    | Some (root, h) \<Rightarrow> open_volume sfs h = Some root \<and>
        (li = Some h \<or> h \<in> set hs \<and>
          (sfs_has_file sfs h OUR_FILE \<or> (\<forall>k\<in>set hs. \<not> sfs_has_file sfs k OUR_FILE) \<and>
          (sfs_has_file sfs h OUR_CONFIG \<or> (\<forall>k\<in>set hs. \<not> sfs_has_file sfs k OUR_CONFIG)))))"
proof (cases "Option.bind li (\<lambda>d. map_option (\<lambda>root. (root, d)) (open_volume sfs d))")
  case None
  have best: "case best_handle sfs hs of
      None \<Rightarrow> \<forall>h\<in>set hs. \<not> sfs_has_file sfs h OUR_FILE \<and> \<not> sfs_has_file sfs h OUR_CONFIG
    | Some h \<Rightarrow> h \<in> set hs \<and> (sfs_has_file sfs h OUR_FILE \<or> (\<forall>k\<in>set hs. \<not> sfs_has_file sfs k OUR_FILE) \<and>
        (sfs_has_file sfs h OUR_CONFIG \<or> (\<forall>k\<in>set hs. \<not> sfs_has_file sfs k OUR_CONFIG)))"
    by (auto simp: best_handle_def find_None_iff dest!: find_in split: option.splits)
  then show ?thesis
    using None has_file_opens[of sfs] by (fastforce simp: find_boot_volume_def split: option.splits)
qed (auto simp: find_boot_volume_def bind_eq_Some_conv)

definition two_volumes :: sfs_proto where
  "two_volumes h = (if h = 1 then Some None else Some (Some (\<lambda>p. if p = ascii_to_ucs2_path OUR_CONFIG 256
     then Some \<lparr> ef_info = (\<lambda>_. None), ef_read = (\<lambda>_. None), ef_dir = (\<lambda>_. []) \<rparr> else None)))"

theorem boot_volume_choice_witness:
  "\<exists>root. find_boot_volume two_volumes (Some 1) (Some [1, 2]) = Some (root, 2)"
  using boot_volume_choice[where sfs = two_volumes and li = "Some 1" and hs = "[1, 2]"]
  by (auto simp: two_volumes_def sfs_has_file_def open_volume_def split: option.splits)

text \<open>
  The last resort takes the first handle that has the protocol, not the first that opens: when that
  one fails to open there is no boot volume, whatever the later handles hold.
\<close>

theorem last_resort_not_opened:
  assumes "\<forall>k\<in>set (h # hs). \<not> sfs_has_file sfs k OUR_FILE \<and> \<not> sfs_has_file sfs k OUR_CONFIG"
    and "sfs h = Some None"
  shows "find_boot_volume sfs None (Some (h # hs)) = None"
proof -
  have "best_handle sfs (h # hs) = Some h"
    using assms by (auto simp: best_handle_def find_None_iff dest!: find_in split: option.splits)
  then show ?thesis using assms(2) by (simp add: find_boot_volume_def open_volume_def)
qed

section \<open>The frame buffer handed to the kernel\<close>

definition mode_width :: "(u32 \<Rightarrow> gop_info option) \<Rightarrow> u32 \<Rightarrow> u32" where
  "mode_width q m = (case q m of None \<Rightarrow> 0
     | Some mi \<Rightarrow> if PixelFormat mi = PixelBltOnly then 0 else HorizontalResolution mi)"

definition full_hd :: "(u32 \<Rightarrow> gop_info option) \<Rightarrow> u32 \<Rightarrow> bool" where
  "full_hd q m = (case q m of None \<Rightarrow> False
     | Some mi \<Rightarrow> HorizontalResolution mi = 1920 \<and> VerticalResolution mi = 1080 \<and>
         PixelFormat mi \<notin> {PixelBitMask, PixelBltOnly})"

lemma pick_mode_best:
  "pick_mode q ms d w = m \<Longrightarrow>
     (m \<in> set ms \<and> full_hd q m) \<or>
     (\<forall>k\<in>set ms. \<not> full_hd q k \<and> mode_width q k \<le> w) \<and> m = d \<or>
     (m \<in> set ms \<and> mode_width q m > w \<and> (\<forall>k\<in>set ms. \<not> full_hd q k \<and> mode_width q k \<le> mode_width q m))"
proof (induction q ms d w rule: pick_mode.induct)
  case (2 q k ms d w)
  show ?case
  proof (cases "q k")
    case None
    then show ?thesis using 2 by (auto simp: full_hd_def mode_width_def)
  next
    case (Some mi)
    consider (blt) "PixelFormat mi = PixelBltOnly" | (hd) "full_hd q k"
      | (wide) "\<not> full_hd q k" "PixelFormat mi \<noteq> PixelBltOnly" "HorizontalResolution mi > w"
      | (small) "\<not> full_hd q k" "PixelFormat mi \<noteq> PixelBltOnly" "\<not> HorizontalResolution mi > w" by blast
    then show ?thesis
    proof cases
      case wide
      then have "pick_mode q ms k (HorizontalResolution mi) = m" using 2(5) Some by (auto simp: full_hd_def)
      from 2(3)[OF Some wide(2) _ wide(3) this] show ?thesis
        using wide Some by (auto simp: full_hd_def mode_width_def)
    qed (use 2 Some in \<open>auto simp: full_hd_def mode_width_def\<close>)
  qed
qed simp

lemma choose_mode_best:
  assumes "m < MaxMode md" and "mode_width (gp_query g) m > 0"
  defines "b \<equiv> choose_mode g md"
  shows "b < MaxMode md" "mode_width (gp_query g) b > 0"
    "full_hd (gp_query g) b \<or> (\<forall>k<MaxMode md. mode_width (gp_query g) k \<le> mode_width (gp_query g) b)"
proof -
  define ms :: "u32 list" where "ms = map of_nat [0..<unat (MaxMode md)]"
  have ms: "k \<in> set ms \<longleftrightarrow> k < MaxMode md" for k
  proof
    assume "k \<in> set ms"
    then obtain n where "k = of_nat n" "n < unat (MaxMode md)" by (auto simp: ms_def)
    then show "k < MaxMode md" by (simp add: word_less_nat_alt unat_of_nat le_less_trans[OF mod_less_eq_dividend])
  next
    assume "k < MaxMode md"
    then show "k \<in> set ms" by (auto simp: ms_def word_less_nat_alt image_iff intro!: bexI[of _ "unat k"])
  qed
  have w0: "0 < mode_width (gp_query g) k" if "full_hd (gp_query g) k" for k
    using that by (auto simp: full_hd_def mode_width_def split: option.splits)
  have "\<not> mode_width (gp_query g) m \<le> 0" using assms(2) by (simp add: not_le)
  moreover have "pick_mode (gp_query g) ms (MaxMode md) 0 = b" by (simp add: b_def choose_mode_def ms_def)
  ultimately show "b < MaxMode md" "mode_width (gp_query g) b > 0"
    "full_hd (gp_query g) b \<or> (\<forall>k<MaxMode md. mode_width (gp_query g) k \<le> mode_width (gp_query g) b)"
    using assms(1) pick_mode_best[of "gp_query g" ms "MaxMode md" 0 b] w0 unfolding ms[symmetric] by blast+
qed

text \<open>
  A display whose current mode has no linear frame buffer is switched: if some mode is not
  \<^verbatim>\<open>PixelBltOnly\<close> and the firmware then provides the mode it was asked for with a usable frame buffer, the
  kernel is given a page-aligned frame buffer above 1 MB in a linear format, in 1920 by 1080 or in the
  greatest width any such mode has.
\<close>

theorem gop_best_mode:
  fixes info :: BootInfo
  assumes "gp_mode g = Some md" and "\<not> fb_usable md \<or> PixelFormat (ModeInfo md) = PixelBltOnly"
    and "m < MaxMode md" and "mode_width (gp_query g) m > 0"
    and "\<And>k mi. gp_query g k = Some mi \<Longrightarrow> ModeInfo (gp_set g k) = mi \<and> fb_usable (gp_set g k)"
  defines "info' \<equiv> gather_gop (Some [Some g]) info"
  shows "fb_addr info' AND 0xFFF = 0 \<and> fb_addr info' \<ge> 0x100000 \<and> fb_pixel_format info' \<noteq> PixelBltOnly \<and>
    (fb_width info' = 1920 \<and> fb_height info' = 1080 \<or>
     (\<forall>k<MaxMode md. mode_width (gp_query g) k \<le> fb_width info'))"
proof -
  let ?b = "choose_mode g md"
  note b = choose_mode_best[OF assms(3,4)]
  obtain mi where mi: "gp_query g ?b = Some mi" "PixelFormat mi \<noteq> PixelBltOnly"
      "mode_width (gp_query g) ?b = HorizontalResolution mi"
    using b(2) by (auto simp: mode_width_def split: option.splits if_splits)
  have u: "ModeInfo (gp_set g ?b) = mi" "fb_usable (gp_set g ?b)" using assms(5)[OF mi(1)] by auto
  have "gop_scan [Some g] None = Some (gp_set g ?b)"
    using assms(1,2) b(1) u(2) by (auto simp: Let_def)
  then have "info' = info\<lparr> fb_addr := FrameBufferBase (gp_set g ?b), fb_width := HorizontalResolution mi,
      fb_height := VerticalResolution mi, fb_pitch := PixelsPerScanLine mi * 4, fb_bpp := 32,
      fb_pixel_format := PixelFormat mi \<rparr>"
    using u by (simp add: info'_def gather_gop_def)
  then show ?thesis using u(2) mi b(3) by (auto simp: fb_usable_def full_hd_def)
qed

definition sample_info :: "u32 \<Rightarrow> gop_info" where
  "sample_info w = \<lparr> HorizontalResolution = w, VerticalResolution = 768, PixelFormat = 1, PixelsPerScanLine = w \<rparr>"

definition sample_gop :: gop where
  "sample_gop = \<lparr> gp_mode = Some \<lparr> MaxMode = 2, ModeInfo = (sample_info 0)\<lparr> PixelFormat := 3 \<rparr>, FrameBufferBase = 0 \<rparr>,
     gp_query = (\<lambda>m. Some (sample_info (800 + 224 * m))),
     gp_set = (\<lambda>m. \<lparr> MaxMode = 2, ModeInfo = sample_info (800 + 224 * m), FrameBufferBase = 0x80000000 \<rparr>) \<rparr>"

theorem gop_best_mode_witness:
  "fb_addr (gather_gop (Some [Some sample_gop]) zero_info) \<ge> 0x100000 \<and>
   (fb_width (gather_gop (Some [Some sample_gop]) zero_info) = 1920 \<or>
    1024 \<le> fb_width (gather_gop (Some [Some sample_gop]) zero_info))"
  using gop_best_mode[of sample_gop "the (gp_mode sample_gop)" 1 zero_info]
  by (auto simp: sample_gop_def sample_info_def mode_width_def fb_usable_def dest!: spec[of _ 1])

text \<open>
  A display that offers only \<^verbatim>\<open>PixelBltOnly\<close> modes is still reported as a frame buffer when its base
  register happens to look like one: the final test repeats the address check only.
\<close>

theorem gop_blt_only_reported:
  assumes "gp_mode g = Some md" and "fb_usable md" and "PixelFormat (ModeInfo md) = PixelBltOnly"
    and "\<And>m. mode_width (gp_query g) m = 0 \<and> \<not> full_hd (gp_query g) m"
  shows "fb_addr (gather_gop (Some [Some g]) info) = FrameBufferBase md \<and>
    fb_pixel_format (gather_gop (Some [Some g]) info) = PixelBltOnly"
proof -
  have "choose_mode g md = MaxMode md"
    using pick_mode_best[of "gp_query g" "map of_nat [0..<unat (MaxMode md)]" "MaxMode md" 0 "choose_mode g md"] assms(4)
    by (auto simp: choose_mode_def)
  then have "gop_scan [Some g] None = Some md" using assms(1-3) by (simp add: Let_def)
  then show ?thesis using assms(2,3) by (simp add: gather_gop_def)
qed

section \<open>Device paths\<close>

record dp_node =
  dn_type :: u8
  dn_subtype :: u8
  dn_data :: "u8 list"

definition node_bytes :: "dp_node \<Rightarrow> u8 list" where
  "node_bytes n = (let sz = 4 + length (dn_data n)
     in [dn_type n, dn_subtype n, of_nat sz, of_nat (sz div 256)] @ dn_data n)"

definition dp_end :: "u8 list" where
  "dp_end = [EFI_DP_END_TYPE, EFI_DP_END_SUBTYPE, 4, 0]"

definition dp_encode :: "dp_node list \<Rightarrow> u8 list" where
  "dp_encode ns = concat (map node_bytes ns) @ dp_end"

definition node_ok :: "dp_node \<Rightarrow> bool" where
  "node_ok n \<longleftrightarrow> \<not> (dn_type n = EFI_DP_END_TYPE \<and> dn_subtype n = EFI_DP_END_SUBTYPE) \<and> 4 + length (dn_data n) < 65536"

definition file_node :: "string \<Rightarrow> dp_node" where
  "file_node path = \<lparr> dn_type = EFI_DP_MEDIA_TYPE, dn_subtype = EFI_DP_FILEPATH_SUBTYPE,
     dn_data = ucs2_bytes (ascii_to_ucs2_path path 256) \<rparr>"

lemma u16_le_bytes:
  assumes "n < 65536"
  shows "unat (u16_of_le (of_nat n # of_nat (n div 256) # p)) = n"
proof -
  have "u16_of_le (of_nat n # of_nat (n div 256) # p) = (of_nat n :: u16)"
  proof (rule bit_word_eqI)
    fix i assume "i < LENGTH(16)"
    have "n div 256 = drop_bit 8 n" by (simp add: drop_bit_eq_div)
    then show "bit (u16_of_le (of_nat n # of_nat (n div 256) # p)) i = bit (of_nat n :: u16) i"
      using \<open>i < LENGTH(16)\<close> by (auto simp: u16_of_le_def bit_simps)
  qed
  then show ?thesis using assms by (simp add: unat_of_nat)
qed

lemma length_node_bytes: "length (node_bytes n) = 4 + length (dn_data n)"
  by (simp add: node_bytes_def Let_def)

lemma dp_walk_node:
  assumes "node_ok n"
  shows "dp_walk (node_bytes n @ p) k = dp_walk p (k + length (node_bytes n))"
proof -
  have "unat (u16_of_le (drop 2 (node_bytes n @ p))) = length (node_bytes n)"
    using assms u16_le_bytes[of "4 + length (dn_data n)"] by (simp add: node_bytes_def node_ok_def Let_def)
  moreover have "((node_bytes n @ p) ! 0 = EFI_DP_END_TYPE \<and> (node_bytes n @ p) ! 1 = EFI_DP_END_SUBTYPE) = False"
    "(length (node_bytes n @ p) < 4) = False"
    using assms by (auto simp: node_bytes_def node_ok_def Let_def)
  ultimately show ?thesis by (subst dp_walk.simps) (simp only: Let_def if_False drop_append, simp)
qed

lemma dp_walk_encode:
  "list_all node_ok ns \<Longrightarrow> dp_walk (dp_encode ns @ rest) k = Some (k + length (concat (map node_bytes ns)))"
proof (induction ns arbitrary: k)
  case Nil
  then show ?case by (subst dp_walk.simps) (simp add: dp_encode_def dp_end_def)
next
  case (Cons n ns)
  then show ?case using dp_walk_node[of n "dp_encode ns @ rest" k] by (simp add: dp_encode_def add.assoc)
qed

lemma length_ucs2_bytes [simp]: "length (ucs2_bytes ws) = 2 * length ws"
  by (induction ws) (simp_all add: ucs2_bytes_def)

text \<open>
  C28. The device path built for an image is the path of its volume with one file node appended: for
  every volume path that is a sequence of nodes other than the end node and shorter than 64 KB each, the
  walk to its end returns and the bytes produced are the encoding of those nodes, a media file path node
  with the converted path, and the end node.
\<close>

theorem device_path_of_file:
  assumes "list_all node_ok ns"
  shows "build_dp (Some (dp_encode ns @ rest)) path = Some (dp_encode (ns @ [file_node path]))"
  using dp_walk_encode[OF assms, of rest 0]
  by (simp add: build_dp_def Let_def dp_encode_def file_node_def node_bytes_def dp_end_def algebra_simps)

theorem device_path_of_file_witness:
  "build_dp (Some (dp_encode [\<lparr> dn_type = 2, dn_subtype = 1, dn_data = [0xD0, 0x41, 3, 0x0A, 0, 0, 0, 0] \<rparr>])) ''/shellx64.efi'' =
     Some (dp_encode [\<lparr> dn_type = 2, dn_subtype = 1, dn_data = [0xD0, 0x41, 3, 0x0A, 0, 0, 0, 0] \<rparr>, file_node ''/shellx64.efi''])"
  using device_path_of_file[of "[\<lparr> dn_type = 2, dn_subtype = 1, dn_data = [0xD0, 0x41, 3, 0x0A, 0, 0, 0, 0] \<rparr>]" "[]" "''/shellx64.efi''"]
  by (simp add: node_ok_def dp_types)

text \<open>A node of length 0 stops the walk from ending: it is visited again and again.\<close>

theorem device_path_zero_node_hangs:
  assumes "u16_of_le (drop 2 p) = 0" and "\<not> (p ! 0 = EFI_DP_END_TYPE \<and> p ! 1 = EFI_DP_END_SUBTYPE)"
  shows "dp_walk p k = None"
proof -
  have "q = p \<longrightarrow> False" if "dp_walk q j = Some r" for q j r
    using that by (rule dp_walk.raw_induct[rotated]) (use assms in \<open>auto simp: Let_def split: if_splits; blast\<close>)
  then show ?thesis by (cases "dp_walk p k") auto
qed

section \<open>Boot options\<close>

text \<open>The name of a boot option and its decoding.\<close>

definition boot_var :: "u16 \<Rightarrow> u16 list" where
  "boot_var n = map wide (''Boot'' @ map (\<lambda>i. hex_digit (unat (drop_bit i n AND 0xF))) [12, 8, 4, 0]) @ [0]"

lemma hex16_digit:
  assumes "d < 16"
  shows "is_hex16 (wide (hex_digit d)) \<and> hex16_val (wide (hex_digit d)) = of_nat d"
proof -
  have "list_all (\<lambda>d. is_hex16 (wide (hex_digit d)) \<and> hex16_val (wide (hex_digit d)) = of_nat d) [0..<16]"
    by code_simp
  then show ?thesis using assms by (auto simp: list_all_iff)
qed

lemma nibble_less: "unat (drop_bit i n AND 0xF) < (16 :: nat)" for n :: u16
proof -
  have "drop_bit i n AND 0xF \<le> 0xF" by (rule word_and_le1)
  then show ?thesis by (simp add: word_le_nat_alt)
qed

lemma boot_var_name: "boot_name (boot_var n @ rest)"
  using hex16_digit[OF nibble_less[of _ n]] hex16_digit[OF nibble_less[of 0 n]] by (simp add: boot_name_def boot_var_def slice_def)

lemma boot_var_number: "boot_number (boot_var n @ rest) = n"
proof -
  let ?d = "\<lambda>i. drop_bit i n AND 0xF"
  have "boot_number (boot_var n @ rest) =
      push_bit 4 (push_bit 4 (push_bit 4 (?d 12) OR ?d 8) OR ?d 4) OR ?d 0"
    using hex16_digit[OF nibble_less[of _ n]] hex16_digit[OF nibble_less[of 0 n]]
    by (simp add: boot_number_def boot_var_def slice_def)
  also have "\<dots> = n"
  proof (rule bit_word_eqI)
    fix k assume "k < LENGTH(16)"
    then have "k < 16" by simp
    then have "k \<in> {0, 1, 2, 3, 4, 5, 6, 7, 8, 9, 10, 11, 12, 13, 14, 15}"
      unfolding insert_iff empty_iff by presburger
    then show "bit (push_bit 4 (push_bit 4 (push_bit 4 (?d 12) OR ?d 8) OR ?d 4) OR ?d 0) k = bit n k"
      by (elim insertE) (simp_all add: bit_simps)
  qed
  finally show ?thesis .
qed

lemma prefix_at_some: "length ps \<le> length ds \<Longrightarrow> \<exists>b. prefix_at ds ps = Some b"
  by (induction ds ps rule: prefix_at.induct) auto

lemma names_shell_found: "0 \<notin> set pre \<Longrightarrow> names_shell (pre @ map wide ''Shell'' @ rest) = Some True"
proof (induction pre)
  case Nil
  then show ?case by (simp add: wide_def byte_of_def)
next
  case (Cons d pre)
  obtain b where "prefix_at ((d # pre) @ map wide ''Shell'' @ rest) (map wide ''Shell'') = Some b"
    using prefix_at_some[of "map wide ''Shell''" "(d # pre) @ map wide ''Shell'' @ rest"] by auto
  then show ?case using Cons by auto
qed

text \<open>
  The search for a firmware Shell returns the number of the first boot option that has one: when no
  earlier variable is a boot option of the global namespace and the option \<open>Boot####\<close> of number \<open>n\<close> other
  than \<open>0xFFFF\<close> has a description that contains \<^verbatim>\<open>Shell\<close>, the result is \<open>n\<close>, whatever follows.
\<close>

theorem shell_option_number:
  assumes "list_all (\<lambda>(v, g). g \<noteq> global_guid \<or> \<not> boot_name v) earlier" and "n \<noteq> 0xFFFF"
    and "get_opt (boot_var n @ junk) = Some (sz, opt)" and "8 \<le> sz"
    and "le_units (drop 6 opt) = pre @ map wide ''Shell'' @ rest" and "0 \<notin> set pre"
  shows "find_shell_option get_opt (earlier @ (boot_var n @ junk, global_guid) # later) = Some n"
  using assms(1)
proof (induction earlier)
  case Nil
  have "names_shell (pre @ map wide ''Shell'' @ rest) = Some True"
    using assms(6) by (rule names_shell_found)
  then show ?case
    using assms(2-5) boot_var_name[of n junk] boot_var_number[of n junk] by simp
qed (auto split: prod.splits)

definition shell_opt :: "u8 list" where
  "shell_opt = [1, 0, 0, 0, 4, 0] @ ucs2_bytes (map wide ''EFI Shell'' @ [0]) @ replicate 486 0"

lemma shell_opt_units: "le_units (drop 6 shell_opt) = map wide ''EFI '' @ map wide ''Shell'' @ 0 # replicate 243 0"
  by code_simp

theorem shell_option_number_witness:
  "find_shell_option (\<lambda>_. Some (30, shell_opt))
     ([(map wide ''Timeout'' @ [0, 0], global_guid)] @ (boot_var 0x1A @ [], global_guid) # []) = Some 0x1A"
  by (rule shell_option_number[OF _ _ refl _ shell_opt_units]) (simp_all add: boot_name_def wide_def byte_of_def)

end
