(* ===== verification/Nvram.thy ===== *)
theory Nvram
  imports Menu
begin

text \<open>
  The state kept in firmware variables: the last selection (\<^verbatim>\<open>src/common/efivar.c\<close>), the
  boot-attempt counters (\<^verbatim>\<open>src/common/bootcount.c\<close>) and the choice of the menu default
  built on them (\<^verbatim>\<open>efi_main_common\<close> of \<^verbatim>\<open>src/uefi/uefi_loader.c\<close>).

  The runtime services \<^verbatim>\<open>GetVariable\<close> and \<^verbatim>\<open>SetVariable\<close> are firmware: they are parameters
  \<open>get_var\<close> and \<open>set_var\<close> of the definitions, on an abstract firmware state.
  \<open>get_var s name size\<close> gives the status, the size and the bytes stored into a buffer
  of \<open>size\<close> bytes; \<open>set_var s name attr data\<close> gives the status and the new state.
  What the code relies on (UEFI specification, section 8.2) are the laws of the locale
  \<open>nvram\<close>.  Variable names are strings of the characters of the UCS-2 name; the vendor
  GUID is the same in every call.
\<close>

type_synonym 's get_var = "'s \<Rightarrow> string \<Rightarrow> nat \<Rightarrow> u64 \<times> nat \<times> u8 list"
type_synonym 's set_var = "'s \<Rightarrow> string \<Rightarrow> u32 \<Rightarrow> u8 list \<Rightarrow> u64 \<times> 's"

section \<open>Byte representation of a counter\<close>

definition u32_le_bytes :: "u32 \<Rightarrow> u8 list" where
  "u32_le_bytes v = [ucast v, ucast (drop_bit 8 v), ucast (drop_bit 16 v), ucast (drop_bit 24 v)]"

text \<open>A \<^verbatim>\<open>u32\<close> initialised to 0 into which the firmware stored the given bytes.\<close>

definition overlay_u32 :: "u8 list \<Rightarrow> u32" where
  "overlay_u32 bs = u32_of_le (take 4 (bs @ replicate 4 0))"

lemma length_u32_le_bytes [simp]: "length (u32_le_bytes v) = 4"
  by (simp add: u32_le_bytes_def)

lemma u32_le_roundtrip: "u32_of_le (u32_le_bytes v) = v"
proof (rule bit_word_eqI)
  fix n assume "n < LENGTH(32)"
  then consider "n < 8" | "8 \<le> n" "n < 16" | "16 \<le> n" "n < 24" | "24 \<le> n" "n < 32"
    by fastforce
  then show "bit (u32_of_le (u32_le_bytes v)) n = bit v n"
    by cases (auto simp: u32_of_le_def u32_le_bytes_def bit_or_iff bit_push_bit_iff
        bit_unsigned_iff bit_drop_bit_eq)
qed

lemma overlay_u32_le_bytes [simp]: "overlay_u32 (u32_le_bytes v) = v"
  by (simp add: overlay_u32_def u32_le_roundtrip)

section \<open>Last selection\<close>

definition LAST_ENTRY_VAR :: string where
  "LAST_ENTRY_VAR = ''SakuruLastEntry''"

definition SAKURU_VAR_ATTR :: u32 where
  "SAKURU_VAR_ATTR = 1 OR 2"

definition efivar_save_last_entry :: "'s set_var \<Rightarrow> 's \<Rightarrow> u32 \<Rightarrow> 's" where
  "efivar_save_last_entry set_var s index =
     snd (set_var s LAST_ENTRY_VAR SAKURU_VAR_ATTR (u32_le_bytes index))"

definition efivar_load_last_entry :: "'s get_var \<Rightarrow> 's \<Rightarrow> u32 option" where
  "efivar_load_last_entry get_var s =
     (let (status, data_size, bs) = get_var s LAST_ENTRY_VAR 4
      in if status \<noteq> 0 \<or> data_size \<noteq> 4 then None else Some (overlay_u32 bs))"

definition efivar_delete :: "'s set_var \<Rightarrow> 's \<Rightarrow> string \<Rightarrow> 's" where
  "efivar_delete set_var s name16 = snd (set_var s name16 0 [])"

section \<open>Boot counters\<close>

definition BOOTCOUNT_MAX :: u32 where "BOOTCOUNT_MAX = 3"

definition build_var_name :: "u32 \<Rightarrow> string" where
  "build_var_name index =
     ''SakuruBC''
     @ (if index \<ge> 10 then [char_of (48 + unat ((index div 10) mod 10))] else [])
     @ [char_of (48 + unat (index mod 10))]"

definition bootcount_get :: "'s get_var \<Rightarrow> 's \<Rightarrow> u32 \<Rightarrow> u32" where
  "bootcount_get get_var s entry_index =
     (let (status, _, bs) = get_var s (build_var_name entry_index) 4
      in if status \<noteq> 0 then 0 else overlay_u32 bs)"

definition bootcount_increment :: "'s get_var \<Rightarrow> 's set_var \<Rightarrow> 's \<Rightarrow> u32 \<Rightarrow> 's" where
  "bootcount_increment get_var set_var s entry_index =
     (let val = bootcount_get get_var s entry_index + 1
      in snd (set_var s (build_var_name entry_index) SAKURU_VAR_ATTR (u32_le_bytes val)))"

definition bootcount_clear :: "'s set_var \<Rightarrow> 's \<Rightarrow> u32 \<Rightarrow> 's" where
  "bootcount_clear set_var s entry_index =
     snd (set_var s (build_var_name entry_index) SAKURU_VAR_ATTR (u32_le_bytes 0))"

definition bootcount_should_fallback :: "'s get_var \<Rightarrow> 's \<Rightarrow> u32 \<Rightarrow> bool" where
  "bootcount_should_fallback get_var s entry_index =
     (bootcount_get get_var s entry_index \<ge> BOOTCOUNT_MAX)"

section \<open>Choosing and recording the entry to boot\<close>

text \<open>Restore the last selection and apply the failure limit, before the menu is shown.\<close>

definition choose_default :: "'s get_var \<Rightarrow> 's \<Rightarrow> BootConfig \<Rightarrow> BootConfig" where
  "choose_default get_var s config =
     (let config = (case efivar_load_last_entry get_var s of
            Some last_sel \<Rightarrow> if last_sel < bc_num_entries config
              then config\<lparr> bc_default_entry := last_sel \<rparr> else config
          | None \<Rightarrow> config)
      in if bootcount_should_fallback get_var s (bc_default_entry config) \<and> bc_num_entries config > 1
         then config\<lparr> bc_default_entry := 0 \<rparr> else config)"

text \<open>Menu, then the selection is saved and its attempt counted.\<close>

definition select_entry ::
    "'s get_var \<Rightarrow> 's set_var \<Rightarrow> MenuOps \<Rightarrow> int list \<Rightarrow> 's \<Rightarrow> BootConfig \<Rightarrow> (int \<times> 's) option" where
  "select_entry get_var set_var ops keys s config =
     (case snd (menu_run (choose_default get_var s config) ops keys) of
        None \<Rightarrow> None
      | Some sel \<Rightarrow>
          let s = efivar_save_last_entry set_var s (word_of_int sel)
          in Some (sel, bootcount_increment get_var set_var s (word_of_int sel)))"

section \<open>The firmware interface\<close>

locale nvram =
  fixes get_var :: "'s get_var" and set_var :: "'s set_var"
  assumes set_ok: "fst (set_var s nm attr d) = 0"
    and get_set: "d \<noteq> [] \<Longrightarrow> get_var (snd (set_var s nm attr d)) nm (length d) = (0, length d, d)"
    and get_other: "nm' \<noteq> nm \<Longrightarrow> get_var (snd (set_var s nm attr d)) nm' n = get_var s nm' n"
begin

lemma u32_le_nonempty: "u32_le_bytes v \<noteq> []"
  by (simp add: u32_le_bytes_def)

lemma get_set_u32:
  "get_var (snd (set_var s nm attr (u32_le_bytes v))) nm 4 = (0, 4, u32_le_bytes v)"
  using get_set[OF u32_le_nonempty[of v], of s nm attr] by simp

lemma load_save: "efivar_load_last_entry get_var (efivar_save_last_entry set_var s i) = Some i"
  by (simp add: efivar_load_last_entry_def efivar_save_last_entry_def get_set_u32)

lemma count_increment:
  "bootcount_get get_var (bootcount_increment get_var set_var s i) i = bootcount_get get_var s i + 1"
  by (simp add: bootcount_get_def bootcount_increment_def get_set_u32 Let_def)

lemma count_clear: "bootcount_get get_var (bootcount_clear set_var s i) i = 0"
  by (simp add: bootcount_get_def bootcount_clear_def get_set_u32)

lemma count_increments:
  "bootcount_get get_var (((\<lambda>s. bootcount_increment get_var set_var s i) ^^ k) s) i =
     bootcount_get get_var s i + of_nat k"
  by (induction k) (simp_all add: count_increment)

lemma count_other:
  assumes "build_var_name j \<noteq> build_var_name i"
  shows "bootcount_get get_var (bootcount_increment get_var set_var s i) j = bootcount_get get_var s j"
    and "bootcount_get get_var (bootcount_clear set_var s i) j = bootcount_get get_var s j"
  using assms by (simp_all add: bootcount_get_def bootcount_increment_def bootcount_clear_def
      get_other Let_def)

lemma load_increment:
  "build_var_name i \<noteq> LAST_ENTRY_VAR \<Longrightarrow>
     efivar_load_last_entry get_var (bootcount_increment get_var set_var s i) =
     efivar_load_last_entry get_var s"
  by (simp add: efivar_load_last_entry_def bootcount_increment_def get_other Let_def)

lemma count_save:
  "build_var_name i \<noteq> LAST_ENTRY_VAR \<Longrightarrow>
     bootcount_get get_var (efivar_save_last_entry set_var s j) i = bootcount_get get_var s i"
  by (simp add: bootcount_get_def efivar_save_last_entry_def get_other)

end

lemma char_of_digit_inj: "m < 10 \<Longrightarrow> n < 10 \<Longrightarrow> char_of (48 + m) = char_of (48 + n) \<longleftrightarrow> m = (n :: nat)"
  by (auto dest!: arg_cong[of _ _ "of_char :: char \<Rightarrow> nat"])

lemma name_not_last: "build_var_name i \<noteq> LAST_ENTRY_VAR"
  by (simp add: build_var_name_def LAST_ENTRY_VAR_def)

text \<open>Two-digit indices have different variable names.\<close>

lemma build_var_name_inj:
  assumes "i < 100" and "j < 100" and "build_var_name i = build_var_name j"
  shows "i = j"
proof -
  define m n where "m = unat i" and "n = unat j"
  have b: "m < 100" "n < 100" using assms(1,2) by (simp_all add: m_def n_def word_less_nat_alt)
  have nm: "build_var_name i = ''SakuruBC''
      @ (if 10 \<le> unat i then [char_of (48 + unat i div 10 mod 10)] else []) @ [char_of (48 + unat i mod 10)]" for i
    by (simp add: build_var_name_def word_le_nat_alt unat_div_distrib unat_mod_distrib)
  have "m mod 10 = n mod 10 \<and> (10 \<le> m \<longleftrightarrow> 10 \<le> n) \<and> (10 \<le> m \<longrightarrow> m div 10 mod 10 = n div 10 mod 10)"
    using assms(3) unfolding nm m_def[symmetric] n_def[symmetric]
    by (auto simp: char_of_digit_inj split: if_splits)
  moreover have "m div 10 mod 10 = m div 10" "n div 10 mod 10 = n div 10" using b by simp_all
  ultimately have "m mod 10 = n mod 10" "m div 10 = n div 10"
    by (cases "10 \<le> m"; simp)+
  then have "m = n" by (metis div_mult_mod_eq)
  then show ?thesis by (simp add: m_def n_def word_unat_eq_iff)
qed

section \<open>Properties\<close>

text \<open>A firmware that keeps its variables in a map; the buffer size limits what is read.\<close>

definition map_get :: "(string \<rightharpoonup> u8 list) get_var" where
  "map_get s nm n = (case s nm of None \<Rightarrow> (14, n, [])
     | Some d \<Rightarrow> if length d \<le> n then (0, length d, d) else (5, length d, []))"

definition map_set :: "(string \<rightharpoonup> u8 list) set_var" where
  "map_set s nm attr d = (0, if d = [] then s(nm := None) else s(nm \<mapsto> d))"

interpretation map_nvram: nvram map_get map_set
  by unfold_locales (auto simp: map_get_def map_set_def)



lemma choose_default_ready:
  assumes "menu_ready cfg"
  shows "menu_ready (choose_default get_var s cfg)"
    and "bc_num_entries (choose_default get_var s cfg) = bc_num_entries cfg"
  using assms by (auto simp: choose_default_def menu_ready_def Let_def split: option.splits)

text \<open>
  Every selection that \<^verbatim>\<open>select_entry\<close> makes from a table with a valid default indexes
  an entry of the table; it is what the next boot restores as the last selection, and the
  attempt counter of that entry is one higher.
\<close>

theorem select_entry_recorded:
  assumes "nvram get_var set_var" and "menu_ready cfg"
    and "select_entry get_var set_var ops keys s cfg = Some (sel, s')"
  shows "0 \<le> sel \<and> sel < entries_n cfg \<and>
    efivar_load_last_entry get_var s' = Some (word_of_int sel) \<and>
    bootcount_get get_var s' (word_of_int sel) = bootcount_get get_var s (word_of_int sel) + 1"
proof -
  let ?c = "choose_default get_var s cfg" and ?i = "word_of_int sel :: u32"
  have run: "snd (menu_run ?c ops keys) = Some sel"
    and s': "s' = bootcount_increment get_var set_var (efivar_save_last_entry set_var s ?i) ?i"
    using assms(3) by (auto simp: select_entry_def Let_def split: option.splits)
  have "0 \<le> sel \<and> sel < entries_n cfg"
    using menu_loop_range[OF menu_ready_sel[OF choose_default_ready(1)[OF assms(2)]], of get_var s ops keys sel] run
      choose_default_ready[OF assms(2), of get_var s]
    by (simp add: snd_menu_run menu_ready_def sel_ok_def)
  then show ?thesis
    by (simp add: s' nvram.load_increment[OF assms(1) name_not_last] nvram.load_save[OF assms(1)]
        nvram.count_increment[OF assms(1)] nvram.count_save[OF assms(1) name_not_last])
qed

theorem select_entry_recorded_witness:
  "\<exists>s'. select_entry map_get map_set menu_ops [KEY_ENTER] Map.empty menu_sample = Some (1, s') \<and>
     efivar_load_last_entry map_get s' = Some 1 \<and> bootcount_get map_get s' 1 = 1"
proof -
  have c: "choose_default map_get Map.empty menu_sample = menu_sample"
    by (simp add: choose_default_def efivar_load_last_entry_def bootcount_should_fallback_def
        bootcount_get_def map_get_def BOOTCOUNT_MAX_def)
  have "snd (menu_run menu_sample menu_ops [KEY_ENTER]) = Some 1"
    using menu_loop_selects[OF menu_ready_sel[OF menu_sample_ready], of "[]" KEY_ENTER menu_ops]
    by (simp add: snd_menu_run menu_sample enter_key_def idle_def menu_start_def c_int_def)
  then obtain s' where "select_entry map_get map_set menu_ops [KEY_ENTER] Map.empty menu_sample = Some (1, s')"
    by (simp add: select_entry_def c Let_def)
  with select_entry_recorded[OF map_nvram.nvram_axioms menu_sample_ready this] show ?thesis
    by (auto simp: bootcount_get_def map_get_def)
qed

end
