(* ===== verification/Passphrase.thy ===== *)
theory Passphrase
  imports Menu
begin

text \<open>
  Passphrase entry, \<^verbatim>\<open>src/common/passphrase.c\<close>.  The buffer is the list of its \<^verbatim>\<open>buf_max\<close>
  bytes; reads of keys and calls of the output callbacks are as in \<open>Menu\<close>.  The result
  of \<^verbatim>\<open>passphrase_read\<close> is \<open>None\<close> while it is still waiting after the last key.  The
  buffer contents are proved to be those of a reference line editor, within the bounds of
  the buffer, and to be wiped when the entry is cancelled.
\<close>

section \<open>Operations\<close>

abbreviation (input) KEY_BACKSPACE :: int where "KEY_BACKSPACE \<equiv> 0x08"
abbreviation (input) KEY_ESC :: int where "KEY_ESC \<equiv> 0x1B"

definition passphrase_wipe :: "u8 list \<Rightarrow> nat \<Rightarrow> u8 list" where
  "passphrase_wipe buf n = replicate n 0 @ drop n buf"

fun passphrase_loop ::
    "MenuOps \<Rightarrow> nat \<Rightarrow> int list \<Rightarrow> u8 list \<Rightarrow> nat \<Rightarrow> event list \<times> u8 list \<times> nat option" where
  "passphrase_loop ops mx [] buf len = ([], buf, None)"
| "passphrase_loop ops mx (k # keys) buf len =
     (if k < 0 then passphrase_loop ops mx keys buf len
      else if k = KEY_ENTER then ([EvPrint [CR, LF]] @ show_cursor ops False, buf, Some len)
      else if k = KEY_ESC then
        ([EvPrint [CR, LF]] @ show_cursor ops False, passphrase_wipe buf mx, Some 0)
      else if k = KEY_BACKSPACE \<or> k = 0x7F then
        (if len > 0 then
           let (ev, r) = passphrase_loop ops mx keys (buf[len - 1 := 0]) (len - 1)
           in (EvPrint [CHR 0x08, CHR '' '', CHR 0x08] # ev, r)
         else passphrase_loop ops mx keys buf len)
      else if k \<ge> 0x20 \<and> k \<le> 0x7E \<and> len + 1 < mx then
        let (ev, r) = passphrase_loop ops mx keys (buf[len := word_of_int k, len + 1 := 0]) (len + 1)
        in (EvPrint ''*'' # ev, r)
      else passphrase_loop ops mx keys buf len)"

definition passphrase_read ::
    "MenuOps \<Rightarrow> u8 list \<Rightarrow> string \<Rightarrow> int list \<Rightarrow> event list \<times> u8 list \<times> nat option" where
  "passphrase_read ops buf prompt keys =
     (let (ev, r) = passphrase_loop ops (length buf) keys buf 0
      in (show_cursor ops True @ [EvPrint prompt] @ ev, r))"

section \<open>Reference line editor\<close>

fun edit_key :: "nat \<Rightarrow> int \<Rightarrow> u8 list \<Rightarrow> u8 list" where
  "edit_key mx k acc =
     (if k = KEY_BACKSPACE \<or> k = 0x7F then butlast acc
      else if k \<ge> 0x20 \<and> k \<le> 0x7E \<and> length acc + 1 < mx then acc @ [word_of_int k]
      else acc)"

definition edit_keys :: "nat \<Rightarrow> int list \<Rightarrow> u8 list \<Rightarrow> u8 list" where
  "edit_keys mx keys acc = fold (edit_key mx) keys acc"

definition editing :: "int \<Rightarrow> bool" where
  "editing k \<longleftrightarrow> k \<noteq> KEY_ENTER \<and> k \<noteq> KEY_ESC"

text \<open>The buffer holds the text typed so far, terminated when it is not empty.\<close>

definition holds :: "nat \<Rightarrow> u8 list \<Rightarrow> u8 list \<Rightarrow> bool" where
  "holds mx buf acc \<longleftrightarrow> length buf = mx \<and> take (length acc) buf = acc \<and>
     (acc \<noteq> [] \<longrightarrow> length acc < mx \<and> buf ! length acc = 0)"

lemma holds_type:
  assumes "holds mx buf acc" and "length acc + 1 < mx"
  shows "holds mx (buf[length acc := c, length acc + 1 := 0]) (acc @ [c])"
  using assms by (auto simp: holds_def take_Suc_conv_app_nth)

lemma holds_erase:
  assumes "holds mx buf acc" and "acc \<noteq> []"
  shows "holds mx (buf[length acc - 1 := 0]) (butlast acc)"
proof -
  obtain xs x where acc: "acc = xs @ [x]" using assms(2) rev_exhaust by blast
  then have "take (length xs) buf = take (length xs) (take (length acc) buf)" by simp
  also have "\<dots> = xs" using assms(1) acc by (simp add: holds_def)
  finally show ?thesis using assms acc by (auto simp: holds_def)
qed

lemma passphrase_loop_edit:
  assumes "holds mx buf acc" and "\<forall>k\<in>set keys. editing k"
  shows "\<exists>buf'. snd (passphrase_loop ops mx (keys @ rest) buf (length acc)) =
      snd (passphrase_loop ops mx rest buf' (length (edit_keys mx keys acc))) \<and>
    holds mx buf' (edit_keys mx keys acc)"
  using assms
proof (induction keys arbitrary: buf acc)
  case Nil
  then show ?case by (auto simp: edit_keys_def)
next
  case (Cons k keys)
  have ed: "k \<noteq> KEY_ENTER" "k \<noteq> KEY_ESC" "\<forall>k\<in>set keys. editing k"
    using Cons.prems(2) by (auto simp: editing_def)
  have step: "\<exists>buf'. holds mx buf' (edit_key mx k acc) \<and>
      snd (passphrase_loop ops mx (k # keys @ rest) buf (length acc)) =
      snd (passphrase_loop ops mx (keys @ rest) buf' (length (edit_key mx k acc)))"
  proof (cases "k = KEY_BACKSPACE \<or> k = 0x7F")
    case True
    then show ?thesis
      using Cons.prems(1) holds_erase[OF Cons.prems(1)] ed
      by (cases "acc = []") (auto simp: Let_def case_prod_unfold)
  next
    case False
    then show ?thesis
      using Cons.prems(1) holds_type[OF Cons.prems(1), of "word_of_int k"] ed
      by (cases "k \<ge> 0x20 \<and> k \<le> 0x7E \<and> length acc + 1 < mx") (auto simp: Let_def case_prod_unfold)
  qed
  then obtain b where b: "holds mx b (edit_key mx k acc)"
      "snd (passphrase_loop ops mx ((k # keys) @ rest) buf (length acc)) =
       snd (passphrase_loop ops mx (keys @ rest) b (length (edit_key mx k acc)))"
    by auto
  show ?case
    using Cons.IH[OF b(1) ed(3)] b(2) by (simp add: edit_keys_def del: passphrase_loop.simps edit_key.simps)
qed

section \<open>Properties\<close>

text \<open>
  After any typing and erasing followed by Enter, \<^verbatim>\<open>passphrase_read\<close> returns the length
  of the text that a line editor of capacity \<^verbatim>\<open>buf_max - 1\<close> has, the buffer starts with
  exactly that text followed by a NUL byte (when it is not empty), and its size is
  unchanged: no byte outside it is written.
\<close>

theorem passphrase_enter:
  assumes "\<forall>k\<in>set keys. editing k"
  shows "\<exists>buf'. snd (passphrase_read ops buf prompt (keys @ [KEY_ENTER])) =
      (buf', Some (length (edit_keys (length buf) keys []))) \<and>
    take (length (edit_keys (length buf) keys [])) buf' = edit_keys (length buf) keys [] \<and>
    length buf' = length buf \<and>
    (edit_keys (length buf) keys [] \<noteq> [] \<longrightarrow>
       buf' ! length (edit_keys (length buf) keys []) = 0)"
proof -
  have "holds (length buf) buf []" by (simp add: holds_def)
  from passphrase_loop_edit[OF this assms, of ops "[KEY_ENTER]"] show ?thesis
    by (auto simp: passphrase_read_def holds_def case_prod_unfold)
qed

theorem passphrase_enter_witness:
  "\<exists>buf'. snd (passphrase_read menu_ops (replicate 4 0xAA) ''? '' ([97, 98, 8, 99, 100, 101] @ [KEY_ENTER])) =
     (buf', Some 3) \<and> take 3 buf' = [97, 99, 100] \<and> buf' ! 3 = 0"
proof -
  have e: "edit_keys 4 [97, 98, 8, 99, 100, 101] [] = [97, 99, 100]" by code_simp
  show ?thesis
    using passphrase_enter[of "[97, 98, 8, 99, 100, 101]" menu_ops "replicate 4 0xAA" "''? ''"]
    by (simp add: e editing_def numeral_3_eq_3) fastforce
qed

text \<open>
  Escape cancels: whatever was typed, \<^verbatim>\<open>passphrase_read\<close> returns 0 and every byte of
  the buffer is zero.
\<close>

theorem passphrase_escape_wipes:
  assumes "\<forall>k\<in>set keys. editing k"
  shows "snd (passphrase_read ops buf prompt (keys @ [KEY_ESC])) = (replicate (length buf) 0, Some 0)"
proof -
  have "holds (length buf) buf []" by (simp add: holds_def)
  from passphrase_loop_edit[OF this assms, of ops "[KEY_ESC]"] show ?thesis
    by (auto simp: passphrase_read_def holds_def case_prod_unfold passphrase_wipe_def)
qed

theorem passphrase_escape_wipes_witness:
  "snd (passphrase_read menu_ops (replicate 4 0xAA) ''? '' ([97, 98] @ [KEY_ESC])) = ([0, 0, 0, 0], Some 0)"
  using passphrase_escape_wipes[of "[97, 98]" menu_ops "replicate 4 0xAA" "''? ''"]
  by (simp add: editing_def numeral_eq_Suc)

end
