(* ===== verification/Uefi_Main.thy ===== *)
theory Uefi_Main
  imports Uefi_Boot Nvram Passphrase
begin

text \<open>
  \<^verbatim>\<open>uefi_main\<close> of \<^verbatim>\<open>src/uefi/uefi_loader.c\<close>: discovery, menu, unlocking and the hand-over to an OS loader,
  composed from the other theories.  The firmware is a record of its answers; a call that does not
  come back (an image that takes over, the jump to the kernel) ends a run with the outcome that says so.
  \<open>None\<close> is an access outside an object or a prompt that is never answered.  Messages on the console and
  the debug port are left out.
\<close>

section \<open>Discovery\<close>

record uefi_fw =
  fw_sfs :: sfs_proto
  fw_li_device :: "nat option"
  fw_sfs_handles :: "nat list option"
  fw_bio_handles :: "nat list option"
  fw_block_io :: "nat \<Rightarrow> (efi_media \<times> read_proto) option"
  fw_disk_io :: "nat \<Rightarrow> read_proto option"
  fw_ext4 :: ext4_env
  fw_open_in :: "efi_file \<Rightarrow> u16 list \<Rightarrow> efi_file option"
  fw_fbuf :: "u8 list"

text \<open>
  The directory as \<^verbatim>\<open>loader_entry_scan\<close> reads it; a file is opened relative to the directory, and a read
  that fails leaves the contents of the stack buffer.
\<close>

definition loader_dir :: "uefi_fw \<Rightarrow> efi_root \<Rightarrow> dirent list option" where
  "loader_dir fw root =
     (case root (ascii_to_ucs2_path ''/loader/entries/'' 256) of
        None \<Rightarrow> None
      | Some d \<Rightarrow> Some (map (\<lambda>(is_dir, fn). \<lparr> de_is_dir = is_dir, de_fname = fn,
            de_contents = map_option (\<lambda>f. map chr8 (case ef_read f 4095 of None \<Rightarrow> fw_fbuf fw | Some bs \<Rightarrow> bs))
              (fw_open_in fw d fn) \<rparr>) (ef_dir d 592)))"

text \<open>The fields that are set; the entry table keeps what the stack held.\<close>

definition init_config :: "BootConfig \<Rightarrow> BootConfig" where
  "init_config config = config\<lparr> bc_timeout := DEFAULT_TIMEOUT, bc_default_entry := 0, bc_num_entries := 0,
     bc_theme_color := 5, bc_accent_color := 14 \<rparr>"

text \<open>The forced scan of the boot volume.\<close>

definition scan_boot_volume :: "(u64 \<Rightarrow> bool) \<Rightarrow> efi_root \<Rightarrow> nat \<Rightarrow> uefi_state \<Rightarrow> uefi_state option" where
  "scan_boot_volume alloc root h st = do {
     st \<leftarrow> (if bc_num_entries (us_cfg st) = 0 then scan_config alloc root (Some h) st else Some st);
     st \<leftarrow> scan_dir_uefi root (Some h) ''/boot'' 0 False st;
     scan_dir_uefi root (Some h) ''/EFI/Linux'' 0 True st }"

definition shell_entry :: "BootEntry \<Rightarrow> BootEntry" where
  "shell_entry sh = sh\<lparr> be_name := ''UEFI Shell'', be_type := OS_TYPE_UEFI_SHELL, be_kernel := [],
     be_initrd := [], be_cmdline := [] \<rparr>"

definition add_shell :: "BootConfig \<Rightarrow> BootConfig" where
  "add_shell config =
     (let n = bc_num_entries config
      in if unat n < MAX_ENTRIES
         then config\<lparr> bc_entries := (bc_entries config)[unat n := shell_entry (bc_entries config ! unat n)],
                      bc_num_entries := n + 1 \<rparr>
         else config)"

definition discover :: "uefi_fw \<Rightarrow> BootConfig \<Rightarrow> ((efi_root \<times> nat) option \<times> uefi_state) option" where
  "discover fw config = do {
     let alloc = en_alloc (fw_ext4 fw);
     let boot = find_boot_volume (fw_sfs fw) (fw_li_device fw) (fw_sfs_handles fw);
     let st = \<lparr> us_cfg = init_config config, us_ctx = replicate MAX_ENTRIES None, us_vols = [] \<rparr>;
     st \<leftarrow> scan_all_filesystems alloc (open_volume (fw_sfs fw)) (map_option snd boot) (fw_sfs_handles fw) st;
     st \<leftarrow> scan_all_ext4 (fw_ext4 fw) (fw_block_io fw) (fw_disk_io fw) (fw_bio_handles fw) st;
     st \<leftarrow> (case boot of None \<Rightarrow> Some st | Some (root, h) \<Rightarrow> scan_boot_volume alloc root h st);
     let config = add_shell (us_cfg st);
     let config = (case boot of None \<Rightarrow> config | Some (root, _) \<Rightarrow> loader_entry_scan (loader_dir fw root) config);
     Some (boot, st\<lparr> us_cfg := config \<rparr>) }"

section \<open>Unlocking\<close>

text \<open>
  What the unlocking depends on: the block protocol of a partition with its media id, the keys typed at
  each prompt, and the memory and stack contents \<^verbatim>\<open>luks_open\<close> works with.
\<close>

record luks_env =
  lx_block_io :: "nat \<Rightarrow> (read_blocks \<times> u32) option"
  lx_keys :: "nat \<Rightarrow> int list"
  lx_mem_ok :: bool
  lx_alloc :: "u32 \<Rightarrow> bool"
  lx_mk_stack :: "u8 list"
  lx_cbc_stack :: CBC_CTX
  lx_st1 :: luks1_static
  lx_st2 :: luks2_static
  lx_pass_buf :: "u8 list"

fun unlock_loop ::
    "luks_env \<Rightarrow> ext4_env \<Rightarrow> MenuOps \<Rightarrow> BootEntry \<Rightarrow> read_blocks \<times> u32 \<Rightarrow> nat list \<Rightarrow> u8 list
     \<Rightarrow> luks1_static \<times> luks2_static \<Rightarrow> Ext4Vol option option" where
  "unlock_loop lx env ops entry bio [] buf sts = Some None"
| "unlock_loop lx env ops entry bio (attempt # as) buf (st1, st2) = do {
     (buf, pass) \<leftarrow>
       (if be_luks_keyfile entry = [] then
          (case snd (passphrase_read ops buf [] (lx_keys lx attempt)) of
             (buf, None) \<Rightarrow> None
           | (buf, Some plen) \<Rightarrow> Some (buf, take plen buf))
        else if 0 \<in> set buf then Some (buf, takeWhile (\<lambda>b. b \<noteq> 0) buf) else None);
     (st1, st2, lv) \<leftarrow> luks_open_efi (lx_mem_ok lx) (lx_alloc lx) (lx_mk_stack lx) (lx_cbc_stack lx)
                         (fst bio) (snd bio) pass st1 st2;
     let buf = passphrase_wipe buf 256;
     case lv of
       None \<Rightarrow> unlock_loop lx env ops entry bio as buf (st1, st2)
     | Some lv \<Rightarrow> do {
         v \<leftarrow> ext4_mount_luks env (Some lv);
         case v of
           Some v \<Rightarrow> Some (Some v)
         | None \<Rightarrow> unlock_loop lx env ops entry bio as buf (st1, st2) } }"

text \<open>The key file, read from the boot volume: the buffer and the number of attempts.\<close>

definition read_keyfile :: "efi_root option \<Rightarrow> BootEntry \<Rightarrow> u8 list \<Rightarrow> int \<Rightarrow> u8 list \<times> int" where
  "read_keyfile root entry buf tries =
     (case root of
        None \<Rightarrow> (buf, tries)
      | Some root \<Rightarrow>
          if be_luks_keyfile entry = [] then (buf, tries)
          else (case root (utf8_to_ucs2 (be_luks_keyfile entry) 256 @ [0]) of
                  None \<Rightarrow> (buf, tries)
                | Some kf \<Rightarrow>
                    (case ef_read kf 255 of
                       None \<Rightarrow> (buf[255 := 0], 1)
                     | Some bs \<Rightarrow> ((write_at buf 0 bs)[length bs := 0], 1))))"

text \<open>The result says whether booting goes on, and holds the volumes.\<close>

definition unlock_entry ::
    "luks_env \<Rightarrow> ext4_env \<Rightarrow> MenuOps \<Rightarrow> efi_root option \<Rightarrow> BootEntry \<Rightarrow> FsCtx \<Rightarrow> Ext4Vol list
     \<Rightarrow> (bool \<times> Ext4Vol list) option" where
  "unlock_entry lx env ops root entry ctx vols =
     (case ctx of
        FS_EXT4 (Some i) \<Rightarrow>
          if i < length vols then
            (case Option.bind (ext4_get_part_handle (Some (vols ! i))) (lx_block_io lx) of
               None \<Rightarrow> Some (True, vols)
             | Some bio \<Rightarrow> do {
                 let tries = (if be_luks_tries entry > 0 then be_luks_tries entry else 3);
                 let (buf, tries) = read_keyfile root entry (lx_pass_buf lx) tries;
                 v \<leftarrow> unlock_loop lx env ops entry bio [0..<nat tries] buf (lx_st1 lx, lx_st2 lx);
                 Some (case v of None \<Rightarrow> (False, vols) | Some v \<Rightarrow> (True, vols[i := v])) })
          else None
      | _ \<Rightarrow> Some (True, vols))"

section \<open>Loading\<close>

record 's uefi_env =
  ue_fw :: uefi_fw
  ue_get :: "'s get_var"
  ue_set :: "'s set_var"
  ue_cols :: u64
  ue_shell :: shell_env
  ue_gops :: "gop option list option"
  ue_tables :: "(guid3 \<times> u64) list"
  ue_info_alloc :: bool
  ue_pool :: "nat \<Rightarrow> bool"
  ue_map :: "u64 \<Rightarrow> mem_map"
  ue_alloc :: "u64 \<Rightarrow> u64 \<times> u64"
  ue_exit :: "u64 \<Rightarrow> u64"
  ue_has_li :: "nat \<Rightarrow> bool"
  ue_takes_over :: "nat \<Rightarrow> bool"
  ue_file_at :: u64
  ue_arch :: "u16 option"
  ue_mem :: mem

datatype uefi_result =
    Returned u64
  | MenuWaiting
  | Shell shell_result
  | StartedImage nat "nat option" "u16 list option"
  | Handover u64 BootInfo "(u64 \<times> u64) list" mem

text \<open>\<^verbatim>\<open>LoadImage\<close> from a buffer, as the OS loaders use it.\<close>

definition image_of :: "load_image \<Rightarrow> bool \<Rightarrow> u8 list \<Rightarrow> nat option" where
  "image_of load policy buf = (let (s, h) = load policy None buf in if EFI_ERROR s then None else h)"

text \<open>\<^verbatim>\<open>read_efi_file\<close> of the Windows loader.\<close>

definition read_efi_file :: "(u64 \<Rightarrow> u8 list option) \<Rightarrow> efi_root \<Rightarrow> efi_volume" where
  "read_efi_file fresh root path =
     (case root path of
        None \<Rightarrow> None
      | Some f \<Rightarrow> (case read_image fresh f of Some (Some (buf, rd)) \<Rightarrow> if rd = 0 then None else Some buf | _ \<Rightarrow> None))"

definition started :: "'s uefi_env \<Rightarrow> nat \<Rightarrow> nat option \<Rightarrow> u16 list option \<Rightarrow> uefi_result" where
  "started env h dev opts = (if ue_takes_over env h then StartedImage h dev opts else Returned EFI_LOAD_ERROR)"

text \<open>The end of \<^verbatim>\<open>uefi_main\<close>, once a loader has returned an entry point.\<close>

definition hand_over :: "'s uefi_env \<Rightarrow> BootInfo \<Rightarrow> u64 \<times> (u64 \<times> u64) list \<times> mem \<Rightarrow> uefi_result" where
  "hand_over env info = (\<lambda>(ep, pages, m).
     if ep = 0 then Returned EFI_LOAD_ERROR
     else
       let (s, info) = exit_boot_services (ue_map env) (ue_alloc env) (ue_exit env) info
       in if EFI_ERROR s then Returned s else Handover ep info pages m)"

fun load_os ::
    "'s uefi_env \<Rightarrow> OSLoader \<Rightarrow> BootEntry \<Rightarrow> BootInfo \<Rightarrow> FsCtx \<Rightarrow> Ext4Vol list \<Rightarrow> uefi_result option" where
  "load_os env vios_loader entry info ctx vols = do {
     (file, _) \<leftarrow> read_file (fw_ext4 (ue_fw env)) ctx (be_kernel entry) vols;
     let a = ue_file_at env;
     Some (hand_over env info
       (case file of
          None \<Rightarrow> vios_load_efi (ue_arch env) None (ue_mem env)
        | Some bs \<Rightarrow> vios_load_efi (ue_arch env) (Some (a, of_nat (length bs))) (mem_write (ue_mem env) a bs))) }"
| "load_os env linux_loader entry info ctx vols = do {
     (file, _) \<leftarrow> read_file (fw_ext4 (ue_fw env)) ctx (be_kernel entry) vols;
     let load = im_load (sh_image (ue_shell env));
     Some (case linux_load_efi (\<lambda>_. file) (image_of load False) (ue_has_li env) (get_device_handle (Some ctx))
                  (ue_pool env) entry of
             None \<Rightarrow> Returned EFI_LOAD_ERROR
           | Some si \<Rightarrow> started env (si_image si) (si_device si) (si_options si)) }"
| "load_os env windows_loader entry info ctx vols =
     (let ie = sh_image (ue_shell env)
      in Some (case windows_load_efi (\<lambda>h. map_option (read_efi_file (im_fresh ie)) (open_volume (im_sfs ie) h))
                      (image_of (im_load ie)) (get_device_handle (Some ctx))
                      (case fw_sfs_handles (ue_fw env) of None \<Rightarrow> [] | Some hs \<Rightarrow> hs) entry of
                 None \<Rightarrow> Returned EFI_LOAD_ERROR
               | Some (h, d) \<Rightarrow> started env h (Some d) None))"

section \<open>uefi_main\<close>

definition uefi_ops :: "u64 \<Rightarrow> MenuOps" where
  "uefi_ops con_cols = \<lparr> mo_has_clear = True, mo_has_set_color = True, mo_has_set_cursor = True,
     mo_has_show_cursor = True, mo_cols = c_int (uint con_cols) \<rparr>"

text \<open>The colours of the configuration, and what the menu's calls make of them.\<close>

definition theme_bg :: "BootConfig \<Rightarrow> u64" where
  "theme_bg config = push_bit 4 (ucast (bc_theme_color config AND 0x07))"

definition accent_fg :: "BootConfig \<Rightarrow> u64" where
  "accent_fg config = ucast (bc_accent_color config AND 0x0F)"

definition menu_screen :: "BootConfig \<Rightarrow> event list \<Rightarrow> con_call list" where
  "menu_screen config evs = concat (map (con_event (theme_bg config) (accent_fg config)) evs)"

definition boot_info :: "'s uefi_env \<Rightarrow> BootEntry \<Rightarrow> BootInfo" where
  "boot_info env entry =
     gather_rsdp (ue_tables env) (gather_gop (ue_gops env) (zero_info\<lparr> bi_cmdline := take 255 (cstr (be_cmdline entry)) \<rparr>))"

definition load_ctx :: "(efi_root \<times> nat) option \<Rightarrow> uefi_state \<Rightarrow> nat \<Rightarrow> FsCtx" where
  "load_ctx boot st sel = (case us_ctx st ! sel of Some ctx \<Rightarrow> ctx | None \<Rightarrow> FS_FAT (map_option fst boot) None)"

text \<open>The selected entry is neither the Shell nor locked.\<close>

definition boot_os ::
    "'s uefi_env \<Rightarrow> BootEntry \<Rightarrow> FsCtx \<Rightarrow> Ext4Vol list \<Rightarrow> uefi_result option" where
  "boot_os env entry ctx vols =
     (case find_loader entry of
        None \<Rightarrow> Some (Returned EFI_LOAD_ERROR)
      | Some loader \<Rightarrow>
          if \<not> ue_info_alloc env then Some (Returned EFI_LOAD_ERROR)
          else (case ctx of
                  FS_FAT None _ \<Rightarrow> Some (Returned EFI_LOAD_ERROR)
                | _ \<Rightarrow> load_os env loader entry (boot_info env entry) ctx vols))"

definition boot_selected ::
    "'s uefi_env \<Rightarrow> luks_env \<Rightarrow> (efi_root \<times> nat) option \<Rightarrow> uefi_state \<Rightarrow> nat \<Rightarrow> uefi_result option" where
  "boot_selected env lx boot st sel = do {
     let entry = bc_entries (us_cfg st) ! sel;
     if be_type entry = OS_TYPE_UEFI_SHELL then
       map_option Shell (launch_uefi_shell (ue_shell env) (map_option (\<lambda>(root, h). (root, Some h)) boot))
     else do {
       let ctx = load_ctx boot st sel;
       (ok, vols) \<leftarrow>
         (if be_encrypted entry \<noteq> 0
          then unlock_entry lx (fw_ext4 (ue_fw env)) (uefi_ops (ue_cols env)) (map_option fst boot) entry ctx (us_vols st)
          else Some (True, us_vols st));
       if \<not> ok then Some (Returned EFI_ACCESS_DENIED) else boot_os env entry ctx vols } }"

text \<open>\<open>config\<close> is the uninitialised configuration, \<open>keys\<close> what the keyboard delivers in each call of \<^verbatim>\<open>read_key\<close>.\<close>

definition uefi_main ::
    "'s uefi_env \<Rightarrow> luks_env \<Rightarrow> BootConfig \<Rightarrow> (nat \<Rightarrow> EFI_INPUT_KEY option) list \<Rightarrow> 's \<Rightarrow> (uefi_result \<times> 's) option" where
  "uefi_main env lx config keys s = do {
     (boot, st) \<leftarrow> discover (ue_fw env) config;
     if bc_num_entries (us_cfg st) = 0 then Some (Returned EFI_LOAD_ERROR, s)
     else
       (case select_entry (ue_get env) (ue_set env) (uefi_ops (ue_cols env)) (map con_read_key keys) s (us_cfg st) of
          None \<Rightarrow> Some (MenuWaiting, s)
        | Some (sel, s) \<Rightarrow>
            if sel < 0 \<or> sel \<ge> int (length (bc_entries (us_cfg st))) then None
            else do { r \<leftarrow> boot_selected env lx boot st (nat sel); Some (r, s) }) }"

section \<open>What discovery leaves in the table\<close>

text \<open>
  Every context belongs to an entry in use; one on an EXT4 volume refers to a mounted volume and its
  entry is not marked as encrypted.
\<close>

definition contexts_ok :: "uefi_state \<Rightarrow> bool" where
  "contexts_ok st \<longleftrightarrow> length (bc_entries (us_cfg st)) = MAX_ENTRIES \<and> length (us_ctx st) = MAX_ENTRIES \<and>
     bc_num_entries (us_cfg st) \<le> of_nat MAX_ENTRIES \<and>
     (\<forall>i<MAX_ENTRIES. case us_ctx st ! i of None \<Rightarrow> True
        | Some c \<Rightarrow> i < unat (bc_num_entries (us_cfg st)) \<and> ctx_ok (length (us_vols st)) (bc_entries (us_cfg st) ! i) c)"

lemma init_scan_ok:
  assumes "length (bc_entries config) = MAX_ENTRIES"
  shows "scan_ok \<lparr> us_cfg = init_config config, us_ctx = replicate MAX_ENTRIES None, us_vols = [] \<rparr>"
  using assms
  by (simp add: scan_ok_def table_ok_def init_config_def wf_config_def wf_table_def live_entries_def slots_def
      exI[of _ "[]"])

lemma scan_ok_contexts:
  assumes "scan_ok st"
  shows "contexts_ok st"
proof -
  obtain cs where cs: "us_ctx st = slots cs" "list_all2 (ctx_ok (length (us_vols st))) (live_entries (us_cfg st)) cs"
    and wf: "wf_config (us_cfg st)"
    using assms by (auto simp: scan_ok_def table_ok_def)
  have l: "length (bc_entries (us_cfg st)) = MAX_ENTRIES" "unat (bc_num_entries (us_cfg st)) \<le> MAX_ENTRIES"
    using wf by (auto simp: wf_config_def wf_table_def)
  then have n: "length cs = unat (bc_num_entries (us_cfg st))"
    using list_all2_lengthD[OF cs(2)] by (simp add: live_entries_def)
  have "ctx_ok (length (us_vols st)) (bc_entries (us_cfg st) ! i) (cs ! i)" if "i < length cs" for i
    using that cs(2) n by (auto simp: list_all2_conv_all_nth live_entries_def)
  then show ?thesis
    using l n by (auto simp: contexts_ok_def cs(1) slots_def nth_append word_le_nat_alt)
qed

text \<open>Entries added without a context behind the others.\<close>

lemma contexts_ok_append:
  assumes "contexts_ok st" and "n = bc_num_entries (us_cfg st)" and "unat n < MAX_ENTRIES"
  shows "contexts_ok (st\<lparr> us_cfg := (us_cfg st)\<lparr> bc_entries := (bc_entries (us_cfg st))[unat n := e] \<rparr> \<rparr>)"
    and "contexts_ok (st\<lparr> us_cfg := (us_cfg st)\<lparr> bc_entries := (bc_entries (us_cfg st))[unat n := e], bc_num_entries := n + 1 \<rparr> \<rparr>)"
proof -
  have "unat (n + 1) = Suc (unat n)" using assms(3) by (rule unat_Suc_entries)
  moreover have "n + 1 \<le> of_nat MAX_ENTRIES" using calculation assms(3) by (simp add: word_le_nat_alt)
  moreover have "(case us_ctx st ! i of None \<Rightarrow> True | Some c \<Rightarrow> i < unat n \<and>
      ctx_ok (length (us_vols st)) (bc_entries (us_cfg st) ! i) c)" if "i < MAX_ENTRIES" for i
    using assms(1) that unfolding contexts_ok_def assms(2) by blast
  ultimately show "contexts_ok (st\<lparr> us_cfg := (us_cfg st)\<lparr> bc_entries := (bc_entries (us_cfg st))[unat n := e] \<rparr> \<rparr>)"
    "contexts_ok (st\<lparr> us_cfg := (us_cfg st)\<lparr> bc_entries := (bc_entries (us_cfg st))[unat n := e], bc_num_entries := n + 1 \<rparr> \<rparr>)"
    using assms by (auto simp: contexts_ok_def split: option.splits)
qed

lemma contexts_ok_shell: "contexts_ok st \<Longrightarrow> contexts_ok (st\<lparr> us_cfg := add_shell (us_cfg st) \<rparr>)"
  using contexts_ok_append(2)[of st "bc_num_entries (us_cfg st)"] by (simp add: add_shell_def Let_def)

lemma contexts_ok_loader:
  "contexts_ok st \<Longrightarrow> contexts_ok (st\<lparr> us_cfg := loader_scan_loop ds (us_cfg st) \<rparr>)"
proof (induction ds arbitrary: st)
  case (Cons d ds)
  note app = contexts_ok_append[OF Cons.prems refl]
  show ?case
    using Cons.prems Cons.IH[of st] Cons.IH[OF app(1)] Cons.IH[OF app(2)]
    by (auto simp: Let_def split: option.splits)
qed simp

lemma loader_scan_num:
  "unat (bc_num_entries cfg) \<le> unat (bc_num_entries (loader_scan_loop ds cfg))"
proof (induction ds arbitrary: cfg)
  case (Cons d ds)
  let ?n = "bc_num_entries cfg"
  have "unat ?n < MAX_ENTRIES \<Longrightarrow> unat ?n \<le> unat (?n + 1)" using unat_Suc_entries[of ?n] by simp
  then show ?case
    using Cons[of cfg] le_trans[OF _ Cons[of "cfg\<lparr> bc_entries := es, bc_num_entries := ?n + 1 \<rparr>" for es]]
      Cons[of "cfg\<lparr> bc_entries := es \<rparr>" for es]
    by (auto simp: Let_def split: option.splits)
qed simp

lemma scan_ok_boot_volume:
  assumes "scan_ok st" and "scan_boot_volume alloc root h st = Some st'"
  shows "scan_ok st'"
proof -
  obtain st1 st2 where s: "(if bc_num_entries (us_cfg st) = 0 then scan_config alloc root (Some h) st else Some st) = Some st1"
    "scan_dir_uefi root (Some h) ''/boot'' 0 False st1 = Some st2"
    "scan_dir_uefi root (Some h) ''/EFI/Linux'' 0 True st2 = Some st'"
    using assms(2) unfolding scan_boot_volume_def bind_eq_Some_conv by blast
  have "scan_ok st1" using s(1) assms(1) scan_ok_config[OF assms(1), of alloc root "Some h" st1] by (simp split: if_splits)
  then show ?thesis using scan_ok_dir[OF s(3) scan_ok_dir[OF s(2)]] by blast
qed

lemma discover_scanned:
  assumes "length (bc_entries config) = MAX_ENTRIES" and "discover fw config = Some (boot, st)"
  obtains st0 where "scan_ok st0" "us_vols st = us_vols st0" "us_ctx st = us_ctx st0"
    "boot = find_boot_volume (fw_sfs fw) (fw_li_device fw) (fw_sfs_handles fw)"
    "us_cfg st = (case boot of None \<Rightarrow> add_shell (us_cfg st0)
       | Some (root, _) \<Rightarrow> loader_entry_scan (loader_dir fw root) (add_shell (us_cfg st0)))"
proof -
  obtain st1 st2 st3 where s:
    "scan_all_filesystems (en_alloc (fw_ext4 fw)) (open_volume (fw_sfs fw)) (map_option snd boot) (fw_sfs_handles fw)
       \<lparr> us_cfg = init_config config, us_ctx = replicate MAX_ENTRIES None, us_vols = [] \<rparr> = Some st1"
    "scan_all_ext4 (fw_ext4 fw) (fw_block_io fw) (fw_disk_io fw) (fw_bio_handles fw) st1 = Some st2"
    "(case boot of None \<Rightarrow> Some st2 | Some (root, h) \<Rightarrow> scan_boot_volume (en_alloc (fw_ext4 fw)) root h st2) = Some st3"
    and b: "boot = find_boot_volume (fw_sfs fw) (fw_li_device fw) (fw_sfs_handles fw)"
    and st: "st = st3\<lparr> us_cfg := (case boot of None \<Rightarrow> add_shell (us_cfg st3)
       | Some (root, _) \<Rightarrow> loader_entry_scan (loader_dir fw root) (add_shell (us_cfg st3))) \<rparr>"
    using assms(2) by (auto simp: discover_def Let_def bind_eq_Some_conv)
  have "scan_ok st2"
    using scan_ok_ext4[OF scan_ok_filesystems[OF init_scan_ok[OF assms(1)] s(1)] s(2)] .
  then have "scan_ok st3"
    using s(3) scan_ok_boot_volume by (cases boot) auto
  then show ?thesis using that[of st3] st b by simp
qed

lemma discover_contexts:
  assumes "length (bc_entries config) = MAX_ENTRIES" and "discover fw config = Some (boot, st)"
  shows "contexts_ok st"
proof -
  obtain st0 where st0: "scan_ok st0" "us_vols st = us_vols st0" "us_ctx st = us_ctx st0"
    "us_cfg st = (case boot of None \<Rightarrow> add_shell (us_cfg st0)
       | Some (root, _) \<Rightarrow> loader_entry_scan (loader_dir fw root) (add_shell (us_cfg st0)))"
    using assms by (rule discover_scanned)
  let ?s = "st0\<lparr> us_cfg := add_shell (us_cfg st0) \<rparr>"
  have "contexts_ok ?s" by (rule contexts_ok_shell[OF scan_ok_contexts[OF st0(1)]])
  moreover have "contexts_ok (?s\<lparr> us_cfg := loader_entry_scan d (us_cfg ?s) \<rparr>)" for d
    using contexts_ok_loader[OF calculation] calculation by (cases d) (simp_all add: loader_entry_scan_def)
  moreover have "st = st0\<lparr> us_cfg := us_cfg st \<rparr>" using st0(2,3) by (cases st; cases st0) simp
  ultimately show ?thesis using st0(4) by (cases boot) auto
qed

lemma discover_nonempty:
  assumes "length (bc_entries config) = MAX_ENTRIES" and "discover fw config = Some (boot, st)"
  shows "0 < bc_num_entries (us_cfg st)"
proof -
  obtain st0 where "scan_ok st0" and st0: "us_cfg st = (case boot of None \<Rightarrow> add_shell (us_cfg st0)
       | Some (root, _) \<Rightarrow> loader_entry_scan (loader_dir fw root) (add_shell (us_cfg st0)))"
    using assms by (rule discover_scanned)
  have "0 < unat (bc_num_entries (add_shell (us_cfg st0)))"
    using unat_Suc_entries[of "bc_num_entries (us_cfg st0)"] by (simp add: add_shell_def Let_def)
  moreover have "unat (bc_num_entries c) \<le> unat (bc_num_entries (loader_entry_scan d c))" for c d
    using loader_scan_num[of c] by (cases d) (simp_all add: loader_entry_scan_def)
  ultimately have "0 < unat (bc_num_entries (us_cfg st))"
    using st0 order.strict_trans2 by (fastforce split: option.splits)
  then show ?thesis by (simp add: word_less_nat_alt)
qed

text \<open>
  C6. Whatever the firmware, the disks and the stack hold, discovery leaves a menu with at least one and at
  most 16 entries, and a table in which every file system context belongs to an entry in use: one on a
  firmware volume has a root directory, one on an EXT4 volume refers to a mounted volume and its entry is
  not marked as encrypted.
\<close>

theorem uefi_discovery:
  assumes "length (bc_entries config) = MAX_ENTRIES" and "discover fw config = Some (boot, st)"
  shows "contexts_ok st \<and> 0 < bc_num_entries (us_cfg st)"
  using discover_contexts[OF assms] discover_nonempty[OF assms] by blast

definition bare_fw :: uefi_fw where
  "bare_fw = \<lparr> fw_sfs = (\<lambda>_. None), fw_li_device = None, fw_sfs_handles = None, fw_bio_handles = None,
     fw_block_io = (\<lambda>_. None), fw_disk_io = (\<lambda>_. None),
     fw_ext4 = \<lparr> en_alloc = (\<lambda>_. True), en_stack = [], en_pool = (\<lambda>_. 0) \<rparr>,
     fw_open_in = (\<lambda>_ _. None), fw_fbuf = [] \<rparr>"

definition bare_state :: uefi_state where
  "bare_state = \<lparr> us_cfg = add_shell (init_config empty_config), us_ctx = replicate MAX_ENTRIES None, us_vols = [] \<rparr>"

lemma discover_bare: "discover bare_fw empty_config = Some (None, bare_state)"
  by (simp add: discover_def bare_fw_def find_boot_volume_def scan_all_filesystems_def scan_all_ext4_def bare_state_def)

theorem uefi_discovery_witness: "contexts_ok bare_state \<and> 0 < bc_num_entries (us_cfg bare_state)"
  by (rule uefi_discovery[OF _ discover_bare]) simp

section \<open>Colours\<close>

lemma attr_7bit:
  assumes "\<And>n. bit (a :: u64) n \<Longrightarrow> n < 7"
  shows "a < 0x80"
proof -
  have "a = a AND mask 7" by (rule bit_word_eqI) (auto simp: bit_simps dest: assms)
  moreover have "a AND mask 7 \<le> mask 7" by (rule word_and_le1)
  ultimately show ?thesis by (simp add: word_le_nat_alt word_less_nat_alt mask_eq_exp_minus_1)
qed

lemma small_bits: "bit (0xF :: int) n \<Longrightarrow> n < 4" "bit (0x7 :: int) n \<Longrightarrow> n < 3" "bit (0x8 :: int) n \<Longrightarrow> n < 4"
proof -
  have "(0xF :: int) = mask 4" "(0x7 :: int) = mask 3" "(0x8 :: int) = 2 ^ 3"
    by (simp_all add: mask_eq_exp_minus_1)
  then show "bit (0xF :: int) n \<Longrightarrow> n < 4" "bit (0x7 :: int) n \<Longrightarrow> n < 3" "bit (0x8 :: int) n \<Longrightarrow> n < 4"
    by (simp_all only: bit_mask_iff bit_exp_iff)
qed

lemma colour_bits: "bit (theme_bg config) n \<Longrightarrow> n < 7" "bit (drop_bit 4 (theme_bg config)) n \<Longrightarrow> n < 7"
      "bit (accent_fg config) n \<Longrightarrow> n < 7"
  unfolding theme_bg_def accent_fg_def bit_push_bit_iff bit_drop_bit_eq o_apply bit_ucast_iff bit_and_iff
  by (auto dest!: small_bits)

lemma colour_attr:
  assumes "SetAttribute a \<in> set (con_set_color (theme_bg config) (accent_fg config) c)" and "bit a n"
  shows "n < 7"
proof -
  consider "a = EFI_TEXT_ATTR (drop_bit 4 (theme_bg config) OR 8) 0" | "a = EFI_TEXT_ATTR (accent_fg config) 0"
    | "a = EFI_TEXT_ATTR 0xF (theme_bg config)" | "a = EFI_TEXT_ATTR (accent_fg config) (theme_bg config)" | "a = EFI_TEXT_ATTR 0xF 0"
    using assms(1) by (auto simp: con_set_color_def Let_def EFI_WHITE_def EFI_BACKGROUND_BLACK_def split: if_splits)
  then show ?thesis
    using assms(2) by cases (auto simp: EFI_TEXT_ATTR_def bit_or_iff dest!: colour_bits small_bits)
qed

text \<open>The attributes set while the menu is drawn are valid: a background in the three bits above the foreground.\<close>

lemma screen_attributes:
  assumes "SetAttribute a \<in> set (menu_screen config evs)"
  shows "a < 0x80"
proof -
  obtain ev where "SetAttribute a \<in> set (con_event (theme_bg config) (accent_fg config) ev)"
    using assms by (auto simp: menu_screen_def)
  then show ?thesis
    by (cases ev) (auto simp: con_puts_def con_set_cursor_def con_clear_def con_show_cursor_def intro!: attr_7bit dest: colour_attr)
qed

section \<open>Encrypted volumes\<close>

text \<open>The unlocking code is entered for an entry on an EXT4 volume only, and such an entry is not encrypted.\<close>

lemma unlock_skipped:
  assumes "contexts_ok st" and "sel < MAX_ENTRIES" and "be_encrypted (bc_entries (us_cfg st) ! sel) \<noteq> 0"
  shows "unlock_entry lx env ops root entry (load_ctx boot st sel) vols = Some (True, vols)"
proof (cases "us_ctx st ! sel")
  case None
  then show ?thesis by (simp add: load_ctx_def unlock_entry_def)
next
  case (Some c)
  then have "ctx_ok (length (us_vols st)) (bc_entries (us_cfg st) ! sel) c"
    using assms(1,2) unfolding contexts_ok_def by (metis (mono_tags, lifting) option.simps(5))
  then show ?thesis using Some assms(3) by (cases c) (auto simp: load_ctx_def unlock_entry_def)
qed

text \<open>
  C7. The UEFI edition never unlocks a LUKS volume: its behaviour is the same whatever passphrase is typed
  and whatever the block device under the partition holds.  An entry is marked as encrypted by a
  configuration file only, such an entry lives on a firmware volume, and the unlocking code runs only for
  entries found on EXT4 volumes.
\<close>

theorem luks_never_unlocked:
  assumes "length (bc_entries config) = MAX_ENTRIES"
  shows "uefi_main env lx config keys s = uefi_main env lx' config keys s"
proof (cases "discover (ue_fw env) config")
  case (Some r)
  obtain boot st where r: "r = (boot, st)" by (cases r)
  have ok: "contexts_ok st" using discover_contexts[OF assms] Some r by blast
  have "boot_selected env lx boot st i = boot_selected env lx' boot st i" if "i < MAX_ENTRIES" for i
    using unlock_skipped[OF ok that] by (auto simp: boot_selected_def Let_def)
  moreover have "nat sel < MAX_ENTRIES" if "\<not> (sel < 0 \<or> sel \<ge> int (length (bc_entries (us_cfg st))))" for sel
    using that ok by (auto simp: contexts_ok_def)
  ultimately show ?thesis using Some r
    by (auto simp: uefi_main_def split: option.splits)
qed (simp add: uefi_main_def)

section \<open>Hand-over\<close>

definition map_buffer :: "'s uefi_env \<Rightarrow> u64" where
  "map_buffer env = mm_size (ue_map env 0) + 2 * mm_desc_size (ue_map env 0)"

definition final_map :: "'s uefi_env \<Rightarrow> mem_map" where
  "final_map env = ue_map env (map_buffer env)"

lemma exit_accepted:
  assumes "exit_boot_services (ue_map env) (ue_alloc env) (ue_exit env) info = (st, info')" and "\<not> EFI_ERROR st"
  shows "\<not> EFI_ERROR (mm_status (final_map env)) \<and> \<not> EFI_ERROR (ue_exit env (mm_key (final_map env))) \<and>
    mem_map_addr info' = snd (ue_alloc env (map_buffer env)) \<and> mem_map_size info' = mm_size (final_map env) \<and>
    mem_map_entry_size info' = mm_desc_size (final_map env) \<and> fb_addr info' = fb_addr info"
  using assms
  by (auto simp: exit_boot_services_def Let_def final_map_def map_buffer_def split: prod.splits if_splits)

lemma hand_over_kernel:
  assumes "hand_over env info r = Handover ep info' pages m"
  shows "ep \<noteq> 0 \<and> (\<exists>st. exit_boot_services (ue_map env) (ue_alloc env) (ue_exit env) info = (st, info') \<and> \<not> EFI_ERROR st)"
  using assms by (auto simp: hand_over_def split: prod.splits if_splits)

lemma load_os_handover:
  assumes "load_os env l entry info ctx vols = Some (Handover ep info' pages m)"
  shows "ep \<noteq> 0 \<and> (\<exists>st. exit_boot_services (ue_map env) (ue_alloc env) (ue_exit env) info = (st, info') \<and> \<not> EFI_ERROR st)"
proof (cases l)
  case vios_loader
  then obtain y where "read_file (fw_ext4 (ue_fw env)) ctx (be_kernel entry) vols = Some y"
    using assms by (auto simp: bind_eq_Some_conv)
  then show ?thesis using assms vios_loader by (cases y) (simp add: Let_def, drule hand_over_kernel, simp)
qed (use assms in \<open>auto simp: Let_def started_def bind_eq_Some_conv split: if_splits option.splits\<close>)

lemma boot_info_fb: "fb_addr (boot_info env e) = 0 \<or> fb_addr (boot_info env e) AND 0xFFF = 0 \<and> fb_addr (boot_info env e) \<ge> 0x100000"
  by (auto simp: boot_info_def gather_rsdp_def gather_gop_def fb_usable_def zero_info_def split: option.splits)

lemma uefi_main_handover:
  assumes "uefi_main env lx config keys s = Some (Handover ep info pages m, s')"
  obtains l entry ctx vols where "load_os env l entry (boot_info env entry) ctx vols = Some (Handover ep info pages m)"
proof -
  obtain boot st i where b: "boot_selected env lx boot st i = Some (Handover ep info pages m)"
    using assms by (auto simp: uefi_main_def bind_eq_Some_conv split: if_splits option.splits)
  then obtain entry ctx vols where "boot_os env entry ctx vols = Some (Handover ep info pages m)"
    by (auto simp: boot_selected_def Let_def bind_eq_Some_conv split: if_splits)
  then show ?thesis
    using that by (auto simp: boot_os_def split: option.splits if_splits FsCtx.splits)
qed

text \<open>
  C8. A kernel gets control from \<^verbatim>\<open>uefi_main\<close> itself only after the firmware has accepted the key of exactly
  the memory map that is passed on; the entry point is not 0, and a frame buffer that is passed on is
  page-aligned and above 1 MB.
\<close>

theorem uefi_handover:
  assumes "uefi_main env lx config keys s = Some (Handover ep info pages m, s')"
  shows "ep \<noteq> 0 \<and> \<not> EFI_ERROR (mm_status (final_map env)) \<and> \<not> EFI_ERROR (ue_exit env (mm_key (final_map env))) \<and>
    mem_map_addr info = snd (ue_alloc env (map_buffer env)) \<and> mem_map_size info = mm_size (final_map env) \<and>
    mem_map_entry_size info = mm_desc_size (final_map env) \<and>
    (fb_addr info = 0 \<or> fb_addr info AND 0xFFF = 0 \<and> fb_addr info \<ge> 0x100000)"
proof -
  obtain l entry ctx vols where l: "load_os env l entry (boot_info env entry) ctx vols = Some (Handover ep info pages m)"
    using assms by (rule uefi_main_handover)
  from load_os_handover[OF l] obtain st
    where st: "exit_boot_services (ue_map env) (ue_alloc env) (ue_exit env) (boot_info env entry) = (st, info)"
      "\<not> EFI_ERROR st" "ep \<noteq> 0" by blast
  show ?thesis using exit_accepted[OF st(1,2)] st(3) boot_info_fb[of env entry] by simp
qed

section \<open>A sample machine\<close>

definition sample_dir :: "(bool \<times> u16 list) list \<Rightarrow> efi_file" where
  "sample_dir es = \<lparr> ef_info = (\<lambda>_. None), ef_read = (\<lambda>_. None), ef_dir = (\<lambda>_. es) \<rparr>"

definition sample_file :: "u8 list \<Rightarrow> efi_file" where
  "sample_file bs = \<lparr> ef_info = (\<lambda>_. Some (of_nat (length bs))), ef_read = (\<lambda>n. Some (take (unat n) bs)), ef_dir = (\<lambda>_. []) \<rparr>"

definition elf_root :: efi_root where
  "elf_root p =
     (if p = ascii_to_ucs2_path ''/boot'' 256 then Some (sample_dir [(False, map wide ''k.elf'' @ [0])])
      else if p = ascii_to_ucs2_path ''/boot/k.elf'' 256 then Some (sample_file sample_elf)
      else None)"

definition volume_fw :: "efi_root \<Rightarrow> uefi_fw" where
  "volume_fw root = bare_fw\<lparr> fw_sfs := (\<lambda>h. if h = 1 then Some (Some root) else None),
     fw_li_device := Some 1, fw_sfs_handles := Some [1] \<rparr>"

definition elf_found :: "(efi_root \<times> nat) option \<times> uefi_state" where
  "elf_found = the (discover (volume_fw elf_root) empty_config)"

text \<open>The facts about the run, evaluated together.\<close>

definition elf_checks :: "(efi_root \<times> nat) option \<times> uefi_state \<Rightarrow> bool" where
  "elf_checks = (\<lambda>(boot, st). let e = bc_entries (us_cfg st) ! 0
     in map_option fst (read_file (fw_ext4 bare_fw) (load_ctx boot st 0) (be_kernel e) []) = Some (Some sample_elf) \<and>
        find_loader e = Some vios_loader \<and> be_encrypted e = 0 \<and> 0 < bc_num_entries (us_cfg st) \<and>
        length (bc_entries (us_cfg st)) = MAX_ENTRIES \<and> us_vols st = [] \<and>
        map_option fst (select_entry map_get map_set (uefi_ops 80) [KEY_ENTER] Map.empty (us_cfg st)) = Some 0)"

lemma elf_run: "case discover (volume_fw elf_root) empty_config of None \<Rightarrow> False | Some r \<Rightarrow> elf_checks r"
  by code_simp

definition sample_image :: image_env where
  "sample_image = \<lparr> im_sfs = (\<lambda>_. None), im_fresh = (\<lambda>_. None), im_dp = (\<lambda>_. None), im_dp_alloc = (\<lambda>_. True),
     im_load = (\<lambda>_ _ _. (EFI_NOT_FOUND, None)) \<rparr>"

definition sample_env :: "efi_root \<Rightarrow> (string \<rightharpoonup> u8 list) uefi_env" where
  "sample_env root = \<lparr> ue_fw = volume_fw root, ue_get = map_get, ue_set = map_set, ue_cols = 80,
     ue_shell = \<lparr> sh_image = sample_image, sh_sections = None, sh_vars = [], sh_opt = (\<lambda>_. None), sh_set_next = (\<lambda>_. 0),
       sh_sfs_handles = None \<rparr>,
     ue_gops = Some [Some sample_gop], ue_tables = [], ue_info_alloc = True, ue_pool = (\<lambda>_. True),
     ue_map = (\<lambda>n. \<lparr> mm_status = 0, mm_size = 480, mm_key = 7, mm_desc_size = 48, mm_desc_ver = 1 \<rparr>),
     ue_alloc = (\<lambda>_. (0, 0x5000)), ue_exit = (\<lambda>_. 0), ue_has_li = (\<lambda>_. True), ue_takes_over = (\<lambda>_. True),
     ue_file_at = 0x1000, ue_arch = Some EM_X86_64, ue_mem = (\<lambda>_. 0xAA) \<rparr>"

definition enter_pressed :: "nat \<Rightarrow> EFI_INPUT_KEY option" where
  "enter_pressed _ = Some \<lparr> ScanCode = 0, UnicodeChar = 13 \<rparr>"

lemma enter_read: "con_read_key enter_pressed = KEY_ENTER" by code_simp

lemma elf_placed: "mem_write (\<lambda>_. 0xAA) 0x1000 sample_elf = sample_mem"
proof
  fix x :: u64
  have l: "length sample_elf = 124" by code_simp
  have "mem_write (\<lambda>_. 0xAA) 0x1000 sample_elf x =
      (if in_range 0x1000 124 x then sample_elf ! (unat x - unat (0x1000 :: u64)) else 0xAA)"
    by (subst mem_write_at) (simp_all add: l no_wrap_def)
  then show "mem_write (\<lambda>_. 0xAA) 0x1000 sample_elf x = sample_mem x"
    by (auto simp: sample_mem_def in_range_def word_le_nat_alt word_less_nat_alt unat_sub)
qed

lemma elf_handover:
  "\<exists>info pages m s'. uefi_main (sample_env elf_root) lx empty_config [enter_pressed] Map.empty =
     Some (Handover 0x100000 info pages m, s')"
proof -
  obtain boot st where d: "discover (volume_fw elf_root) empty_config = Some (boot, st)" and c: "elf_checks (boot, st)"
    using elf_run by (auto split: option.splits)
  let ?e = "bc_entries (us_cfg st) ! 0" and ?env = "sample_env elf_root"
  obtain s' where sel: "select_entry map_get map_set (uefi_ops 80) [KEY_ENTER] Map.empty (us_cfg st) = Some (0, s')"
    using c by (auto simp: elf_checks_def Let_def)
  obtain vs where rd: "read_file (fw_ext4 bare_fw) (load_ctx boot st 0) (be_kernel ?e) [] = Some (Some sample_elf, vs)"
    using c by (auto simp: elf_checks_def Let_def)
  have e: "find_loader ?e = Some vios_loader" "be_encrypted ?e = 0" "us_vols st = []" "0 < bc_num_entries (us_cfg st)"
    "length (bc_entries (us_cfg st)) = MAX_ENTRIES"
    using c by (auto simp: elf_checks_def Let_def)
  have t: "be_type ?e \<noteq> OS_TYPE_UEFI_SHELL"
    using e(1) by (auto simp: find_loader_def loader_registry_def vios_can_load_def split: if_splits)
  have l: "length sample_elf = 124" by code_simp
  obtain pages m where v: "vios_load_efi (Some EM_X86_64) (Some (0x1000, 124)) sample_mem = (0x100000, pages, m)"
    using elf64_load_loaded(1)[OF sample_elf_fields(5)] sample_image_ok sample_elf_fields(4)
    by (cases "elf64_load (Some EM_X86_64) sample_mem 0x1000 124") (auto simp: vios_load_efi_def Let_def)
  have "\<exists>info. load_os ?env vios_loader ?e i (load_ctx boot st 0) [] = Some (Handover 0x100000 info pages m)" for i
    using rd v l elf_placed
    by (simp add: sample_env_def volume_fw_def hand_over_def exit_boot_services_def Let_def EFI_ERROR_def)
  then obtain info where "load_os ?env vios_loader ?e (boot_info ?env ?e) (load_ctx boot st 0) [] = Some (Handover 0x100000 info pages m)"
    by blast
  moreover have "load_ctx boot st 0 \<noteq> FS_FAT None h" for h using rd by (auto simp: read_file_def)
  ultimately have "boot_selected ?env lx boot st 0 = Some (Handover 0x100000 info pages m)"
    using e t by (auto simp: boot_selected_def boot_os_def Let_def sample_env_def split: FsCtx.splits option.splits)
  then show ?thesis
    using d sel e(4,5) by (simp add: uefi_main_def sample_env_def enter_read)
qed

theorem luks_never_unlocked_witness:
  "\<forall>lx lx'. uefi_main (sample_env elf_root) lx empty_config [enter_pressed] Map.empty =
     uefi_main (sample_env elf_root) lx' empty_config [enter_pressed] Map.empty"
proof (intro allI)
  fix lx lx'
  show "uefi_main (sample_env elf_root) lx empty_config [enter_pressed] Map.empty =
     uefi_main (sample_env elf_root) lx' empty_config [enter_pressed] Map.empty"
    by (rule luks_never_unlocked) simp
qed

theorem uefi_handover_witness:
  "\<forall>lx. \<exists>info pages m s'. uefi_main (sample_env elf_root) lx empty_config [enter_pressed] Map.empty =
     Some (Handover 0x100000 info pages m, s') \<and> mem_map_addr info = 0x5000 \<and> mem_map_size info = 480"
proof
  fix lx
  obtain info pages m s' where h: "uefi_main (sample_env elf_root) lx empty_config [enter_pressed] Map.empty =
      Some (Handover 0x100000 info pages m, s')"
    using elf_handover by blast
  from uefi_handover[OF h] have "mem_map_addr info = 0x5000" "mem_map_size info = 480"
    by (simp_all add: sample_env_def final_map_def)
  then show "\<exists>info pages m s'. uefi_main (sample_env elf_root) lx empty_config [enter_pressed] Map.empty =
     Some (Handover 0x100000 info pages m, s') \<and> mem_map_addr info = 0x5000 \<and> mem_map_size info = 480"
    using h by blast
qed

section \<open>The default entry\<close>

definition default_root :: efi_root where
  "default_root p = (if p = ascii_to_ucs2_path ''/sakuru.cfg'' 256
     then Some (sample_file (map byte_of (''timeout = 1'' @ [LF] @ ''default = 7'' @ [LF]))) else None)"

definition stale_config :: BootConfig where
  "stale_config = empty_config\<lparr> bc_entries := replicate MAX_ENTRIES
     (zero_entry\<lparr> be_type := OS_TYPE_LINUX, be_kernel := ''/stale'' \<rparr>) \<rparr>"

definition tick_selects :: "(efi_root \<times> nat) option \<times> uefi_state \<Rightarrow> (u32 \<times> int \<times> string) option" where
  "tick_selects = (\<lambda>(_, st). map_option (\<lambda>(sel, _). (bc_num_entries (us_cfg st), sel, be_kernel (bc_entries (us_cfg st) ! nat sel)))
     (select_entry map_get map_set (uefi_ops 80) [- 1] Map.empty (us_cfg st)))"


end
