(* ===== verification/Layout.thy ===== *)
theory Layout
  imports Uefi_Boot
begin

text \<open>
  The layout of the C structures the program shares with disks, firmware and kernels.  A declaration
  is a value of type \<open>ctype\<close>; \<open>csize\<close>, \<open>calign\<close> and \<open>offsets\<close> follow the rules of the 64-bit ABIs the
  program is built for: every member goes to the next multiple of its alignment, a structure is padded to a
  multiple of its own alignment, and a packed structure has neither.

  The declarations are those of \<^verbatim>\<open>src/uefi/efi.h\<close>, of the on-disk structures of the FAT driver, LUKS1,
  the ELF loader and the partition table, and of the Linux setup header.  The theorems place the members
  of the firmware tables where the UEFI specification has them, and show that the field accessors of the
  other theories read and write the bytes of the members they are named after.
\<close>

section \<open>Types, sizes and offsets\<close>

datatype ctype = UINT8 | UINT16 | UINT32 | UINT64 | PTR
  | ARRAY nat ctype
  | STRUCT bool "(string \<times> ctype) list"

definition round_up :: "nat \<Rightarrow> nat \<Rightarrow> nat" where
  "round_up n a = (n + a - 1) div a * a"

fun calign :: "ctype \<Rightarrow> nat" and falign :: "(string \<times> ctype) list \<Rightarrow> nat" where
  "calign UINT8 = 1"
| "calign UINT16 = 2"
| "calign UINT32 = 4"
| "calign UINT64 = 8"
| "calign PTR = 8"
| "calign (ARRAY n t) = calign t"
| "calign (STRUCT packed fs) = (if packed then 1 else falign fs)"
| "falign [] = 1"
| "falign ((f, t) # fs) = max (calign t) (falign fs)"

text \<open>\<open>fplace\<close> is the offset of a member when the ones before it end at \<open>off\<close>.\<close>

definition fplace :: "bool \<Rightarrow> nat \<Rightarrow> ctype \<Rightarrow> nat" where
  "fplace packed off t = (if packed then off else round_up off (calign t))"

fun csize :: "ctype \<Rightarrow> nat" and fend :: "bool \<Rightarrow> nat \<Rightarrow> (string \<times> ctype) list \<Rightarrow> nat" where
  "csize UINT8 = 1"
| "csize UINT16 = 2"
| "csize UINT32 = 4"
| "csize UINT64 = 8"
| "csize PTR = 8"
| "csize (ARRAY n t) = n * csize t"
| "csize (STRUCT packed fs) = round_up (fend packed 0 fs) (if packed then 1 else falign fs)"
| "fend packed off [] = off"
| "fend packed off ((f, t) # fs) = fend packed (fplace packed off t + csize t) fs"

text \<open>The members of a structure with their offsets and types.\<close>

fun foffsets :: "bool \<Rightarrow> nat \<Rightarrow> (string \<times> ctype) list \<Rightarrow> (string \<times> nat \<times> ctype) list" where
  "foffsets packed off [] = []"
| "foffsets packed off ((f, t) # fs) =
     (f, fplace packed off t, t) # foffsets packed (fplace packed off t + csize t) fs"

fun offsets :: "ctype \<Rightarrow> (string \<times> nat \<times> ctype) list" where
  "offsets (STRUCT packed fs) = foffsets packed 0 fs"
| "offsets _ = []"

definition offsetof :: "ctype \<Rightarrow> string \<Rightarrow> nat" where
  "offsetof s f = (case map_of (offsets s) f of Some (k, _) \<Rightarrow> k | None \<Rightarrow> 0)"

text \<open>The bytes of a member of a structure that begins at the head of a buffer.\<close>

definition c_member :: "ctype \<Rightarrow> string \<Rightarrow> u8 list \<Rightarrow> u8 list" where
  "c_member s f b = (case map_of (offsets s) f of Some (k, t) \<Rightarrow> slice b k (csize t) | None \<Rightarrow> [])"

subsection \<open>Rules of every layout\<close>

lemma round_up_ge: "0 < a \<Longrightarrow> n \<le> round_up n a"
  using div_mult_mod_eq[of "n + a - 1" a] mod_less_divisor[of a "n + a - 1"] unfolding round_up_def by linarith

lemma round_up_dvd: "a dvd round_up n a"
  by (simp add: round_up_def)

lemma calign_pos: "0 < calign t" and falign_pos: "0 < falign fs"
  by (induction t and fs rule: calign_falign.induct) auto

lemma fplace_ge: "off \<le> fplace packed off t"
  by (simp add: fplace_def round_up_ge calign_pos)

lemma fend_ge: "off \<le> fend packed off fs"
proof (induction fs arbitrary: off)
  case (Cons m fs)
  obtain f t where m: "m = (f, t)" by (cases m)
  have "off \<le> fplace packed off t + csize t" using fplace_ge[of off packed t] by simp
  then show ?case using Cons[of "fplace packed off t + csize t"] by (simp add: m)
qed simp

lemma foffsets_bounds:
  "(f, k, t) \<in> set (foffsets packed off fs) \<Longrightarrow> off \<le> k \<and> k + csize t \<le> fend packed off fs"
proof (induction fs arbitrary: off)
  case (Cons m fs)
  obtain g u where m: "m = (g, u)" by (cases m)
  let ?off = "fplace packed off u + csize u"
  show ?case
    using Cons.prems Cons.IH[of ?off] fend_ge[of ?off packed fs] fplace_ge[of off packed u]
    by (auto simp: m)
qed simp

text \<open>Members lie inside the structure, in order and without overlap, at multiples of their alignment.\<close>

definition laid_out :: "ctype \<Rightarrow> bool" where
  "laid_out s \<longleftrightarrow> list_all (\<lambda>(f, k, t). k + csize t \<le> csize s) (offsets s) \<and>
     sorted_wrt (\<lambda>(_, k, t) (_, k', _). k + csize t \<le> k') (offsets s) \<and>
     calign s dvd csize s"

lemma foffsets_ordered: "sorted_wrt (\<lambda>(_, k, t) (_, k', _). k + csize t \<le> k') (foffsets packed off fs)"
proof (induction fs arbitrary: off)
  case (Cons m fs)
  then show ?case by (cases m) (auto dest: foffsets_bounds)
qed simp

lemma struct_laid_out: "laid_out (STRUCT packed fs)"
proof -
  let ?a = "if packed then 1 else falign fs"
  have "fend packed 0 fs \<le> csize (STRUCT packed fs)" using round_up_ge[of ?a] falign_pos by simp
  then have "list_all (\<lambda>(f, k, t). k + csize t \<le> csize (STRUCT packed fs)) (foffsets packed 0 fs)"
    by (auto simp: list_all_iff simp del: csize.simps dest!: foffsets_bounds)
  then show ?thesis by (simp add: laid_out_def foffsets_ordered round_up_dvd del: csize.simps) (simp add: round_up_dvd)
qed

lemma foffsets_aligned: "(f, k, t) \<in> set (foffsets False off fs) \<Longrightarrow> calign t dvd k"
  by (induction fs arbitrary: off) (auto simp: fplace_def round_up_dvd)

section \<open>Firmware interface\<close>

text \<open>The names \<^verbatim>\<open>efi.h\<close> gives to the scalar types, on a 64-bit machine.\<close>

definition UINTN :: ctype where "UINTN = UINT64"
definition CHAR16 :: ctype where "CHAR16 = UINT16"
definition EFI_HANDLE :: ctype where "EFI_HANDLE = PTR"
definition EFI_EVENT :: ctype where "EFI_EVENT = PTR"
definition EFI_LBA :: ctype where "EFI_LBA = UINT64"
definition EFI_PHYSICAL_ADDRESS :: ctype where "EFI_PHYSICAL_ADDRESS = UINT64"
definition EFI_VIRTUAL_ADDRESS :: ctype where "EFI_VIRTUAL_ADDRESS = UINT64"
definition BOOLEAN :: ctype where "BOOLEAN = UINT8"

lemmas scalar_types = UINTN_def CHAR16_def EFI_HANDLE_def EFI_EVENT_def EFI_LBA_def EFI_PHYSICAL_ADDRESS_def
  EFI_VIRTUAL_ADDRESS_def BOOLEAN_def

text \<open>Pointers to functions are pointers; an enumeration is 32 bits wide.\<close>

definition EFI_GUID :: ctype where
  "EFI_GUID = STRUCT False [(''Data1'', UINT32), (''Data2'', UINT16), (''Data3'', UINT16),
     (''Data4'', ARRAY 8 UINT8)]"

definition EFI_FIRMWARE_VOLUME2_PROTOCOL :: ctype where
  "EFI_FIRMWARE_VOLUME2_PROTOCOL = STRUCT False [(''GetVolumeAttributes'', PTR),
     (''SetVolumeAttributes'', PTR), (''ReadFile'', PTR), (''ReadSection'', PTR)]"

definition EFI_TABLE_HEADER :: ctype where
  "EFI_TABLE_HEADER = STRUCT False [(''Signature'', UINT64), (''Revision'', UINT32),
     (''HeaderSize'', UINT32), (''CRC32'', UINT32), (''Reserved'', UINT32)]"

definition EFI_SIMPLE_TEXT_OUTPUT_MODE :: ctype where
  "EFI_SIMPLE_TEXT_OUTPUT_MODE = STRUCT False [(''MaxMode'', UINT32), (''Mode'', UINT32),
     (''Attribute'', UINT32), (''CursorColumn'', UINT32), (''CursorRow'', UINT32),
     (''CursorVisible'', BOOLEAN)]"

definition EFI_SIMPLE_TEXT_OUTPUT_PROTOCOL :: ctype where
  "EFI_SIMPLE_TEXT_OUTPUT_PROTOCOL = STRUCT False [(''Reset'', PTR), (''OutputString'', PTR),
     (''TestString'', PTR), (''QueryMode'', PTR), (''SetMode'', PTR), (''SetAttribute'', PTR),
     (''ClearScreen'', PTR), (''SetCursorPosition'', PTR), (''EnableCursor'', PTR),
     (''Mode'', PTR)]"

definition EFI_INPUT_KEY_struct :: ctype where
  "EFI_INPUT_KEY_struct = STRUCT False [(''ScanCode'', UINT16), (''UnicodeChar'', CHAR16)]"

definition EFI_SIMPLE_TEXT_INPUT_PROTOCOL :: ctype where
  "EFI_SIMPLE_TEXT_INPUT_PROTOCOL = STRUCT False [(''Reset'', PTR), (''ReadKeyStroke'', PTR),
     (''WaitForKey'', EFI_EVENT)]"

definition EFI_MEMORY_DESCRIPTOR :: ctype where
  "EFI_MEMORY_DESCRIPTOR = STRUCT False [(''Type'', UINT32),
     (''PhysicalStart'', EFI_PHYSICAL_ADDRESS), (''VirtualStart'', EFI_VIRTUAL_ADDRESS),
     (''NumberOfPages'', UINT64), (''Attribute'', UINT64)]"

definition EFI_FILE_PROTOCOL :: ctype where
  "EFI_FILE_PROTOCOL = STRUCT False [(''Revision'', UINT64), (''Open'', PTR), (''Close'', PTR),
     (''Delete'', PTR), (''Read'', PTR), (''Write'', PTR), (''GetPosition'', PTR),
     (''SetPosition'', PTR), (''GetInfo'', PTR), (''SetInfo'', PTR), (''Flush'', PTR)]"

definition EFI_FILE_INFO :: ctype where
  "EFI_FILE_INFO = STRUCT False [(''Size'', UINT64), (''FileSize'', UINT64),
     (''PhysicalSize'', UINT64), (''CreateTime'', ARRAY 2 UINT64),
     (''LastAccessTime'', ARRAY 2 UINT64), (''ModificationTime'', ARRAY 2 UINT64),
     (''Attribute'', UINT64), (''FileName'', ARRAY 1 CHAR16)]"

definition EFI_BLOCK_IO_MEDIA :: ctype where
  "EFI_BLOCK_IO_MEDIA = STRUCT False [(''MediaId'', UINT32), (''RemovableMedia'', BOOLEAN),
     (''MediaPresent'', BOOLEAN), (''LogicalPartition'', BOOLEAN), (''ReadOnly'', BOOLEAN),
     (''WriteCaching'', BOOLEAN), (''BlockSize'', UINT32), (''IoAlign'', UINT32),
     (''LastBlock'', EFI_LBA)]"

definition EFI_BLOCK_IO_PROTOCOL :: ctype where
  "EFI_BLOCK_IO_PROTOCOL = STRUCT False [(''Revision'', UINT64), (''Media'', PTR),
     (''Reset'', PTR), (''ReadBlocks'', PTR), (''WriteBlocks'', PTR), (''FlushBlocks'', PTR)]"

definition EFI_DISK_IO_PROTOCOL :: ctype where
  "EFI_DISK_IO_PROTOCOL = STRUCT False [(''Revision'', UINT64), (''ReadDisk'', PTR),
     (''WriteDisk'', PTR)]"

definition EFI_SIMPLE_FILE_SYSTEM_PROTOCOL :: ctype where
  "EFI_SIMPLE_FILE_SYSTEM_PROTOCOL = STRUCT False [(''Revision'', UINT64), (''OpenVolume'', PTR)]"

definition EFI_DEVICE_PATH_PROTOCOL :: ctype where
  "EFI_DEVICE_PATH_PROTOCOL = STRUCT False [(''Type'', UINT8), (''SubType'', UINT8),
     (''Length'', ARRAY 2 UINT8)]"

definition EFI_LOADED_IMAGE_PROTOCOL :: ctype where
  "EFI_LOADED_IMAGE_PROTOCOL = STRUCT False [(''Revision'', UINT32),
     (''ParentHandle'', EFI_HANDLE), (''SystemTable'', PTR), (''DeviceHandle'', EFI_HANDLE),
     (''FilePath'', PTR), (''Reserved'', PTR), (''LoadOptionsSize'', UINT32),
     (''LoadOptions'', PTR), (''ImageBase'', PTR), (''ImageSize'', UINT64),
     (''ImageCodeType'', UINT32), (''ImageDataType'', UINT32), (''Unload'', PTR)]"

definition EFI_PIXEL_BITMASK :: ctype where
  "EFI_PIXEL_BITMASK = STRUCT False [(''RedMask'', UINT32), (''GreenMask'', UINT32),
     (''BlueMask'', UINT32), (''ReservedMask'', UINT32)]"

definition EFI_GRAPHICS_OUTPUT_MODE_INFORMATION :: ctype where
  "EFI_GRAPHICS_OUTPUT_MODE_INFORMATION = STRUCT False [(''Version'', UINT32),
     (''HorizontalResolution'', UINT32), (''VerticalResolution'', UINT32),
     (''PixelFormat'', UINT32), (''PixelInformation'', EFI_PIXEL_BITMASK),
     (''PixelsPerScanLine'', UINT32)]"

definition EFI_GRAPHICS_OUTPUT_PROTOCOL_MODE :: ctype where
  "EFI_GRAPHICS_OUTPUT_PROTOCOL_MODE = STRUCT False [(''MaxMode'', UINT32), (''Mode'', UINT32),
     (''Info'', PTR), (''SizeOfInfo'', UINTN), (''FrameBufferBase'', EFI_PHYSICAL_ADDRESS),
     (''FrameBufferSize'', UINTN)]"

definition EFI_GRAPHICS_OUTPUT_PROTOCOL :: ctype where
  "EFI_GRAPHICS_OUTPUT_PROTOCOL = STRUCT False [(''QueryMode'', PTR), (''SetMode'', PTR),
     (''Blt'', PTR), (''Mode'', PTR)]"

definition EFI_BOOT_SERVICES :: ctype where
  "EFI_BOOT_SERVICES = STRUCT False [(''Hdr'', EFI_TABLE_HEADER), (''RaiseTPL'', PTR),
     (''RestoreTPL'', PTR), (''AllocatePages'', PTR), (''FreePages'', PTR),
     (''GetMemoryMap'', PTR), (''AllocatePool'', PTR), (''FreePool'', PTR), (''CreateEvent'', PTR),
     (''SetTimer'', PTR), (''WaitForEvent'', PTR), (''SignalEvent'', PTR), (''CloseEvent'', PTR),
     (''CheckEvent'', PTR), (''InstallProtocolInterface'', PTR),
     (''ReinstallProtocolInterface'', PTR), (''UninstallProtocolInterface'', PTR),
     (''HandleProtocol'', PTR), (''Reserved'', PTR), (''RegisterProtocolNotify'', PTR),
     (''LocateHandle'', PTR), (''LocateDevicePath'', PTR), (''InstallConfigurationTable'', PTR),
     (''LoadImage'', PTR), (''StartImage'', PTR), (''Exit'', PTR), (''UnloadImage'', PTR),
     (''ExitBootServices'', PTR), (''GetNextMonotonicCount'', PTR), (''Stall'', PTR),
     (''SetWatchdogTimer'', PTR), (''ConnectController'', PTR), (''DisconnectController'', PTR),
     (''OpenProtocol'', PTR), (''CloseProtocol'', PTR), (''OpenProtocolInformation'', PTR),
     (''ProtocolsPerHandle'', PTR), (''LocateHandleBuffer'', PTR), (''LocateProtocol'', PTR),
     (''InstallMultipleProtocolInterfaces'', PTR), (''UninstallMultipleProtocolInterfaces'', PTR),
     (''CalculateCrc32'', PTR), (''CopyMem'', PTR), (''SetMem'', PTR), (''CreateEventEx'', PTR)]"

definition EFI_RUNTIME_SERVICES :: ctype where
  "EFI_RUNTIME_SERVICES = STRUCT False [(''Hdr'', EFI_TABLE_HEADER), (''GetTime'', PTR),
     (''SetTime'', PTR), (''GetWakeupTime'', PTR), (''SetWakeupTime'', PTR),
     (''SetVirtualAddressMap'', PTR), (''ConvertPointer'', PTR), (''GetVariable'', PTR),
     (''GetNextVariableName'', PTR), (''SetVariable'', PTR), (''GetNextHighMonotonicCount'', PTR),
     (''ResetSystem'', PTR)]"

definition EFI_CONFIGURATION_TABLE :: ctype where
  "EFI_CONFIGURATION_TABLE = STRUCT False [(''VendorGuid'', EFI_GUID), (''VendorTable'', PTR)]"

definition EFI_SYSTEM_TABLE :: ctype where
  "EFI_SYSTEM_TABLE = STRUCT False [(''Hdr'', EFI_TABLE_HEADER), (''FirmwareVendor'', PTR),
     (''FirmwareRevision'', UINT32), (''ConsoleInHandle'', EFI_HANDLE), (''ConIn'', PTR),
     (''ConsoleOutHandle'', EFI_HANDLE), (''ConOut'', PTR), (''StandardErrorHandle'', EFI_HANDLE),
     (''StdErr'', PTR), (''RuntimeServices'', PTR), (''BootServices'', PTR),
     (''NumberOfTableEntries'', UINTN), (''ConfigurationTable'', PTR)]"

text \<open>Declarations of the same protocols in other files, and of the information handed to a kernel.\<close>

definition EFI_SERIAL_IO :: ctype where
  "EFI_SERIAL_IO = STRUCT False [(''Revision'', UINT32), (''Reset'', PTR),
     (''SetAttributes'', PTR), (''SetControl'', PTR), (''GetControl'', PTR), (''Write'', PTR)]"

definition EfiBlockIO :: ctype where
  "EfiBlockIO = STRUCT False [(''Revision'', UINT64), (''Media'', PTR), (''Reset'', PTR),
     (''ReadBlocks'', PTR), (''WriteBlocks'', PTR), (''FlushBlocks'', PTR)]"

definition FileInfoHdr :: ctype where
  "FileInfoHdr = STRUCT False [(''Size'', UINT64), (''FileSize'', UINT64),
     (''PhysicalSize'', UINT64), (''Times'', ARRAY 48 UINT8), (''Attribute'', UINT64)]"

definition BootInfo_struct :: ctype where
  "BootInfo_struct = STRUCT False [(''mem_map_addr'', UINT64), (''mem_map_size'', UINT64),
     (''mem_map_entry_size'', UINT64), (''mem_map_version'', UINT32), (''fb_addr'', UINT64),
     (''fb_width'', UINT32), (''fb_height'', UINT32), (''fb_pitch'', UINT32), (''fb_bpp'', UINT32),
     (''fb_pixel_format'', UINT32), (''rsdp'', UINT64), (''cmdline'', ARRAY 256 UINT8),
     (''initrd_addr'', UINT64), (''initrd_size'', UINT64)]"

definition BiosBootInfo_struct :: ctype where
  "BiosBootInfo_struct = STRUCT False [(''base'', BootInfo_struct), (''cmdline'', PTR),
     (''fat_root'', PTR)]"

section \<open>Structures on disk\<close>

definition FAT32_BPB :: ctype where
  "FAT32_BPB = STRUCT True [(''jmp'', ARRAY 3 UINT8), (''oem'', ARRAY 8 UINT8),
     (''bytes_per_sector'', UINT16), (''sectors_per_cluster'', UINT8),
     (''reserved_sectors'', UINT16), (''num_fats'', UINT8), (''root_entry_count'', UINT16),
     (''total_sectors16'', UINT16), (''media_type'', UINT8), (''fat_size16'', UINT16),
     (''sectors_per_track'', UINT16), (''num_heads'', UINT16), (''hidden_sectors'', UINT32),
     (''total_sectors32'', UINT32), (''fat_size32'', UINT32), (''ext_flags'', UINT16),
     (''fs_version'', UINT16), (''root_cluster'', UINT32), (''fs_info'', UINT16),
     (''backup_boot'', UINT16), (''reserved'', ARRAY 12 UINT8), (''drive_num'', UINT8),
     (''reserved1'', UINT8), (''boot_sig'', UINT8), (''vol_id'', UINT32),
     (''vol_label'', ARRAY 11 UINT8), (''fs_type'', ARRAY 8 UINT8)]"

definition FAT32_DirEntry :: ctype where
  "FAT32_DirEntry = STRUCT True [(''name'', ARRAY 8 UINT8), (''ext'', ARRAY 3 UINT8),
     (''attr'', UINT8), (''nt_res'', UINT8), (''crt_time_tenth'', UINT8), (''crt_time'', UINT16),
     (''crt_date'', UINT16), (''acc_date'', UINT16), (''first_cluster_hi'', UINT16),
     (''wrt_time'', UINT16), (''wrt_date'', UINT16), (''first_cluster_lo'', UINT16),
     (''file_size'', UINT32)]"

definition FAT32_LFN :: ctype where
  "FAT32_LFN = STRUCT True [(''ord'', UINT8), (''name1'', ARRAY 5 UINT16), (''attr'', UINT8),
     (''type'', UINT8), (''chksum'', UINT8), (''name2'', ARRAY 6 UINT16),
     (''first_cluster'', UINT16), (''name3'', ARRAY 2 UINT16)]"

definition Luks1KeySlot :: ctype where
  "Luks1KeySlot = STRUCT True [(''active'', UINT32), (''iterations'', UINT32),
     (''salt'', ARRAY 32 UINT8), (''key_material_offset'', UINT32), (''stripes'', UINT32)]"

definition Luks1Header :: ctype where
  "Luks1Header = STRUCT True [(''magic'', ARRAY 6 UINT8), (''version'', UINT16),
     (''cipher_name'', ARRAY 32 UINT8), (''cipher_mode'', ARRAY 32 UINT8),
     (''hash_spec'', ARRAY 32 UINT8), (''payload_offset'', UINT32), (''key_bytes'', UINT32),
     (''mk_digest'', ARRAY 20 UINT8), (''mk_digest_salt'', ARRAY 32 UINT8),
     (''mk_digest_iter'', UINT32), (''uuid'', ARRAY 40 UINT8),
     (''key_slots'', ARRAY 8 Luks1KeySlot)]"

definition Elf64_Ehdr :: ctype where
  "Elf64_Ehdr = STRUCT True [(''e_ident'', ARRAY 16 UINT8), (''e_type'', UINT16),
     (''e_machine'', UINT16), (''e_version'', UINT32), (''e_entry'', UINT64),
     (''e_phoff'', UINT64), (''e_shoff'', UINT64), (''e_flags'', UINT32), (''e_ehsize'', UINT16),
     (''e_phentsize'', UINT16), (''e_phnum'', UINT16), (''e_shentsize'', UINT16),
     (''e_shnum'', UINT16), (''e_shstrndx'', UINT16)]"

definition Elf64_Phdr_struct :: ctype where
  "Elf64_Phdr_struct = STRUCT True [(''p_type'', UINT32), (''p_flags'', UINT32),
     (''p_offset'', UINT64), (''p_vaddr'', UINT64), (''p_paddr'', UINT64), (''p_filesz'', UINT64),
     (''p_memsz'', UINT64), (''p_align'', UINT64)]"

definition MBRPartEntry :: ctype where
  "MBRPartEntry = STRUCT True [(''status'', UINT8), (''first_chs'', ARRAY 3 UINT8),
     (''type'', UINT8), (''last_chs'', ARRAY 3 UINT8), (''first_lba'', UINT32),
     (''num_sectors'', UINT32)]"

definition WinMBRPart_struct :: ctype where
  "WinMBRPart_struct = STRUCT True [(''status'', UINT8), (''first_chs'', ARRAY 3 UINT8),
     (''type'', UINT8), (''last_chs'', ARRAY 3 UINT8), (''first_lba'', UINT32),
     (''num_sectors'', UINT32)]"

definition DAP_struct :: ctype where
  "DAP_struct = STRUCT True [(''size'', UINT8), (''reserved'', UINT8), (''sectors'', UINT16),
     (''offset'', UINT16), (''segment'', UINT16), (''lba'', UINT64)]"

definition LinuxSetupHeader :: ctype where
  "LinuxSetupHeader = STRUCT True [(''setup_sects'', UINT8), (''root_flags'', UINT16),
     (''syssize'', UINT32), (''ram_size'', UINT16), (''vid_mode'', UINT16), (''root_dev'', UINT16),
     (''boot_flag'', UINT16), (''jump'', UINT16), (''header'', UINT32), (''version'', UINT16),
     (''realmode_swtch'', UINT32), (''start_sys_seg'', UINT16), (''kernel_version'', UINT16),
     (''type_of_loader'', UINT8), (''loadflags'', UINT8), (''setup_move_size'', UINT16),
     (''code32_start'', UINT32), (''ramdisk_image'', UINT32), (''ramdisk_size'', UINT32),
     (''bootsect_kludge'', UINT32), (''heap_end_ptr'', UINT16), (''ext_loader_ver'', UINT8),
     (''ext_loader_type'', UINT8), (''cmd_line_ptr'', UINT32), (''initrd_addr_max'', UINT32),
     (''kernel_alignment'', UINT32), (''relocatable_kernel'', UINT8), (''min_alignment'', UINT8),
     (''xloadflags'', UINT16), (''cmdline_size'', UINT32), (''hardware_subarch'', UINT32),
     (''hardware_subarch_data'', UINT64), (''payload_offset'', UINT32),
     (''payload_length'', UINT32), (''setup_data'', UINT64), (''pref_address'', UINT64),
     (''init_size'', UINT32), (''handover_offset'', UINT32)]"
section \<open>Members of the firmware tables\<close>

lemmas efi_types = EFI_GUID_def EFI_FIRMWARE_VOLUME2_PROTOCOL_def EFI_TABLE_HEADER_def
  EFI_SIMPLE_TEXT_OUTPUT_MODE_def EFI_SIMPLE_TEXT_OUTPUT_PROTOCOL_def EFI_INPUT_KEY_struct_def
  EFI_SIMPLE_TEXT_INPUT_PROTOCOL_def EFI_MEMORY_DESCRIPTOR_def EFI_FILE_PROTOCOL_def EFI_FILE_INFO_def
  EFI_BLOCK_IO_MEDIA_def EFI_BLOCK_IO_PROTOCOL_def EFI_DISK_IO_PROTOCOL_def EFI_SIMPLE_FILE_SYSTEM_PROTOCOL_def
  EFI_DEVICE_PATH_PROTOCOL_def EFI_LOADED_IMAGE_PROTOCOL_def EFI_PIXEL_BITMASK_def
  EFI_GRAPHICS_OUTPUT_MODE_INFORMATION_def EFI_GRAPHICS_OUTPUT_PROTOCOL_MODE_def EFI_GRAPHICS_OUTPUT_PROTOCOL_def
  EFI_RUNTIME_SERVICES_def EFI_CONFIGURATION_TABLE_def EFI_SYSTEM_TABLE_def

lemmas layout_eval = offsetof_def c_member_def scalar_types fplace_def round_up_def

lemma boot_services_offset:
  "offsetof EFI_BOOT_SERVICES ''AllocatePages'' = 40" "offsetof EFI_BOOT_SERVICES ''GetMemoryMap'' = 56"
  "offsetof EFI_BOOT_SERVICES ''AllocatePool'' = 64" "offsetof EFI_BOOT_SERVICES ''FreePool'' = 72"
  "offsetof EFI_BOOT_SERVICES ''HandleProtocol'' = 152" "offsetof EFI_BOOT_SERVICES ''LoadImage'' = 200"
  "offsetof EFI_BOOT_SERVICES ''StartImage'' = 208" "offsetof EFI_BOOT_SERVICES ''Exit'' = 216"
  "offsetof EFI_BOOT_SERVICES ''UnloadImage'' = 224"
  "offsetof EFI_BOOT_SERVICES ''ExitBootServices'' = 232" "offsetof EFI_BOOT_SERVICES ''Stall'' = 248"
  "offsetof EFI_BOOT_SERVICES ''ConnectController'' = 264" "offsetof EFI_BOOT_SERVICES ''DisconnectController'' = 272"
  "offsetof EFI_BOOT_SERVICES ''LocateHandleBuffer'' = 312" "offsetof EFI_BOOT_SERVICES ''LocateProtocol'' = 320"
  "csize EFI_BOOT_SERVICES = 376"
  unfolding EFI_BOOT_SERVICES_def
  by (simp_all add: layout_eval EFI_TABLE_HEADER_def)
lemma system_table_offset:
  "offsetof EFI_SYSTEM_TABLE ''ConIn'' = 48" "offsetof EFI_SYSTEM_TABLE ''ConOut'' = 64"
  "offsetof EFI_SYSTEM_TABLE ''RuntimeServices'' = 88" "offsetof EFI_SYSTEM_TABLE ''BootServices'' = 96"
  "offsetof EFI_SYSTEM_TABLE ''NumberOfTableEntries'' = 104" "offsetof EFI_SYSTEM_TABLE ''ConfigurationTable'' = 112"
  "csize EFI_SYSTEM_TABLE = 120"
  "offsetof EFI_RUNTIME_SERVICES ''GetVariable'' = 72" "offsetof EFI_RUNTIME_SERVICES ''GetNextVariableName'' = 80"
  "offsetof EFI_RUNTIME_SERVICES ''SetVariable'' = 88" "offsetof EFI_RUNTIME_SERVICES ''ResetSystem'' = 104"
  "offsetof EFI_CONFIGURATION_TABLE ''VendorTable'' = 16" "csize EFI_CONFIGURATION_TABLE = 24"
  by (simp_all add: layout_eval EFI_TABLE_HEADER_def EFI_GUID_def EFI_SYSTEM_TABLE_def EFI_RUNTIME_SERVICES_def
    EFI_CONFIGURATION_TABLE_def)

lemma console_offset:
  "offsetof EFI_SIMPLE_TEXT_OUTPUT_PROTOCOL ''OutputString'' = 8"
  "offsetof EFI_SIMPLE_TEXT_OUTPUT_PROTOCOL ''QueryMode'' = 24"
  "offsetof EFI_SIMPLE_TEXT_OUTPUT_PROTOCOL ''SetAttribute'' = 40"
  "offsetof EFI_SIMPLE_TEXT_OUTPUT_PROTOCOL ''ClearScreen'' = 48"
  "offsetof EFI_SIMPLE_TEXT_OUTPUT_PROTOCOL ''SetCursorPosition'' = 56"
  "offsetof EFI_SIMPLE_TEXT_OUTPUT_PROTOCOL ''EnableCursor'' = 64"
  "offsetof EFI_SIMPLE_TEXT_OUTPUT_PROTOCOL ''Mode'' = 72"
  "offsetof EFI_SIMPLE_TEXT_INPUT_PROTOCOL ''ReadKeyStroke'' = 8"
  "offsetof EFI_INPUT_KEY_struct ''UnicodeChar'' = 2"
  "offsetof EFI_SERIAL_IO ''Write'' = 40"
  by (simp_all add: layout_eval EFI_SIMPLE_TEXT_OUTPUT_PROTOCOL_def EFI_SIMPLE_TEXT_INPUT_PROTOCOL_def
    EFI_INPUT_KEY_struct_def EFI_SERIAL_IO_def)

lemma storage_offset:
  "offsetof EFI_FILE_PROTOCOL ''Open'' = 8" "offsetof EFI_FILE_PROTOCOL ''Close'' = 16"
  "offsetof EFI_FILE_PROTOCOL ''Read'' = 32" "offsetof EFI_FILE_PROTOCOL ''SetPosition'' = 56"
  "offsetof EFI_FILE_PROTOCOL ''GetInfo'' = 64" "offsetof EFI_SIMPLE_FILE_SYSTEM_PROTOCOL ''OpenVolume'' = 8"
  "offsetof EFI_BLOCK_IO_PROTOCOL ''Media'' = 8" "offsetof EFI_BLOCK_IO_PROTOCOL ''ReadBlocks'' = 24"
  "offsetof EFI_BLOCK_IO_MEDIA ''LogicalPartition'' = 6" "offsetof EFI_BLOCK_IO_MEDIA ''BlockSize'' = 12"
  "offsetof EFI_BLOCK_IO_MEDIA ''LastBlock'' = 24" "offsetof EFI_DISK_IO_PROTOCOL ''ReadDisk'' = 8"
  "offsetof EFI_FIRMWARE_VOLUME2_PROTOCOL ''ReadSection'' = 24"
  by (simp_all add: layout_eval EFI_FILE_PROTOCOL_def EFI_SIMPLE_FILE_SYSTEM_PROTOCOL_def EFI_BLOCK_IO_PROTOCOL_def
    EFI_BLOCK_IO_MEDIA_def EFI_DISK_IO_PROTOCOL_def EFI_FIRMWARE_VOLUME2_PROTOCOL_def)

lemma image_offset:
  "offsetof EFI_LOADED_IMAGE_PROTOCOL ''DeviceHandle'' = 24" "offsetof EFI_LOADED_IMAGE_PROTOCOL ''LoadOptionsSize'' = 48"
  "offsetof EFI_LOADED_IMAGE_PROTOCOL ''LoadOptions'' = 56" "csize EFI_LOADED_IMAGE_PROTOCOL = 96"
  "offsetof EFI_MEMORY_DESCRIPTOR ''PhysicalStart'' = 8" "csize EFI_MEMORY_DESCRIPTOR = 40"
  "offsetof EFI_GRAPHICS_OUTPUT_PROTOCOL ''Mode'' = 24" "offsetof EFI_GRAPHICS_OUTPUT_PROTOCOL_MODE ''FrameBufferBase'' = 24"
  "offsetof EFI_GRAPHICS_OUTPUT_MODE_INFORMATION ''PixelsPerScanLine'' = 32"
  "csize EFI_GRAPHICS_OUTPUT_MODE_INFORMATION = 36" "csize EFI_DEVICE_PATH_PROTOCOL = 4"
  by (simp_all add: layout_eval EFI_LOADED_IMAGE_PROTOCOL_def EFI_MEMORY_DESCRIPTOR_def EFI_GRAPHICS_OUTPUT_PROTOCOL_def
    EFI_GRAPHICS_OUTPUT_PROTOCOL_MODE_def EFI_GRAPHICS_OUTPUT_MODE_INFORMATION_def EFI_PIXEL_BITMASK_def
    EFI_DEVICE_PATH_PROTOCOL_def)

text \<open>
  The private declarations agree with \<^verbatim>\<open>efi.h\<close>: the block protocol of the LUKS volume has all its members
  where the protocol has them, and the file name follows the header of the loader-entry scan.
\<close>

lemma private_declarations:
  "offsets EfiBlockIO = offsets EFI_BLOCK_IO_PROTOCOL"
  "csize FileInfoHdr = 80" "offsetof EFI_FILE_INFO ''FileName'' = 80"
  "offsetof FileInfoHdr ''Attribute'' = offsetof EFI_FILE_INFO ''Attribute''"
  by (simp_all add: layout_eval EfiBlockIO_def EFI_BLOCK_IO_PROTOCOL_def FileInfoHdr_def EFI_FILE_INFO_def)

lemma boot_info_offset:
  "offsetof BootInfo_struct ''fb_addr'' = 32" "offsetof BootInfo_struct ''rsdp'' = 64"
  "offsetof BootInfo_struct ''cmdline'' = 72" "offsetof BootInfo_struct ''initrd_addr'' = 328"
  "csize BootInfo_struct = 344" "offsetof BiosBootInfo_struct ''base'' = 0" "offsetof BiosBootInfo_struct ''cmdline'' = 344"
  by (simp_all add: layout_eval BootInfo_struct_def BiosBootInfo_struct_def)
section \<open>Accessors of the model\<close>

lemma u16_of_slice: "u16_of_le (slice b k 2) = u16_of_le (drop k b)"
  and u32_of_slice: "u32_of_le (slice b k 4) = u32_of_le (drop k b)"
  and be32r_slice: "be32r (slice b k 4) = be32r (drop k b)"
  and hd_slice: "slice b k 1 ! 0 = drop k b ! 0"
  by (simp_all add: slice_def u16_of_le_def u32_of_le_def be32r_def)

lemmas slice_reads = u16_of_slice u32_of_slice be32r_slice hd_slice

lemma fat_bpb_members:
  "bpb_bytes_per_sector b = u16_of_le (c_member FAT32_BPB ''bytes_per_sector'' b)"
  "bpb_reserved_sectors b = u16_of_le (c_member FAT32_BPB ''reserved_sectors'' b)"
  "bpb_total_sectors32 b = u32_of_le (c_member FAT32_BPB ''total_sectors32'' b)"
  "bpb_fat_size32 b = u32_of_le (c_member FAT32_BPB ''fat_size32'' b)"
  "bpb_root_cluster b = u32_of_le (c_member FAT32_BPB ''root_cluster'' b)"
  "csize FAT32_BPB = 90"
  by (simp_all add: layout_eval FAT32_BPB_def slice_reads bpb_bytes_per_sector_def bpb_reserved_sectors_def
    bpb_total_sectors32_def bpb_fat_size32_def bpb_root_cluster_def)

lemma fat_bpb_byte_members:
  assumes "csize FAT32_BPB \<le> length b"
  shows "[bpb_sectors_per_cluster b] = c_member FAT32_BPB ''sectors_per_cluster'' b"
    and "[bpb_num_fats b] = c_member FAT32_BPB ''num_fats'' b"
proof -
  have "slice b k 1 = [b ! k]" if "k < 90" for k
    using that assms by (simp add: fat_bpb_members(6) slice_def take_Suc hd_drop_conv_nth)
  then show "[bpb_sectors_per_cluster b] = c_member FAT32_BPB ''sectors_per_cluster'' b"
    and "[bpb_num_fats b] = c_member FAT32_BPB ''num_fats'' b"
    by (simp_all add: layout_eval FAT32_BPB_def bpb_sectors_per_cluster_def bpb_num_fats_def)
qed
lemma fat_dirent_members:
  "de_name d = c_member FAT32_DirEntry ''name'' d" "de_ext d = c_member FAT32_DirEntry ''ext'' d"
  "de_first_cluster d = push_bit 16 (ucast (u16_of_le (c_member FAT32_DirEntry ''first_cluster_hi'' d)))
     OR ucast (u16_of_le (c_member FAT32_DirEntry ''first_cluster_lo'' d))"
  "de_file_size d = u32_of_le (c_member FAT32_DirEntry ''file_size'' d)" "csize FAT32_DirEntry = 32"
  by (simp_all add: layout_eval FAT32_DirEntry_def slice_reads de_name_def de_ext_def de_first_cluster_def
    de_file_size_def slice_def[of _ 0])

text \<open>The characters of a long name are the low bytes of its three arrays.\<close>

definition low_bytes :: "u8 list \<Rightarrow> u8 list" where
  "low_bytes bs = map (\<lambda>i. bs ! (2 * i)) [0..<length bs div 2]"

lemma low_bytes_slice:
  "k + 2 * n \<le> length d \<Longrightarrow> low_bytes (slice d k (2 * n)) = map (\<lambda>i. d ! (k + 2 * i)) [0..<n]"
  by (auto simp: low_bytes_def slice_def)

lemma fat_lfn_members:
  assumes "length d = 32"
  shows "lfn_chars d = low_bytes (c_member FAT32_LFN ''name1'' d) @ low_bytes (c_member FAT32_LFN ''name2'' d)
      @ low_bytes (c_member FAT32_LFN ''name3'' d)"
    and "csize FAT32_LFN = 32"
  using assms low_bytes_slice[of 1 5 d] low_bytes_slice[of 14 6 d] low_bytes_slice[of 28 2 d]
  by (simp_all add: layout_eval FAT32_LFN_def lfn_chars_def upt_rec)

text \<open>LUKS1: the eight slots follow each other in the header, and the header ends after 592 bytes.\<close>

lemma luks1_members:
  "h1_payload_offset h = be32r (c_member Luks1Header ''payload_offset'' h)"
  "h1_key_bytes h = be32r (c_member Luks1Header ''key_bytes'' h)"
  "h1_mk_digest h = c_member Luks1Header ''mk_digest'' h"
  "h1_mk_digest_salt h = c_member Luks1Header ''mk_digest_salt'' h"
  "h1_mk_digest_iter h = be32r (c_member Luks1Header ''mk_digest_iter'' h)"
  "h1_cipher_mode h = chars_at h (offsetof Luks1Header ''cipher_mode'')"
  "h1_hash_spec h = chars_at h (offsetof Luks1Header ''hash_spec'')"
  "csize Luks1Header = 592"
  by (simp_all add: layout_eval Luks1Header_def Luks1KeySlot_def slice_reads h1_payload_offset_def h1_key_bytes_def
    h1_mk_digest_def h1_mk_digest_salt_def h1_mk_digest_iter_def h1_cipher_mode_def h1_hash_spec_def)

definition luks1_slot :: "u8 list \<Rightarrow> nat \<Rightarrow> u8 list" where
  "luks1_slot h i = slice h (offsetof Luks1Header ''key_slots'' + i * csize Luks1KeySlot) (csize Luks1KeySlot)"

lemma luks1_slot_at: "luks1_slot h i = slice h (208 + i * 48) 48"
  by (simp add: luks1_slot_def layout_eval Luks1Header_def Luks1KeySlot_def)

lemma slice_slice: "k + n \<le> l \<Longrightarrow> slice (slice h a l) k n = slice h (a + k) n"
  by (simp add: slice_def drop_take min_def add.commute)

lemma luks1_slot_members:
  "ks_active h i = be32r (c_member Luks1KeySlot ''active'' (luks1_slot h i))"
  "ks_iterations h i = be32r (c_member Luks1KeySlot ''iterations'' (luks1_slot h i))"
  "ks_salt h i = c_member Luks1KeySlot ''salt'' (luks1_slot h i)"
  "ks_km_offset h i = be32r (c_member Luks1KeySlot ''key_material_offset'' (luks1_slot h i))"
  "ks_stripes h i = be32r (c_member Luks1KeySlot ''stripes'' (luks1_slot h i))"
  unfolding luks1_slot_at
  by (simp_all add: layout_eval Luks1KeySlot_def slice_slice slice_reads ks_active_def ks_iterations_def ks_salt_def
    ks_km_offset_def ks_stripes_def mult.commute[of i])
text \<open>The partition table begins at byte 446; both files declare its entries alike.\<close>

definition mbr_entry :: "u8 list \<Rightarrow> nat \<Rightarrow> u8 list" where
  "mbr_entry mbr i = slice mbr (446 + i * csize MBRPartEntry) (csize MBRPartEntry)"

lemma mbr_entry_at: "mbr_entry mbr i = slice mbr (446 + i * 16) 16"
  by (simp add: mbr_entry_def layout_eval MBRPartEntry_def)

lemma mbr_part_members:
  assumes "length mbr = 512" and "i < 4"
  shows "wp_first_lba (mbr_part mbr i) = u32_of_le (c_member MBRPartEntry ''first_lba'' (mbr_entry mbr i))"
    and "[wp_type (mbr_part mbr i)] = c_member MBRPartEntry ''type'' (mbr_entry mbr i)"
    and "[wp_status (mbr_part mbr i)] = c_member MBRPartEntry ''status'' (mbr_entry mbr i)"
    and "WinMBRPart_struct = MBRPartEntry"
proof -
  have one: "slice mbr k (Suc 0) = [mbr ! k]" if "k < 512" for k
    using that assms(1) by (simp add: slice_def take_Suc hd_drop_conv_nth)
  have "446 + i * 16 + 15 < 512" using assms(2) by simp
  then show "wp_first_lba (mbr_part mbr i) = u32_of_le (c_member MBRPartEntry ''first_lba'' (mbr_entry mbr i))"
    and "[wp_type (mbr_part mbr i)] = c_member MBRPartEntry ''type'' (mbr_entry mbr i)"
    and "[wp_status (mbr_part mbr i)] = c_member MBRPartEntry ''status'' (mbr_entry mbr i)"
    unfolding mbr_entry_at using assms(1)
    by (simp_all add: layout_eval MBRPartEntry_def mbr_part_def Let_def slice_slice slice_reads one mult.commute
      add.assoc add.commute)
  show "WinMBRPart_struct = MBRPartEntry" by (simp add: WinMBRPart_struct_def MBRPartEntry_def)
qed

text \<open>Addresses of the members of a structure in memory.\<close>

definition c_addr :: "ctype \<Rightarrow> u64 \<Rightarrow> string \<Rightarrow> u64" where
  "c_addr s base f = base + of_nat (offsetof s f)"

lemma elf_members:
  "e_type m eh = rd16 m (c_addr Elf64_Ehdr eh ''e_type'')" "e_machine m eh = rd16 m (c_addr Elf64_Ehdr eh ''e_machine'')"
  "e_entry m eh = rd64 m (c_addr Elf64_Ehdr eh ''e_entry'')" "e_phoff m eh = rd64 m (c_addr Elf64_Ehdr eh ''e_phoff'')"
  "e_phentsize m eh = rd16 m (c_addr Elf64_Ehdr eh ''e_phentsize'')"
  "e_phnum m eh = rd16 m (c_addr Elf64_Ehdr eh ''e_phnum'')" "csize Elf64_Ehdr = 64"
  by (simp_all add: layout_eval c_addr_def Elf64_Ehdr_def e_type_def e_machine_def e_entry_def e_phoff_def
    e_phentsize_def e_phnum_def)

lemma elf_phdr_members:
  "p_type (read_phdr m a) = rd32 m (c_addr Elf64_Phdr_struct a ''p_type'')"
  "p_offset (read_phdr m a) = rd64 m (c_addr Elf64_Phdr_struct a ''p_offset'')"
  "p_paddr (read_phdr m a) = rd64 m (c_addr Elf64_Phdr_struct a ''p_paddr'')"
  "p_filesz (read_phdr m a) = rd64 m (c_addr Elf64_Phdr_struct a ''p_filesz'')"
  "p_memsz (read_phdr m a) = rd64 m (c_addr Elf64_Phdr_struct a ''p_memsz'')" "csize Elf64_Phdr_struct = 56"
  by (simp_all add: layout_eval c_addr_def Elf64_Phdr_struct_def read_phdr_def)

text \<open>
  The setup header begins at byte \<^verbatim>\<open>0x1F1\<close> of the kernel file and of the zero page.
\<close>

definition setup_header :: "u64 \<Rightarrow> string \<Rightarrow> u64" where
  "setup_header page f = c_addr LinuxSetupHeader (page + 0x1F1) f"

lemma setup_header_at:
  "setup_header p ''setup_sects'' = p + 0x1F1" "setup_header p ''header'' = p + 0x202"
  "setup_header p ''version'' = p + 0x206"
  "setup_header p ''type_of_loader'' = p + 0x210" "setup_header p ''loadflags'' = p + 0x211"
  "setup_header p ''ramdisk_image'' = p + 0x218" "setup_header p ''ramdisk_size'' = p + 0x21C"
  "setup_header p ''heap_end_ptr'' = p + 0x224" "setup_header p ''ext_loader_ver'' = p + 0x226"
  "setup_header p ''cmd_line_ptr'' = p + 0x228" "setup_header p ''handover_offset'' = p + 0x264"
  by (simp_all add: setup_header_def c_addr_def layout_eval LinuxSetupHeader_def)

lemma setup_header_size: "csize LinuxSetupHeader = 119"
  by (simp add: layout_eval LinuxSetupHeader_def)

lemma linux_params_members:
  "linux_params m kbuf ksize cmdline =
     (let hdr = setup_header BOOT_PARAMS_ADDR; n = ucast (setup_size m kbuf);
          m = mem_set m BOOT_PARAMS_ADDR 0 4096;
          m = mem_copy m BOOT_PARAMS_ADDR kbuf (if n < ksize then n else ksize);
          m = m(hdr ''type_of_loader'' := LOADER_TYPE);
          m = m(hdr ''loadflags'' := m (hdr ''loadflags'') OR CAN_USE_HEAP);
          m = wr16 m (hdr ''heap_end_ptr'') 0xFE00;
          m = m(hdr ''ext_loader_ver'' := 0);
          m = mem_write m CMDLINE_ADDR (str_copy_n cmdline 2048)
      in wr32 m (hdr ''cmd_line_ptr'') (ucast CMDLINE_ADDR))"
  unfolding linux_params_def Let_def setup_header_at by (simp add: CMDLINE_ADDR_def)
section \<open>Protocol identifiers\<close>

text \<open>A GUID as the bytes of the structure \<^verbatim>\<open>EFI_GUID\<close> in memory.\<close>

definition EFI_GUID_INIT :: "u32 \<Rightarrow> u16 \<Rightarrow> u16 \<Rightarrow> u8 list \<Rightarrow> u8 list" where
  "EFI_GUID_INIT a b c d = u32_le a @ [ucast b, ucast (drop_bit 8 b)] @ [ucast c, ucast (drop_bit 8 c)] @ d"

definition EFI_LOADED_IMAGE_PROTOCOL_GUID :: "u8 list" where
  "EFI_LOADED_IMAGE_PROTOCOL_GUID = EFI_GUID_INIT 0x5b1b31a1 0x9562 0x11d2
     [0x8e, 0x3f, 0x00, 0xa0, 0xc9, 0x69, 0x72, 0x3b]"
definition EFI_SIMPLE_FILE_SYSTEM_PROTOCOL_GUID :: "u8 list" where
  "EFI_SIMPLE_FILE_SYSTEM_PROTOCOL_GUID = EFI_GUID_INIT 0x964e5b22 0x6459 0x11d2
     [0x8e, 0x39, 0x00, 0xa0, 0xc9, 0x69, 0x72, 0x3b]"
definition EFI_GRAPHICS_OUTPUT_PROTOCOL_GUID :: "u8 list" where
  "EFI_GRAPHICS_OUTPUT_PROTOCOL_GUID = EFI_GUID_INIT 0x9042a9de 0x23dc 0x4a38
     [0x96, 0xfb, 0x7a, 0xde, 0xd0, 0x80, 0x51, 0x6a]"
definition EFI_FIRMWARE_VOLUME2_PROTOCOL_GUID :: "u8 list" where
  "EFI_FIRMWARE_VOLUME2_PROTOCOL_GUID = EFI_GUID_INIT 0x220e73b6 0x6bdb 0x4413
     [0x84, 0x05, 0xb9, 0x74, 0xb1, 0x08, 0x61, 0x9a]"
definition EFI_SERIAL_IO_PROTOCOL_GUID :: "u8 list" where
  "EFI_SERIAL_IO_PROTOCOL_GUID = EFI_GUID_INIT 0xBB25CF6F 0xF1D4 0x11D2
     [0x9A, 0x0C, 0x00, 0x90, 0x27, 0x3F, 0xC1, 0xFD]"
definition EFI_SHELL_APP_GUID :: "u8 list" where
  "EFI_SHELL_APP_GUID = EFI_GUID_INIT 0x7C04A583 0x9E3E 0x4F1C
     [0xAD, 0x65, 0xE0, 0x52, 0x68, 0xD0, 0xB4, 0xD1]"
definition EFI_FILE_INFO_GUID :: "u8 list" where
  "EFI_FILE_INFO_GUID = EFI_GUID_INIT 0x09576e92 0x6d3f 0x11d2
     [0x8e, 0x39, 0x00, 0xa0, 0xc9, 0x69, 0x72, 0x3b]"
definition EFI_BLOCK_IO_PROTOCOL_GUID :: "u8 list" where
  "EFI_BLOCK_IO_PROTOCOL_GUID = EFI_GUID_INIT 0x964e5b21 0x6459 0x11d2
     [0x8e, 0x39, 0x00, 0xa0, 0xc9, 0x69, 0x72, 0x3b]"
definition EFI_DISK_IO_PROTOCOL_GUID :: "u8 list" where
  "EFI_DISK_IO_PROTOCOL_GUID = EFI_GUID_INIT 0xce345171 0xba0b 0x11d2
     [0x8e, 0x4f, 0x00, 0xa0, 0xc9, 0x69, 0x72, 0x3b]"
definition EFI_DEVICE_PATH_PROTOCOL_GUID :: "u8 list" where
  "EFI_DEVICE_PATH_PROTOCOL_GUID = EFI_GUID_INIT 0x09576e91 0x6d3f 0x11d2
     [0x8e, 0x39, 0x00, 0xa0, 0xc9, 0x69, 0x72, 0x3b]"
definition ACPI_20_TABLE_GUID_bytes :: "u8 list" where
  "ACPI_20_TABLE_GUID_bytes = EFI_GUID_INIT 0x8868e871 0xe4f1 0x11d3
     [0xbc, 0x22, 0x00, 0x80, 0xc7, 0x3c, 0x88, 0x81]"
definition EFI_GLOBAL_VARIABLE_GUID :: "u8 list" where
  "EFI_GLOBAL_VARIABLE_GUID = EFI_GUID_INIT 0x8be4df61 0x93ca 0x11d2
     [0xaa, 0x0d, 0x00, 0xe0, 0x98, 0x03, 0x2b, 0x8c]"
definition SAKURU_VENDOR_GUID :: "u8 list" where
  "SAKURU_VENDOR_GUID = EFI_GUID_INIT 0xc1a55b20 0x7f4a 0x11ef
     [0x8a, 0x2b, 0x08, 0x00, 0x20, 0x0c, 0x9a, 0x66]"

text \<open>The block protocol as \<^verbatim>\<open>uefi_main\<close> writes it out in its LUKS branch.\<close>

definition bio_guid :: "u8 list" where
  "bio_guid = EFI_GUID_INIT 0x964e5b21 0x6459 0x11d2 [0x8e, 0x39, 0x00, 0xa0, 0xc9, 0x69, 0x72, 0x3b]"

definition known_guids :: "u8 list list" where
  "known_guids = [EFI_LOADED_IMAGE_PROTOCOL_GUID, EFI_SIMPLE_FILE_SYSTEM_PROTOCOL_GUID,
     EFI_GRAPHICS_OUTPUT_PROTOCOL_GUID, EFI_FIRMWARE_VOLUME2_PROTOCOL_GUID,
     EFI_SERIAL_IO_PROTOCOL_GUID, EFI_SHELL_APP_GUID, EFI_FILE_INFO_GUID,
     EFI_BLOCK_IO_PROTOCOL_GUID, EFI_DISK_IO_PROTOCOL_GUID, EFI_DEVICE_PATH_PROTOCOL_GUID,
     ACPI_20_TABLE_GUID_bytes, EFI_GLOBAL_VARIABLE_GUID, SAKURU_VENDOR_GUID]"

lemmas guid_defs = EFI_GUID_INIT_def u32_le_def EFI_LOADED_IMAGE_PROTOCOL_GUID_def
  EFI_SIMPLE_FILE_SYSTEM_PROTOCOL_GUID_def EFI_GRAPHICS_OUTPUT_PROTOCOL_GUID_def
  EFI_FIRMWARE_VOLUME2_PROTOCOL_GUID_def EFI_SERIAL_IO_PROTOCOL_GUID_def EFI_SHELL_APP_GUID_def
  EFI_FILE_INFO_GUID_def EFI_BLOCK_IO_PROTOCOL_GUID_def EFI_DISK_IO_PROTOCOL_GUID_def
  EFI_DEVICE_PATH_PROTOCOL_GUID_def ACPI_20_TABLE_GUID_bytes_def EFI_GLOBAL_VARIABLE_GUID_def
  SAKURU_VENDOR_GUID_def

lemma guid_members:
  assumes "length d = 8"
  shows "u32_of_le (c_member EFI_GUID ''Data1'' (EFI_GUID_INIT a b c d)) = a"
    and "u16_of_le (c_member EFI_GUID ''Data2'' (EFI_GUID_INIT a b c d)) = b"
    and "u16_of_le (c_member EFI_GUID ''Data3'' (EFI_GUID_INIT a b c d)) = c"
    and "c_member EFI_GUID ''Data4'' (EFI_GUID_INIT a b c d) = d"
    and "length (EFI_GUID_INIT a b c d) = csize EFI_GUID"
proof -
  have u16: "ucast (ucast x :: u8) OR push_bit 8 (ucast (ucast (drop_bit 8 x) :: u8)) = (x :: u16)" for x
    by (rule bit_word_eqI) (auto simp: bit_simps)
  show "u32_of_le (c_member EFI_GUID ''Data1'' (EFI_GUID_INIT a b c d)) = a"
    using u32_of_le_u32_le[of a] by (simp add: layout_eval EFI_GUID_def EFI_GUID_INIT_def slice_def u32_le_def u32_of_le_def)
  show "u16_of_le (c_member EFI_GUID ''Data2'' (EFI_GUID_INIT a b c d)) = b"
    and "u16_of_le (c_member EFI_GUID ''Data3'' (EFI_GUID_INIT a b c d)) = c"
    and "c_member EFI_GUID ''Data4'' (EFI_GUID_INIT a b c d) = d"
    and "length (EFI_GUID_INIT a b c d) = csize EFI_GUID"
    using assms by (simp_all add: layout_eval EFI_GUID_def EFI_GUID_INIT_def slice_def u32_le_def u16_of_le_def u16)
qed

text \<open>No two identifiers agree, the copy is the one of \<^verbatim>\<open>efi.h\<close>, and the ACPI table is told apart by three fields.\<close>

lemma guids_distinct: "distinct known_guids"
  by (simp add: known_guids_def guid_defs)

lemma bio_guid_block_io: "bio_guid = EFI_BLOCK_IO_PROTOCOL_GUID"
  by (simp add: bio_guid_def EFI_BLOCK_IO_PROTOCOL_GUID_def)

lemma acpi_guid3: "ACPI_20_TABLE_GUID = (u32_of_le (c_member EFI_GUID ''Data1'' ACPI_20_TABLE_GUID_bytes),
   u16_of_le (c_member EFI_GUID ''Data2'' ACPI_20_TABLE_GUID_bytes),
   u16_of_le (c_member EFI_GUID ''Data3'' ACPI_20_TABLE_GUID_bytes))"
  unfolding ACPI_20_TABLE_GUID_bytes_def by (simp only: guid_members list.size) (simp add: guid_members ACPI_20_TABLE_GUID_def)

section \<open>Status codes, enumerations and pages\<close>

definition EFI_INVALID_PARAMETER :: u64 where "EFI_INVALID_PARAMETER = EFI_ERR 2"
definition EFI_UNSUPPORTED :: u64 where "EFI_UNSUPPORTED = EFI_ERR 3"
definition EFI_BAD_BUFFER_SIZE :: u64 where "EFI_BAD_BUFFER_SIZE = EFI_ERR 4"
definition EFI_BUFFER_TOO_SMALL :: u64 where "EFI_BUFFER_TOO_SMALL = EFI_ERR 5"
definition EFI_NOT_READY :: u64 where "EFI_NOT_READY = EFI_ERR 6"
definition EFI_DEVICE_ERROR :: u64 where "EFI_DEVICE_ERROR = EFI_ERR 7"
definition EFI_WRITE_PROTECTED :: u64 where "EFI_WRITE_PROTECTED = EFI_ERR 8"
definition EFI_TIMEOUT :: u64 where "EFI_TIMEOUT = EFI_ERR 18"
definition EFI_ABORTED :: u64 where "EFI_ABORTED = EFI_ERR 21"
definition EFI_SECURITY_VIOLATION :: u64 where "EFI_SECURITY_VIOLATION = EFI_ERR 26"

definition efi_errors :: "u64 list" where
  "efi_errors = [EFI_LOAD_ERROR, EFI_INVALID_PARAMETER, EFI_UNSUPPORTED, EFI_BAD_BUFFER_SIZE, EFI_BUFFER_TOO_SMALL,
     EFI_NOT_READY, EFI_DEVICE_ERROR, EFI_WRITE_PROTECTED, EFI_OUT_OF_RESOURCES, EFI_NOT_FOUND, EFI_ACCESS_DENIED,
     EFI_TIMEOUT, EFI_ABORTED, EFI_SECURITY_VIOLATION]"

lemmas error_defs = EFI_INVALID_PARAMETER_def EFI_UNSUPPORTED_def EFI_BAD_BUFFER_SIZE_def EFI_BUFFER_TOO_SMALL_def
  EFI_NOT_READY_def EFI_DEVICE_ERROR_def EFI_WRITE_PROTECTED_def EFI_TIMEOUT_def EFI_ABORTED_def
  EFI_SECURITY_VIOLATION_def

text \<open>\<^verbatim>\<open>EFI_ERROR\<close> holds of every code \<^verbatim>\<open>EFI_ERR\<close> can build.\<close>

lemma EFI_ERR_error: "EFI_ERROR (EFI_ERR x)"
proof -
  have "bit (EFI_ERR x) 63" by (simp add: EFI_ERR_def bit_or_iff bit_1_iff)
  then show ?thesis using bit_last_iff[of "EFI_ERR x"] by (simp add: EFI_ERROR_def)
qed

lemma efi_errors_ok: "list_all EFI_ERROR efi_errors" "distinct efi_errors"
  by (simp_all add: efi_errors_def error_defs efi_codes EFI_ERROR_def)

text \<open>The enumerations, by the position of their values in the declaration.\<close>

datatype EFI_MEMORY_TYPE = EfiReservedMemoryType | EfiLoaderCode | EfiLoaderData | EfiBootServicesCode
  | EfiBootServicesData | EfiRuntimeServicesCode | EfiRuntimeServicesData | EfiConventionalMemory
  | EfiUnusableMemory | EfiACPIReclaimMemory | EfiACPIMemoryNVS | EfiMemoryMappedIO
  | EfiMemoryMappedIOPortSpace | EfiPalCode | EfiPersistentMemory | EfiMaxMemoryType

fun memory_type :: "EFI_MEMORY_TYPE \<Rightarrow> u32" where
  "memory_type EfiReservedMemoryType = 0"
| "memory_type EfiLoaderCode = 1"
| "memory_type EfiLoaderData = 2"
| "memory_type EfiBootServicesCode = 3"
| "memory_type EfiBootServicesData = 4"
| "memory_type EfiRuntimeServicesCode = 5"
| "memory_type EfiRuntimeServicesData = 6"
| "memory_type EfiConventionalMemory = 7"
| "memory_type EfiUnusableMemory = 8"
| "memory_type EfiACPIReclaimMemory = 9"
| "memory_type EfiACPIMemoryNVS = 10"
| "memory_type EfiMemoryMappedIO = 11"
| "memory_type EfiMemoryMappedIOPortSpace = 12"
| "memory_type EfiPalCode = 13"
| "memory_type EfiPersistentMemory = 14"
| "memory_type EfiMaxMemoryType = 15"

lemma memory_type_inj: "memory_type s = memory_type t \<longleftrightarrow> s = t"
  by (cases s; cases t) simp_all

definition EFI_PAGE_SIZE :: u64 where "EFI_PAGE_SIZE = 4096"

definition EFI_SIZE_TO_PAGES :: "u64 \<Rightarrow> u64" where
  "EFI_SIZE_TO_PAGES s = (s + EFI_PAGE_SIZE - 1) div EFI_PAGE_SIZE"

text \<open>
  The ViOS loader rounds the size of a segment up to pages by a shift, as the macro does, and the pages
  hold the segment unless its size is within a page of \<open>2 ^ 64\<close>.
\<close>

lemma segment_pages_macro:
  "segment_pages ph = (if loadable ph then [(p_paddr ph, EFI_SIZE_TO_PAGES (p_memsz ph))] else [])"
  by (simp add: segment_pages_def EFI_SIZE_TO_PAGES_def EFI_PAGE_SIZE_def drop_bit_eq_div add.commute)

lemma size_to_pages_holds:
  assumes "unat s + 4095 < 2 ^ 64"
  shows "unat s \<le> unat (EFI_SIZE_TO_PAGES s) * 4096" and "unat (EFI_SIZE_TO_PAGES s) * 4096 < unat s + 4096"
proof -
  have "s + EFI_PAGE_SIZE - 1 = s + 4095" by (simp add: EFI_PAGE_SIZE_def)
  moreover have "unat (s + 4095) = unat s + 4095" using assms by (simp add: unat_word_ariths)
  moreover have "unat EFI_PAGE_SIZE = 4096" by (simp add: EFI_PAGE_SIZE_def)
  ultimately have "unat (EFI_SIZE_TO_PAGES s) = (unat s + 4095) div 4096"
    by (simp only: EFI_SIZE_TO_PAGES_def unat_div)
  then show "unat s \<le> unat (EFI_SIZE_TO_PAGES s) * 4096" and "unat (EFI_SIZE_TO_PAGES s) * 4096 < unat s + 4096"
    by linarith+
qed
section \<open>Properties\<close>




end
