(* ===== verification/Handoff.thy ===== *)
theory Handoff
  imports Uefi_Main
begin

text \<open>
  The last step of a boot: the \<^verbatim>\<open>boot\<close> functions of the OS loaders (\<^verbatim>\<open>linux.c\<close>, \<^verbatim>\<open>vios.c\<close>, \<^verbatim>\<open>windows.c\<close>), which
  load registers in inline assembly and jump.  An assembly block is a list of instructions run on the general
  registers; the register the compiler picks for an operand with constraint \<^verbatim>\<open>"r"\<close> is a parameter.
  Far transfers follow the processor: in protected mode the selector must name a code segment, and the null
  selector raises a general protection fault.  The AArch64 branches are calls with arguments in registers.
\<close>

section \<open>Registers and instructions\<close>

datatype reg = RAX | RBX | RCX | RDX | RSI | RDI | RBP | RSP | R8 | R9 | R10 | R11 | R12 | R13 | R14 | R15

record cpu =
  regs :: "reg \<Rightarrow> u64"
  pushed :: "u64 list"
  protected :: bool
  code_segment :: "u16 \<Rightarrow> bool"

datatype instr =
    Xor reg reg
  | MovImm u64 reg
  | Mov reg reg
  | MovB reg reg
  | PushImm u64
  | Jmp reg
  | LRetQ
  | LJmp u16 u64

datatype outcome = Runs cpu | Jumps u64 cpu | ProtectionFault

definition set_reg :: "reg \<Rightarrow> u64 \<Rightarrow> cpu \<Rightarrow> cpu" where
  "set_reg r v c = c\<lparr> regs := (regs c)(r := v) \<rparr>"

definition far_transfer :: "u16 \<Rightarrow> u64 \<Rightarrow> cpu \<Rightarrow> outcome" where
  "far_transfer sel off c =
     (if protected c
      then if sel AND 0xFFFC = 0 \<or> \<not> code_segment c sel then ProtectionFault else Jumps off c
      else Jumps (ucast sel * 16 + off) c)"

text \<open>The second operand is the destination, as in the source; \<open>LRetQ\<close> pops the offset, then the selector.\<close>

fun step :: "instr \<Rightarrow> cpu \<Rightarrow> outcome" where
  "step (Xor s d) c = Runs (set_reg d (regs c d XOR regs c s) c)"
| "step (MovImm v d) c = Runs (set_reg d v c)"
| "step (Mov s d) c = Runs (set_reg d (regs c s) c)"
| "step (MovB s d) c = Runs (set_reg d ((regs c d AND NOT 0xFF) OR (regs c s AND 0xFF)) c)"
| "step (PushImm v) c = Runs (c\<lparr> pushed := v # pushed c \<rparr>)"
| "step (Jmp r) c = Jumps (regs c r) c"
| "step LRetQ c =
     (case pushed c of
        off # sel # st \<Rightarrow> far_transfer (ucast sel) off (c\<lparr> pushed := st \<rparr>)
      | _ \<Rightarrow> ProtectionFault)"
| "step (LJmp sel off) c = far_transfer sel off c"

fun run_block :: "instr list \<Rightarrow> cpu \<Rightarrow> outcome" where
  "run_block [] c = Runs c"
| "run_block (i # is) c = (case step i c of Runs c \<Rightarrow> run_block is c | res \<Rightarrow> res)"

lemma regs_set_reg [simp]: "regs (set_reg r v c) = (regs c)(r := v)"
  and pushed_set_reg [simp]: "pushed (set_reg r v c) = pushed c"
  and protected_set_reg [simp]: "protected (set_reg r v c) = protected c"
  and code_segment_set_reg [simp]: "code_segment (set_reg r v c) = code_segment c"
  by (simp_all add: set_reg_def)

section \<open>The boot functions\<close>

text \<open>\<open>r\<close> is the register that holds \<^verbatim>\<open>ep\<close> when the block begins.\<close>

definition linux_boot_asm :: "reg \<Rightarrow> instr list" where
  "linux_boot_asm r = [Xor RAX RAX, Xor RBX RBX, Xor RCX RCX, Xor RDX RDX, Xor RDI RDI,
     MovImm 0x90000 RSI, Jmp r]"

definition linux_boot :: "reg \<Rightarrow> u64 \<Rightarrow> cpu \<Rightarrow> outcome" where
  "linux_boot r ep c = run_block (linux_boot_asm r) (set_reg r ep c)"

text \<open>The entry point is in RAX; \<open>r\<close> holds the pointer to the boot information.\<close>

definition vios_boot :: "reg \<Rightarrow> u64 \<Rightarrow> u64 \<Rightarrow> cpu \<Rightarrow> outcome" where
  "vios_boot r ep info c = run_block [Mov r RDI, Jmp RAX] (set_reg r info (set_reg RAX ep c))"

text \<open>\<open>r\<close> holds the boot drive.\<close>

definition windows_boot :: "build \<Rightarrow> reg \<Rightarrow> u8 \<Rightarrow> cpu \<Rightarrow> outcome" where
  "windows_boot b r drive c =
     run_block (case b of LongMode \<Rightarrow> [MovB r RDX, PushImm 0, PushImm 0x7C00, LRetQ]
                        | RealMode \<Rightarrow> [MovB r RDX, LJmp 0 0x7C00])
       (set_reg r (ucast drive) c)"

text \<open>AArch64: a call passes its arguments in X0 to X3; the registers are a function of their number.\<close>

definition aapcs_call :: "u64 \<Rightarrow> u64 list \<Rightarrow> (nat \<Rightarrow> u64) \<Rightarrow> u64 \<times> (nat \<Rightarrow> u64)" where
  "aapcs_call ep args x = (ep, \<lambda>i. if i < length args then args ! i else x i)"

definition linux_boot_aarch64 :: "u64 \<Rightarrow> (nat \<Rightarrow> u64) \<Rightarrow> u64 \<times> (nat \<Rightarrow> u64)" where
  "linux_boot_aarch64 ep x = aapcs_call ep [0, 0, 0, 0] x"

definition vios_boot_aarch64 :: "u64 \<Rightarrow> u64 \<Rightarrow> (nat \<Rightarrow> u64) \<Rightarrow> u64 \<times> (nat \<Rightarrow> u64)" where
  "vios_boot_aarch64 ep info x = aapcs_call ep [info] x"

text \<open>\<^verbatim>\<open>loader->boot\<close> of the registry in the BIOS edition.\<close>

fun loader_boot :: "disk \<Rightarrow> OSLoader \<Rightarrow> reg \<Rightarrow> u64 \<Rightarrow> u64 \<Rightarrow> cpu \<Rightarrow> outcome" where
  "loader_boot dk vios_loader r ep info c = vios_boot r ep info c"
| "loader_boot dk linux_loader r ep info c = linux_boot r ep c"
| "loader_boot dk windows_loader r ep info c = windows_boot (dk_build dk) r (disk_drive dk) c"

text \<open>The entry point of the UEFI application calls \<^verbatim>\<open>uefi_main\<close>, on both machines.\<close>

definition efi_main ::
    "'s uefi_env \<Rightarrow> luks_env \<Rightarrow> BootConfig \<Rightarrow> (nat \<Rightarrow> EFI_INPUT_KEY option) list \<Rightarrow> 's \<Rightarrow> (uefi_result \<times> 's) option" where
  "efi_main env lx config keys s = uefi_main env lx config keys s"

section \<open>Where they jump\<close>

lemma linux_boot_run:
  "linux_boot r ep c =
     Jumps (if r \<in> {RAX, RBX, RCX, RDX, RDI} then 0 else if r = RSI then 0x90000 else ep)
       (c\<lparr> regs := (regs c)(r := ep, RAX := 0, RBX := 0, RCX := 0, RDX := 0, RDI := 0, RSI := 0x90000) \<rparr>)"
  by (simp add: linux_boot_def linux_boot_asm_def set_reg_def fun_upd_def)

lemma vios_boot_run:
  assumes "r \<noteq> RAX"
  shows "vios_boot r ep info c = Jumps ep (c\<lparr> regs := (regs c)(RAX := ep, r := info, RDI := info) \<rparr>)"
  using assms by (simp add: vios_boot_def set_reg_def)

lemma windows_boot_faults: "protected c \<Longrightarrow> windows_boot b r drive c = ProtectionFault"
  by (cases b) (simp_all add: windows_boot_def far_transfer_def set_reg_def)

lemma windows_boot_real:
  assumes "\<not> protected c" and "r \<noteq> RDX"
  shows "\<exists>c'. windows_boot RealMode r drive c = Jumps 0x7C00 c' \<and> regs c' RDX AND 0xFF = ucast drive"
proof -
  have "(regs c RDX AND NOT 0xFF OR ucast drive AND 0xFF) AND 0xFF = (ucast drive :: u64)"
  proof (rule bit_word_eqI)
    fix n
    have m: "(0xFF :: u64) = mask 8" by (simp add: mask_eq_exp_minus_1)
    show "bit ((regs c RDX AND NOT 0xFF OR ucast drive AND 0xFF) AND 0xFF) n = bit (ucast drive :: u64) n"
      unfolding m bit_and_iff bit_or_iff bit_not_iff bit_mask_iff bit_unsigned_iff
      using bit_imp_le_length[of drive n] by auto
  qed
  then show ?thesis using assms by (simp add: windows_boot_def far_transfer_def set_reg_def)
qed

section \<open>Properties\<close>

lemma linux_load_entry:
  "linux_load dk stk kbuf ibuf e info sm = Some (ep, info', st, m) \<Longrightarrow> ep \<noteq> 0 \<Longrightarrow> ep = KERNEL_ADDR + 0x200"
  by (auto simp: linux_load_def bind_eq_Some_conv split: option.splits if_splits)

lemma boot_entry_loads:
  assumes "boot_entry env dk entry s = Some (Booting loader e ep info, s')"
  obtains st m st' m' where "loader_load env dk loader entry zero_info (st, m) = Some (ep, info, st', m')" and "ep \<noteq> 0"
  using assms by (auto simp: boot_entry_def halt_def bind_eq_Some_conv split: option.splits if_splits prod.splits)


lemma load_os_vios: "load_os env l entry info ctx vols = Some (Handover ep info' pages m) \<Longrightarrow> l = vios_loader"
  by (cases l) (auto simp: Let_def started_def bind_eq_Some_conv split: if_splits option.splits)

lemma win_booted:
  "\<exists>s s'. boot_entry win_env (ev_disk win_env) (zero_entry\<lparr> be_type := OS_TYPE_WINDOWS \<rparr>) s
     = Some (Booting windows_loader (zero_entry\<lparr> be_type := OS_TYPE_WINDOWS \<rparr>) 0x7C00 zero_info, s')"
proof -
  let ?e = "zero_entry\<lparr> be_type := OS_TYPE_WINDOWS \<rparr>"
  obtain v1 where v1: "vga_puts (CRLF @ ''Loading: '') blank_vga = Some v1" "vga_ok v1" using vga_puts_ok[OF blank_vga_ok] by blast
  obtain v2 where v2: "vga_puts (be_name ?e) v1 = Some v2" "vga_ok v2" using vga_puts_ok[OF v1(2)] by blast
  obtain v3 where v3: "vga_puts CRLF v2 = Some v3" using vga_puts_ok[OF v2(2)] by blast
  obtain m' where m': "windows_load (ev_disk win_env) (ev_win_mbr win_env) (ev_win_vbr win_env) (\<lambda>_. 0) = Some (0x7C00, m')"
    using win_load by blast
  have "boot_entry win_env (ev_disk win_env) ?e (blank_vga, small_fat, \<lambda>_. 0)
      = Some (Booting windows_loader ?e 0x7C00 zero_info, v3, small_fat, m')"
    unfolding boot_entry_def using v1(1) v2(1) v3 m' by (simp add: find_loader_type)
  then show ?thesis by blast
qed

definition long_mode_cpu :: cpu where
  "long_mode_cpu = \<lparr> regs = (\<lambda>_. 0), pushed = [], protected = True, code_segment = (\<lambda>sel. sel = 8) \<rparr>"




end
