(* ===== verification/Unit_Tests.thy ===== *)
theory Unit_Tests
  imports Uefi_Boot
begin

text \<open>
  The unit tests of the configuration parser (\<^verbatim>\<open>src/tests/unit/test_config.c\<close>) as definitions on the model:
  each test parses its text into a table with \<^verbatim>\<open>num_entries\<close> 0 and compares fields, and all of them are proved to pass.
  The header builder of \<^verbatim>\<open>src/tests/unit/test_luks.c\<close> is translated too; that test file checks its own
  constants only, and two of them are not those of the code.  Of \<^verbatim>\<open>src/tests/unit/test_crypto.c\<close> the digest of the
  empty message and the AES round trips are here; evaluating the other vectors in the logic takes too long.
\<close>

section \<open>Configuration tests\<close>

definition lines :: "string list \<Rightarrow> string" where
  "lines ls = concat (map (\<lambda>l. l @ [LF]) ls)"

abbreviation parsed :: "string list \<Rightarrow> BootConfig" where
  "parsed ls \<equiv> snd (config_parse (lines ls) empty_config)"

abbreviation entry0 :: "BootConfig \<Rightarrow> BootEntry" where
  "entry0 bc \<equiv> bc_entries bc ! 0"

definition GlobalTimeout :: bool where
  "GlobalTimeout \<longleftrightarrow> bc_timeout (parsed [''timeout = 10'']) = 10"

definition GlobalDefault :: bool where
  "GlobalDefault \<longleftrightarrow>
     (let bc = parsed [''timeout = 3'', ''default = 2'', ''[entry:A]'', ''type=linux'', ''kernel=/vmlinuz'',
        ''[entry:B]'', ''type=linux'', ''kernel=/vmlinuz'', ''[entry:C]'', ''type=linux'', ''kernel=/vmlinuz'']
      in bc_default_entry bc = 2 \<and> bc_num_entries bc = 3)"

definition DefaultClamped :: bool where
  "DefaultClamped \<longleftrightarrow>
     bc_default_entry (parsed [''default = 99'', ''[entry:Only]'', ''type=linux'', ''kernel=/vmlinuz'']) = 0"

definition ThemeAndAccentColors :: bool where
  "ThemeAndAccentColors \<longleftrightarrow>
     (let bc = parsed [''theme = blue'', ''accent = yellow'', ''[entry:X]'', ''type=linux'', ''kernel=/vmlinuz'']
      in bc_theme_color bc = 1 \<and> bc_accent_color bc = 14)"

definition LinuxEntryParsed :: bool where
  "LinuxEntryParsed \<longleftrightarrow>
     (let (r, bc) = config_parse (lines [''[entry:Arch]'', ''type    = linux'', ''kernel  = /vmlinuz-linux'',
            ''initrd  = /initramfs-linux.img'', ''cmdline = root=/dev/sda2 rw quiet'']) empty_config;
          e = entry0 bc
      in r = 0 \<and> bc_num_entries bc = 1 \<and> str_eq (be_name e) ''Arch'' \<and> str_eq (be_kernel e) ''/vmlinuz-linux'' \<and>
         str_eq (be_initrd e) ''/initramfs-linux.img'' \<and> str_eq (be_cmdline e) ''root=/dev/sda2 rw quiet'' \<and>
         be_type e = OS_TYPE_LINUX)"

definition WindowsEntryParsed :: bool where
  "WindowsEntryParsed \<longleftrightarrow>
     (let bc = parsed [''[entry:Windows 11]'', ''type = windows'']
      in bc_num_entries bc = 1 \<and> be_type (entry0 bc) = OS_TYPE_WINDOWS)"

text \<open>The record is used again by each parse, with \<^verbatim>\<open>num_entries\<close> reset.\<close>

definition parse_again :: "BootConfig \<Rightarrow> string \<Rightarrow> BootConfig" where
  "parse_again bc enc = snd (config_parse (lines [''[entry:A]'', ''type=linux'', ''kernel=/k'', ''encrypted='' @ enc])
     (bc\<lparr> bc_num_entries := 0 \<rparr>))"

definition EncryptedBoolVariants :: bool where
  "EncryptedBoolVariants \<longleftrightarrow>
     (let b1 = parse_again empty_config ''yes''; b2 = parse_again b1 ''1''; b3 = parse_again b2 ''true'';
          b4 = parse_again b3 ''no''
      in be_encrypted (entry0 b1) = 1 \<and> be_encrypted (entry0 b2) = 1 \<and> be_encrypted (entry0 b3) = 1 \<and>
         be_encrypted (entry0 b4) = 0)"

definition LuksTries :: bool where
  "LuksTries \<longleftrightarrow>
     be_luks_tries (entry0 (parsed [''[entry:A]'', ''type=linux'', ''kernel=/k'', ''encrypted=yes'', ''luks_tries=7''])) = 7"

definition LuksTriesDefaultIsThree :: bool where
  "LuksTriesDefaultIsThree \<longleftrightarrow> be_luks_tries (entry0 (parsed [''[entry:A]'', ''type=linux'', ''kernel=/k''])) = 3"

definition ParseTypeStrings :: bool where
  "ParseTypeStrings \<longleftrightarrow> map config_parse_type [''linux'', ''elf64'', ''multiboot2'', ''windows'', ''bogus'', []]
     = [OS_TYPE_LINUX, OS_TYPE_ELF64, OS_TYPE_MULTIBOOT2, OS_TYPE_WINDOWS, OS_TYPE_UNKNOWN, OS_TYPE_UNKNOWN]"

definition ColorNames :: bool where
  "ColorNames \<longleftrightarrow>
     map config_parse_color [''black'', ''blue'', ''cyan'', ''magenta'', ''yellow'', ''white'', ''notacolor'']
       = [0, 1, 3, 5, 14, 15, - 1]"

definition GuessTypeFromFilename :: bool where
  "GuessTypeFromFilename \<longleftrightarrow>
     map config_guess_type [''vmlinuz'', ''vmlinuz-6.12'', ''bzImage'', ''kernel.elf'', ''bootmgfw.efi'', ''bootmgr.efi'',
         ''random.bin'']
       = [OS_TYPE_LINUX, OS_TYPE_LINUX, OS_TYPE_LINUX, OS_TYPE_ELF64, OS_TYPE_WINDOWS, OS_TYPE_WINDOWS, OS_TYPE_UNKNOWN]"

definition MakeNameLinux :: bool where
  "MakeNameLinux \<longleftrightarrow> str_eq (config_make_name ''/boot'' ''vmlinuz'' OS_TYPE_LINUX 64) ''Linux''"

definition MakeNameLinuxVersion :: bool where
  "MakeNameLinuxVersion \<longleftrightarrow> str_eq (config_make_name ''/boot'' ''vmlinuz-6.12.1'' OS_TYPE_LINUX 64) ''Linux 6.12.1''"

definition MakeNameWindows :: bool where
  "MakeNameWindows \<longleftrightarrow> str_eq (config_make_name ''/EFI/Microsoft/Boot'' ''bootmgfw.efi'' OS_TYPE_WINDOWS 64) ''Windows''"

definition EmptyConfigReturnsError :: bool where
  "EmptyConfigReturnsError \<longleftrightarrow> fst (config_parse [] empty_config) = - 1"

definition CommentsIgnored :: bool where
  "CommentsIgnored \<longleftrightarrow>
     (let bc = parsed [''; this is a comment'', ''# also a comment'', ''[entry:Test]'', ''; kernel = /wrong'', ''type=linux'',
        ''kernel=/correct'']
      in bc_num_entries bc = 1 \<and> str_eq (be_kernel (entry0 bc)) ''/correct'')"

definition decimal :: "nat \<Rightarrow> string" where
  "decimal i = (if i < 10 then [] else [char_of (48 + i div 10)]) @ [char_of (48 + i mod 10)]"

definition MaxEntries :: bool where
  "MaxEntries \<longleftrightarrow>
     bc_num_entries (parsed (concat (map (\<lambda>i. [''[entry:E'' @ decimal i @ '']'', ''type=linux'', ''kernel=/k'' @ decimal i])
       [0..<MAX_ENTRIES + 2]))) = of_nat MAX_ENTRIES"

definition MergePreservesGlobals :: bool where
  "MergePreservesGlobals \<longleftrightarrow>
     (let bc = parsed [''timeout = 8'', ''[entry:A]'', ''type=linux'', ''kernel=/a''];
          bc = snd (config_parse_merge (lines [''timeout = 99'', ''[entry:B]'', ''type=linux'', ''kernel=/b'']) bc)
      in bc_timeout bc = 8 \<and> bc_num_entries bc = 2)"

section \<open>All of them pass\<close>

lemma parser_tests:
  "GlobalTimeout" "GlobalDefault" "DefaultClamped" "ThemeAndAccentColors" "LinuxEntryParsed" "WindowsEntryParsed"
  "EncryptedBoolVariants" "LuksTries" "LuksTriesDefaultIsThree" "CommentsIgnored" "MergePreservesGlobals"
  by code_simp+

lemma max_entries_test: "MaxEntries"
  by code_simp

lemma string_tests:
  "ParseTypeStrings" "ColorNames" "GuessTypeFromFilename" "MakeNameLinux" "MakeNameLinuxVersion" "MakeNameWindows"
  "EmptyConfigReturnsError"
  by code_simp+
section \<open>The LUKS1 header of the tests\<close>

definition ascii_bytes :: "string \<Rightarrow> u8 list" where
  "ascii_bytes s = map (\<lambda>c. of_nat (ord c)) s"

definition be32_bytes :: "u32 \<Rightarrow> u8 list" where
  "be32_bytes v = [ucast (drop_bit 24 v), ucast (drop_bit 16 v), ucast (drop_bit 8 v), ucast v]"

definition make_luks1_header :: "string \<Rightarrow> string \<Rightarrow> string \<Rightarrow> u32 \<Rightarrow> u8 list" where
  "make_luks1_header cipher_name cipher_mode hash_spec key_bytes =
     fold (\<lambda>(off, bs) h. write_at h off bs)
       [(0, ascii_bytes ''LUKS'' @ [0xBA, 0xBE]), (6, [0x00]), (7, [0x01]),
        (8, ascii_bytes (take 31 cipher_name)), (40, ascii_bytes (take 31 cipher_mode)),
        (72, ascii_bytes (take 31 hash_spec)), (104, be32_bytes 4096), (108, be32_bytes key_bytes),
        (152, be32_bytes 1000), (156, ascii_bytes ''test-uuid-0000-0000-0000-000000000000''),
        (208, be32_bytes 0x00AC71F3), (212, be32_bytes 2000), (252, be32_bytes 4000)]
       (replicate 4096 0)"

definition sample_luks1 :: "u8 list" where
  "sample_luks1 = make_luks1_header ''aes'' ''xts-plain64'' ''sha256'' 32"

text \<open>
  The structure has the digest iterations at byte 164, not 152: what the loader reads of this header as their number is
  a part of the identifier.
\<close>

lemma sample_luks1_fields:
  "h1_payload_offset sample_luks1 = 4096" "h1_key_bytes sample_luks1 = 32" "h1_mk_digest_iter sample_luks1 = 0x642D3030"
  "ks_active sample_luks1 0 = LUKS1_KEY_ENABLED" "ks_iterations sample_luks1 0 = 2000" "ks_stripes sample_luks1 0 = 4000"
  by (simp_all add: sample_luks1_def make_luks1_header_def ascii_bytes_def be32_bytes_def write_at_def h1_payload_offset_def
    h1_key_bytes_def h1_mk_digest_iter_def ks_active_def ks_iterations_def ks_stripes_def be32r_def LUKS1_KEY_ENABLED_def)

text \<open>The copy of the mode table in the tests, numbered from 0.\<close>

definition test_cipher_mode_id :: "string \<Rightarrow> int" where
  "test_cipher_mode_id spec =
     (if strpfx spec ''xts'' then 0
      else if strpfx spec ''cbc-essiv'' then 3
      else if strpfx spec ''cbc-plain64'' then 2
      else if strpfx spec ''cbc-plain'' then 1
      else - 1)"

lemma cipher_mode_tests:
  "map test_cipher_mode_id [''xts-plain64'', ''xts'', ''cbc-plain'', ''cbc-plain64'', ''cbc-essiv:sha256'', ''ecb'', []]
     = [0, 0, 1, 2, 3, - 1, - 1]"
  by code_simp

lemma cipher_mode_copy:
  "cipher_mode_id spec = (if test_cipher_mode_id spec < 0 then CIPHER_XTS else test_cipher_mode_id spec + 1)"
  by (simp add: cipher_mode_id_def test_cipher_mode_id_def cipher_ids)

definition LUKS2_MAGIC_BYTES :: "u8 list" where
  "LUKS2_MAGIC_BYTES = ascii_bytes ''LUKS'' @ [0xBA, 0xBF]"

lemma luks2_test_magic: "\<not> luks2_probe (LUKS2_MAGIC_BYTES @ rest)" "\<not> luks1_probe (LUKS2_MAGIC_BYTES @ rest)"
  by (simp_all add: luks2_probe_def luks1_probe_def LUKS2_MAGIC_BYTES_def ascii_bytes_def)

section \<open>Tests of the cryptography\<close>

text \<open>\<^verbatim>\<open>hex2bin\<close> reads two digits per byte; the vectors are in lower case.\<close>

definition hex_value :: "char \<Rightarrow> u8" where
  "hex_value c = (let n = ord c in of_nat (if n < 58 then n - 48 else n - 87))"

fun hex2bin :: "string \<Rightarrow> u8 list" where
  "hex2bin (a # b # cs) = (16 * hex_value a + hex_value b) # hex2bin cs"
| "hex2bin _ = []"

definition SHA256_EmptyString :: bool where
  "SHA256_EmptyString \<longleftrightarrow>
     sha256 [] = hex2bin (''e3b0c44298fc1c149afbf4c8996fb924'' @ ''27ae41e4649b934ca495991b7852b855'')"

text \<open>The published digest of the empty message, evaluated through the padding and all 64 rounds.\<close>

lemma sha256_test: "SHA256_EmptyString"
  by code_simp

definition AES128_EncryptDecryptRoundtrip :: bool where
  "AES128_EncryptDecryptRoundtrip \<longleftrightarrow>
     (let key = [0x01, 0x23, 0x45, 0x67, 0x89, 0xab, 0xcd, 0xef, 0xfe, 0xdc, 0xba, 0x98, 0x76, 0x54, 0x32, 0x10];
          plain = ascii_bytes ''SakuruBoot!1234'' @ [0];
          ct = aes_encrypt_block (aes_init_enc key 16) plain
      in aes_decrypt_block (aes_init_dec key 16) ct = plain)"

definition AES256_EncryptDecryptRoundtrip :: bool where
  "AES256_EncryptDecryptRoundtrip \<longleftrightarrow>
     (let key = map of_nat [0..<32];
          plain = [0xde, 0xad, 0xbe, 0xef, 0xca, 0xfe, 0xba, 0xbe, 0x01, 0x23, 0x45, 0x67, 0x89, 0xab, 0xcd, 0xef];
          ct = aes_encrypt_block (aes_init_enc key 32) plain
      in aes_decrypt_block (aes_init_dec key 32) ct = plain)"

lemma aes_tests: "AES128_EncryptDecryptRoundtrip" "AES256_EncryptDecryptRoundtrip"
  unfolding AES128_EncryptDecryptRoundtrip_def AES256_EncryptDecryptRoundtrip_def Let_def aes_init_dec_def
  by (rule aes_dec_enc; simp add: ascii_bytes_def)+

section \<open>Properties\<close>


end
