(* ===== verification/Spec2Isabelle.thy ===== *)
theory Spec2Isabelle
  imports Config_Print Bios Ext4_Files Uefi_Main Layout Handoff Unit_Tests
begin

text \<open>
  A verification development of SakuruBoot, a boot loader with a UEFI edition and a BIOS
  edition that share a configuration parser, a boot menu, the decryption of LUKS volumes and
  the loaders of the supported systems.

  \<^bold>\<open>How the program runs.\<close>  The edition's main function reads \<^verbatim>\<open>sakuru.cfg\<close> into a table of 16
  entries, extends the table by searching volumes for kernels and loader entry files, chooses a
  default from firmware variables, runs the menu, opens an encrypted volume with a passphrase and
  hands the chosen entry to the loader of its type, which places the kernel in memory and jumps
  to it or starts it as a firmware image.

  \<^bold>\<open>Theories and sources\<close> (paths under \<^verbatim>\<open>src/\<close>).
  \<^item> \<open>Prelude\<close>: word types of \<^verbatim>\<open>common/types.h\<close>, C strings (characters up to the first NUL),
    buffers as byte lists with in-place writes, byte order.
  \<^item> \<open>Mem\<close>: \<^verbatim>\<open>common/mem.c\<close> on a flat memory from 64-bit addresses to bytes.
  \<^item> \<open>Config\<close>, \<open>Config_Print\<close>: \<^verbatim>\<open>common/config.c\<close>.  The parser is a function from a C string and a
    configuration to a return code and a configuration; \<open>wf_config\<close> is its invariant, and the
    locale \<open>config_extender\<close> the contract of every operation that adds entries.  The printer of
    \<open>Config_Print\<close> is the specification for the round trip.
  \<^item> \<open>Menu\<close>, \<open>Passphrase\<close>: \<^verbatim>\<open>common/menu.c\<close> and \<^verbatim>\<open>common/passphrase.c\<close>.  A console is the list of
    calls made to it, the keyboard the list of results of \<^verbatim>\<open>read_key\<close>; a loop that waits for a key
    beyond the list returns \<open>None\<close>.
  \<^item> \<open>Nvram\<close>: \<^verbatim>\<open>common/efivar.c\<close>, \<^verbatim>\<open>common/bootcount.c\<close> and the choice of the default entry in
    \<^verbatim>\<open>uefi/uefi_loader.c\<close>, over the laws of \<^verbatim>\<open>GetVariable\<close> and \<^verbatim>\<open>SetVariable\<close>.
  \<^item> \<open>Loader_Entry\<close>: \<^verbatim>\<open>common/loader_entry.c\<close>, the \<^verbatim>\<open>.conf\<close> files of the Boot Loader Specification.
  \<^item> \<open>Sha\<close>, \<open>Hmac_Pbkdf2\<close>, \<open>Aes\<close>, \<open>Cipher\<close>, \<open>Blake2b\<close>, \<open>Argon2\<close>: the files of \<^verbatim>\<open>crypto/\<close>, at the
    widths of the code.
  \<^item> \<open>Luks1\<close>, \<open>Luks2\<close>, \<open>Luks_Vol\<close>: the files of \<^verbatim>\<open>luks/\<close>.  A device is a parameter that maps a sector
    range to bytes or an error; every access outside a buffer is the result \<open>None\<close>.
  \<^item> \<open>Elf\<close>, \<open>Os_Loaders\<close>: the files of \<^verbatim>\<open>os/\<close>.
  \<^item> \<open>Disk\<close>, \<open>Fat\<close>, \<open>Vga\<close>, \<open>Bios\<close>: the files of \<^verbatim>\<open>bios/stage2/\<close>, up to \<^verbatim>\<open>stage2_main\<close>.  The locale
    \<open>sector_dev\<close> is what the file system relies on of the disk driver.
  \<^item> \<open>Ext4\<close>, \<open>Ext4_Data\<close>, \<open>Ext4_Dev\<close>, \<open>Ext4_Files\<close>: \<^verbatim>\<open>uefi/ext4.c\<close>.  \<open>Ext4\<close> holds the operations, the others
    the on-disk structures read from an abstract image, the three ways of reading bytes, and whole
    files.  The locale \<open>byte_dev\<close> is what the file system relies on of a device; it is interpreted on
    disk I/O, block I/O and an opened LUKS volume.
  \<^item> \<open>Uefi_Con\<close>, \<open>Uefi_Scan\<close>, \<open>Uefi_Boot\<close>, \<open>Uefi_Main\<close>: \<^verbatim>\<open>uefi/uefi_loader.c\<close> and \<^verbatim>\<open>common/serial.c\<close>.  In
    turn the console and the debug port, as lists of firmware calls; file access and the search of
    firmware and EXT4 volumes, with the table of file system contexts; the boot volume, graphics,
    memory map, device paths, image loading and the Shell; and \<^verbatim>\<open>uefi_main\<close>, which composes them with
    the menu, the variables, LUKS and the loaders.  The answers of the firmware are records of
    functions; an outcome says what was started or returned.
  \<^item> \<open>Layout\<close>: the structures of \<^verbatim>\<open>uefi/efi.h\<close>, of the FAT driver, LUKS1, the ELF loader, the partition
    table and the Linux setup header as values of a type of C declarations, with the size, alignment
    and offset rules of the 64-bit ABIs; the protocol identifiers and status codes of \<^verbatim>\<open>efi.h\<close>.
  \<^item> \<open>Handoff\<close>: the \<^verbatim>\<open>boot\<close> functions of \<^verbatim>\<open>os/\<close>, as instruction blocks run on a register file, and the
    entry points \<^verbatim>\<open>uefi/x86_64/entry.c\<close> and \<^verbatim>\<open>uefi/aarch64/entry.c\<close>.
  \<^item> \<open>Unit_Tests\<close>: the tests of \<^verbatim>\<open>tests/unit/test_config.c\<close>, the fixtures of \<^verbatim>\<open>tests/unit/test_luks.c\<close>
    and a part of \<^verbatim>\<open>tests/unit/test_crypto.c\<close>.

  \<^bold>\<open>What the lemmas show.\<close>
  \<^item> Configuration: every text parses to a well-formed table; printing and parsing are inverse;
    discovery in any order extends the table and keeps the global settings.
  \<^item> Menu, console, passphrase, variables: the returned index as a function of the keys, the
    countdown, output within the screen, the edit loop, the fallback after failed starts.
  \<^item> Cryptography: the streaming hashes equal their padded definitions, HMAC, PBKDF2 and BLAKE2b
    equal their RFCs, the ciphers are invertible, Argon2 stays inside its memory.
  \<^item> LUKS: unlocking returns only keys that pass the digest, LUKS1 stays inside its buffers, and
    reading an opened volume gives the plaintext.
  \<^item> File system and loaders: FAT reads return the data of the cluster chain, lookups the first
    match; ELF segments, Linux kernels and Windows boot sectors end up where they belong.
  \<^item> EXT4: mounting and reading a file returns the bytes its extents assign, also through a LUKS
    volume; a directory listing calls back for exactly its files.
  \<^item> UEFI edition: printing hands the decoded text to the firmware; discovery leaves a usable menu
    and a consistent context table; the boot volume, the display mode and the device path of an
    image are chosen and built as intended; a kernel gets control only with the memory map whose key
    the firmware accepted.
  \<^item> Layout: in every structure the members are in order, aligned and without overlap; the members the program
    uses are where the UEFI specification has them, and the accessors of the model read the
    members they are named after.
  \<^item> Hand-over: which address each loader's \<^verbatim>\<open>boot\<close> function jumps to, with which registers.
  \<^item> Unit tests: all tests of the configuration parser pass on the model, and SHA-256 gives the published digest of
    the empty message.
  \<^item> Faults: theorems of kind \<open>error\<close> state what the code does where it departs from its intention,
    such as the 64-bit BIOS stage that cannot read a disk or the UEFI edition that never unlocks a
    volume.

  \<^bold>\<open>Loops and bounds.\<close>  All loops are total functions, by structural recursion or a measure, with
  three exceptions: the output loop of PBKDF2 and the walk over a device path are partial functions,
  because they do not end for an unknown hash and for a node of length 0, and the loops that wait for
  keys consume a list.  The chain walks of the FAT driver
  carry the code's own limit on visited clusters.  No fuel is used.

  \<^bold>\<open>Not modelled.\<close>  Port and firmware input and output (serial line, INT 13h, boot services: all
  parameters), assembly files, and the progress messages of the UEFI edition outside its menu.  Of the processor
  only the instructions of the inline assembly blocks are modelled, without flags and paging.  The signatures of
  firmware functions in \<^verbatim>\<open>efi.h\<close> and most test vectors of \<^verbatim>\<open>tests/unit/test_crypto.c\<close> are left out.  Uninitialised memory is a parameter; the
  address space layout of static buffers is too.  The time the firmware takes to find volumes is
  modelled as the number of stalls only.
\<close>

end
